theory Spec2Isabelle
  imports Complex_Main "HOL-Library.Char_ord" "HOL-Library.List_Lexorder" "HOL-Library.Log_Nat"
begin

section \<open>Numbers, strings and the status glyphs\<close>

text \<open>
  The comparison engine is the CommonJS module that exports \<open>runComparison\<close>.
  Its numbers are JavaScript numbers, that is IEEE 754 double-precision values. A finite
  number is modelled by the real number it denotes. Every arithmetic operation of the
  program rounds its exact result to the nearest double, ties to the even significand,
  and to an infinity beyond the range of the finite doubles: that rounding is
  \<open>to_double\<close>. The numbers read from a report and the threshold are finite, the
  operations of the program on finite numbers never give \<open>NaN\<close>, and zero has no sign
  in the model.

  Strings are \<^typ>\<open>string\<close>, read as the UTF-8 bytes of the text (the encoding of
  the source file, of the report files and of the resulting document).
\<close>

datatype jsnum = Finite real | Infinity | NegInfinity

fun isFinite :: "jsnum \<Rightarrow> bool" where
  "isFinite (Finite r) = True"
| "isFinite Infinity = False"
| "isFinite NegInfinity = False"

text \<open>
  The nearest integer, the even one of two that are equally near; the exponent \<open>e\<close>
  with \<open>2^e \<le> |x| < 2^(e+1)\<close>; the distance between the doubles around \<open>x\<close>, which is
  \<open>2^(e-52)\<close> for a normal number and \<open>2^(-1074)\<close> below \<open>2^(-1022)\<close>; and the
  multiple of that distance nearest to \<open>|x|\<close>.
\<close>

definition round_half_even :: "real \<Rightarrow> int" where
  "round_half_even x =
    (let n = \<lfloor>x\<rfloor>; r = x - of_int n
     in if r < 1 / 2 then n else if 1 / 2 < r then n + 1 else if even n then n else n + 1)"

definition binade :: "real \<Rightarrow> int" where
  "binade x =
    (if 1 \<le> \<bar>x\<bar> then bitlen \<lfloor>\<bar>x\<bar>\<rfloor> - 1 else - bitlen (\<lceil>1 / \<bar>x\<bar>\<rceil> - 1))"

definition quantum :: "real \<Rightarrow> real" where
  "quantum x = 2 powi (max (binade x) (- 1022) - 52)"

definition magnitude :: "real \<Rightarrow> real" where
  "magnitude x = of_int (round_half_even (\<bar>x\<bar> / quantum x)) * quantum x"

definition to_double :: "real \<Rightarrow> jsnum" where
  "to_double x =
    (let y = magnitude x
     in if 2 ^ 1024 \<le> y then (if x < 0 then NegInfinity else Infinity)
        else Finite (if x < 0 then - y else y))"

text \<open>\<open>a < b\<close>, \<open>a > b\<close>, \<open>-a\<close> and \<open>Math.abs(a)\<close>.\<close>

fun num_lt :: "jsnum \<Rightarrow> jsnum \<Rightarrow> bool" where
  "num_lt (Finite a) (Finite b) = (a < b)"
| "num_lt (Finite a) Infinity = True"
| "num_lt NegInfinity (Finite b) = True"
| "num_lt NegInfinity Infinity = True"
| "num_lt a b = False"

definition num_gt :: "jsnum \<Rightarrow> jsnum \<Rightarrow> bool" where
  "num_gt a b = num_lt b a"

fun num_neg :: "jsnum \<Rightarrow> jsnum" where
  "num_neg (Finite a) = Finite (- a)"
| "num_neg Infinity = NegInfinity"
| "num_neg NegInfinity = Infinity"

fun num_abs :: "jsnum \<Rightarrow> jsnum" where
  "num_abs (Finite a) = Finite \<bar>a\<bar>"
| "num_abs Infinity = Infinity"
| "num_abs NegInfinity = Infinity"

text \<open>
  \<open>a / b\<close> and \<open>a * b\<close> for a finite \<open>b\<close> that is not zero: the program divides by a
  base value that it has compared with zero, and multiplies by 100.
\<close>

fun js_div :: "jsnum \<Rightarrow> real \<Rightarrow> jsnum" where
  "js_div (Finite a) b = to_double (a / b)"
| "js_div Infinity b = (if 0 < b then Infinity else NegInfinity)"
| "js_div NegInfinity b = (if 0 < b then NegInfinity else Infinity)"

fun js_mul :: "jsnum \<Rightarrow> real \<Rightarrow> jsnum" where
  "js_mul (Finite a) b = to_double (a * b)"
| "js_mul Infinity b = (if 0 < b then Infinity else NegInfinity)"
| "js_mul NegInfinity b = (if 0 < b then NegInfinity else Infinity)"

record MetricPair =
  main :: real
  pr :: real

record Metrics =
  gates :: MetricPair
  daGas :: MetricPair
  l2Gas :: MetricPair

text \<open>The five glyphs, as the UTF-8 bytes of U+1F6AE, U+1F195, U+1F534, U+1F7E2 and U+26AA.\<close>

definition emoji_removed :: string where
  "emoji_removed = [CHR 0xF0, CHR 0x9F, CHR 0x9A, CHR 0xAE]"

definition emoji_new :: string where
  "emoji_new = [CHR 0xF0, CHR 0x9F, CHR 0x86, CHR 0x95]"

definition emoji_regression :: string where
  "emoji_regression = [CHR 0xF0, CHR 0x9F, CHR 0x94, CHR 0xB4]"

definition emoji_improvement :: string where
  "emoji_improvement = [CHR 0xF0, CHR 0x9F, CHR 0x9F, CHR 0xA2]"

definition emoji_unchanged :: string where
  "emoji_unchanged = [CHR 0xE2, CHR 0x9A, CHR 0xAA]"

subsection \<open>getStatusEmoji\<close>

definition getStatusEmoji :: "Metrics \<Rightarrow> real \<Rightarrow> string" where
  "getStatusEmoji metrics threshold =
    (let isRemoved = (pr (gates metrics) = 0 \<and> pr (daGas metrics) = 0 \<and> pr (l2Gas metrics) = 0 \<and>
                      (main (gates metrics) > 0 \<or> main (daGas metrics) > 0 \<or> main (l2Gas metrics) > 0));
         isNew = (main (gates metrics) = 0 \<and> main (daGas metrics) = 0 \<and> main (l2Gas metrics) = 0 \<and>
                  (pr (gates metrics) > 0 \<or> pr (daGas metrics) > 0 \<or> pr (l2Gas metrics) > 0))
     in if isRemoved then emoji_removed
        else if isNew then emoji_new
        else
          (let gateDiffPct =
                 (if main (gates metrics) = 0
                  then (if pr (gates metrics) > 0 then Infinity else Finite 0)
                  else js_div (to_double (pr (gates metrics) - main (gates metrics)))
                         (main (gates metrics)));
               daGasDiffPct =
                 (if main (daGas metrics) = 0
                  then (if pr (daGas metrics) > 0 then Infinity else Finite 0)
                  else js_div (to_double (pr (daGas metrics) - main (daGas metrics)))
                         (main (daGas metrics)));
               l2GasDiffPct =
                 (if main (l2Gas metrics) = 0
                  then (if pr (l2Gas metrics) > 0 then Infinity else Finite 0)
                  else js_div (to_double (pr (l2Gas metrics) - main (l2Gas metrics)))
                         (main (l2Gas metrics)));
               metricsDiffs = filter isFinite [gateDiffPct, daGasDiffPct, l2GasDiffPct];
               hasInfiniteIncrease =
                 list_ex (\<lambda>m. m = Infinity) [gateDiffPct, daGasDiffPct, l2GasDiffPct];
               thresholdDecimal = to_double (threshold / 100);
               hasRegression =
                 (hasInfiniteIncrease \<or> list_ex (\<lambda>m. num_gt m thresholdDecimal) metricsDiffs);
               hasImprovement = list_ex (\<lambda>m. num_lt m (num_neg thresholdDecimal)) metricsDiffs
           in if hasRegression then emoji_regression
              else if hasImprovement then emoji_improvement
              else emoji_unchanged))"

subsection \<open>The classification in the specification's words\<close>

text \<open>
  The conditions of the status classification as the specification words them, to be
  compared with \<open>getStatusEmoji\<close>. \<open>fractional_change\<close> is the exact quotient
  \<open>(candidate - base) / base\<close>, and \<open>None\<close> where the specification treats the change
  as positive infinity.
\<close>

definition metric_pairs :: "Metrics \<Rightarrow> MetricPair list" where
  "metric_pairs m = [gates m, daGas m, l2Gas m]"

definition removed_condition :: "Metrics \<Rightarrow> bool" where
  "removed_condition m =
    (list_all (\<lambda>p. pr p = 0) (metric_pairs m) \<and> list_ex (\<lambda>p. main p > 0) (metric_pairs m))"

definition new_condition :: "Metrics \<Rightarrow> bool" where
  "new_condition m =
    (list_all (\<lambda>p. main p = 0) (metric_pairs m) \<and> list_ex (\<lambda>p. pr p > 0) (metric_pairs m))"

definition fractional_change :: "MetricPair \<Rightarrow> real option" where
  "fractional_change p =
    (if main p = 0 \<and> pr p = 0 then Some 0
     else if main p = 0 \<and> pr p > 0 then None
     else Some ((pr p - main p) / main p))"

definition regression_condition :: "Metrics \<Rightarrow> real \<Rightarrow> bool" where
  "regression_condition m T =
    list_ex (\<lambda>p. case fractional_change p of None \<Rightarrow> True | Some c \<Rightarrow> c > T / 100)
      (metric_pairs m)"

definition improvement_condition :: "Metrics \<Rightarrow> real \<Rightarrow> bool" where
  "improvement_condition m T =
    list_ex (\<lambda>p. case fractional_change p of None \<Rightarrow> False | Some c \<Rightarrow> c < - (T / 100))
      (metric_pairs m)"

definition nonneg_metrics :: "Metrics \<Rightarrow> bool" where
  "nonneg_metrics m = list_all (\<lambda>p. 0 \<le> main p \<and> 0 \<le> pr p) (metric_pairs m)"

text \<open>
  The same conditions on the numbers that a JavaScript engine computes: the fractional
  change of one metric in double precision (the per-metric expression that
  \<open>getStatusEmoji\<close> writes out three times), compared with the double \<open>T / 100\<close>.
\<close>

definition computed_change :: "MetricPair \<Rightarrow> jsnum" where
  "computed_change p =
    (if main p = 0 then (if pr p > 0 then Infinity else Finite 0)
     else js_div (to_double (pr p - main p)) (main p))"

definition regression_computed :: "Metrics \<Rightarrow> real \<Rightarrow> bool" where
  "regression_computed m T =
    list_ex (\<lambda>p. computed_change p = Infinity \<or>
                (isFinite (computed_change p) \<and> num_gt (computed_change p) (to_double (T / 100))))
      (metric_pairs m)"

definition improvement_computed :: "Metrics \<Rightarrow> real \<Rightarrow> bool" where
  "improvement_computed m T =
    list_ex (\<lambda>p. isFinite (computed_change p) \<and>
                num_lt (computed_change p) (num_neg (to_double (T / 100))))
      (metric_pairs m)"

text \<open>
  No rounding stands between the exact and the computed comparison: the subtraction
  \<open>candidate - base\<close> is exact (as it is for integers below \<open>2^53\<close>), and the exact
  fractional change does not round to the same double as \<open>T / 100\<close> or \<open>-T / 100\<close>.
\<close>

definition clear_of_rounding :: "Metrics \<Rightarrow> real \<Rightarrow> bool" where
  "clear_of_rounding m T =
    list_all (\<lambda>p. case fractional_change p of
                    None \<Rightarrow> True
                  | Some c \<Rightarrow>
                      to_double (pr p - main p) = Finite (pr p - main p) \<and>
                      to_double c \<noteq> to_double (T / 100) \<and>
                      to_double c \<noteq> to_double (- (T / 100)))
      (metric_pairs m)"

section \<open>Formatting numbers\<close>

text \<open>
  \<open>Number.prototype.toFixed\<close> and \<open>Number.prototype.toLocaleString\<close> belong to the
  JavaScript runtime, not to the repository. Both print the exact value of the double
  they are called on: \<open>toFixed\<close> as ECMA-262 defines it for magnitudes below
  \<open>10^21\<close> (the integer \<open>n\<close> nearest to \<open>x * 10^f\<close>, the larger one at a tie, the
  sign kept apart), \<open>toLocaleString\<close> as the \<open>en-US\<close> number format, the default
  locale of the runners the action is made for (at most three fraction digits, half
  rounds away from zero, trailing zeros dropped, the integer part in groups of three
  separated by commas). An infinity prints as \<open>Infinity\<close> and as the sign U+221E.
\<close>

definition digit_char :: "nat \<Rightarrow> char" where
  "digit_char n = ''0123456789'' ! n"

fun digits :: "nat \<Rightarrow> string" where
  "digits n = (if n < 10 then [digit_char n] else digits (n div 10) @ [digit_char (n mod 10)])"

declare digits.simps [simp del]

fun group3 :: "string \<Rightarrow> string" where
  "group3 s =
    (if length s \<le> 3 then s
     else group3 (take (length s - 3) s) @ '','' @ drop (length s - 3) s)"

declare group3.simps [simp del]

definition strip_zeros :: "string \<Rightarrow> string" where
  "strip_zeros s = rev (dropWhile (\<lambda>c. c = CHR ''0'') (rev s))"

definition toFixed :: "nat \<Rightarrow> real \<Rightarrow> string" where
  "toFixed f x =
    (let s = (if x < 0 then ''-'' else '''');
         n = nat \<lfloor>\<bar>x\<bar> * 10 ^ f + 1 / 2\<rfloor>;
         m = digits n
     in if f = 0 then s @ m
        else
          (let k = length m;
               m' = (if k \<le> f then replicate (f + 1 - k) CHR ''0'' @ m else m);
               k' = length m'
           in s @ take (k' - f) m' @ ''.'' @ drop (k' - f) m'))"

definition toLocaleString :: "real \<Rightarrow> string" where
  "toLocaleString x =
    (let s = (if x < 0 then ''-'' else '''');
         n = nat \<lfloor>\<bar>x\<bar> * 1000 + 1 / 2\<rfloor>;
         ip = n div 1000;
         fp = n mod 1000;
         fd = digits fp;
         frac = (if fp = 0 then ''''
                 else ''.'' @ strip_zeros (replicate (3 - length fd) CHR ''0'' @ fd))
     in s @ group3 (digits ip) @ frac)"

definition infinity_sign :: string where
  "infinity_sign = [CHR 0xE2, CHR 0x88, CHR 0x9E]"

fun num_toLocaleString :: "jsnum \<Rightarrow> string" where
  "num_toLocaleString (Finite x) = toLocaleString x"
| "num_toLocaleString Infinity = infinity_sign"
| "num_toLocaleString NegInfinity = ''-'' @ infinity_sign"

fun num_toFixed :: "nat \<Rightarrow> jsnum \<Rightarrow> string" where
  "num_toFixed f (Finite x) = toFixed f x"
| "num_toFixed f Infinity = ''Infinity''"
| "num_toFixed f NegInfinity = ''-Infinity''"

subsection \<open>formatDiff\<close>

text \<open>The literal \<open>0.01\<close> is the double nearest to one hundredth.\<close>

definition formatDiff :: "real \<Rightarrow> real \<Rightarrow> string" where
  "formatDiff main' pr' =
    (if main' = 0 \<and> pr' = 0 then ''''
     else if main' = 0 then ''+Inf%''
     else if pr' = 0 then ''-100%''
     else
       (let diff = to_double (pr' - main') in
        if diff = Finite 0 then ''''
        else
          (let pct = js_mul (js_div diff main') 100;
               sign = (if num_gt diff (Finite 0) then ''+'' else '''')
           in if num_lt (num_abs pct) (to_double (1 / 100)) \<and> num_lt (num_abs diff) (Finite 1)
              then ''''
              else sign @ num_toLocaleString diff @ '' ('' @ sign @ num_toFixed 1 pct @ ''%)'')))"

subsection \<open>The format of a difference in the specification's words\<close>

text \<open>
  The delta and the percentage that \<open>formatDiff\<close> computes, the percentage
  \<open>((pr - main) / main) * 100\<close> of the specification in exact arithmetic, and what it
  means that a text shows a number: \<open>one_decimal_place x t\<close> holds when \<open>t\<close> is an
  optional minus sign, digits, a point and one digit, and the number so written is
  within one twentieth of \<open>x\<close>; \<open>grouped_integer k t\<close> holds when \<open>t\<close> is an optional
  minus sign and the digits of \<open>|k|\<close> with a comma before every group of three.
\<close>

definition computed_delta :: "real \<Rightarrow> real \<Rightarrow> jsnum" where
  "computed_delta m p = to_double (p - m)"

definition computed_percentage :: "real \<Rightarrow> real \<Rightarrow> jsnum" where
  "computed_percentage m p = js_mul (js_div (to_double (p - m)) m) 100"

definition exact_percentage :: "real \<Rightarrow> real \<Rightarrow> real" where
  "exact_percentage m p = (p - m) / m * 100"

definition below_noise :: "real \<Rightarrow> real \<Rightarrow> bool" where
  "below_noise m p =
    (num_lt (num_abs (computed_percentage m p)) (to_double (1 / 100)) \<and>
     num_lt (num_abs (computed_delta m p)) (Finite 1))"

definition digit_val :: "char \<Rightarrow> nat" where
  "digit_val c = of_char c - 48"

definition is_digit :: "char \<Rightarrow> bool" where
  "is_digit c = (c \<in> set ''0123456789'')"

definition is_digits :: "string \<Rightarrow> bool" where
  "is_digits t = (t \<noteq> [] \<and> list_all is_digit t)"

definition read_nat :: "string \<Rightarrow> nat" where
  "read_nat t = foldl (\<lambda>a c. 10 * a + digit_val c) 0 t"

definition without_sign :: "string \<Rightarrow> string" where
  "without_sign t = (if take 1 t = ''-'' then drop 1 t else t)"

definition one_decimal_place :: "real \<Rightarrow> string \<Rightarrow> bool" where
  "one_decimal_place x t =
    (let u = without_sign t;
         whole = take (length u - 2) u;
         tenth = drop (length u - 1) u;
         v = real (read_nat whole) + real (read_nat tenth) / 10
     in is_digits whole \<and> is_digits tenth \<and> u = whole @ ''.'' @ tenth \<and>
        \<bar>(if take 1 t = ''-'' then - v else v) - x\<bar> \<le> 1 / 20)"

fun well_grouped :: "string \<Rightarrow> bool" where
  "well_grouped g =
    (if length g \<le> 3 then is_digits g
     else is_digits (drop (length g - 3) g) \<and> g ! (length g - 4) = CHR '','' \<and>
          well_grouped (take (length g - 4) g))"

declare well_grouped.simps [simp del]

definition grouped_integer :: "int \<Rightarrow> string \<Rightarrow> bool" where
  "grouped_integer k t =
    (let g = without_sign t
     in well_grouped g \<and> ((take 1 t = ''-'') = (k < 0)) \<and>
        int (read_nat (filter (\<lambda>c. c \<noteq> CHR '','') g)) = \<bar>k\<bar>)"

section \<open>JSON values and the metric extractor\<close>

text \<open>
  A parsed report is a JavaScript value. \<open>JUndefined\<close> is what reading a missing
  property gives; \<open>JSON.parse\<close> itself never produces it. An object is the list of
  its own properties, each key once.

  Reading a property of \<open>null\<close> or \<open>undefined\<close> throws a \<open>TypeError\<close>; the optional
  chain \<open>v?.k\<close> gives \<open>undefined\<close> there instead. None of the property names this
  program reads (\<open>name\<close>, \<open>results\<close>, \<open>gas\<close>, \<open>gasLimits\<close>, \<open>daGas\<close>, \<open>l2Gas\<close>,
  \<open>totalGateCount\<close>) exists on a number, string, boolean or array, so \<open>get_prop\<close>
  gives \<open>undefined\<close> for those.
\<close>

datatype jsval =
    JUndefined
  | JNull
  | JBool bool
  | JNum real
  | JStr string
  | JArr "jsval list"
  | JObj "(string \<times> jsval) list"

text \<open>
  How a call can end without returning: \<open>TypeError\<close> is an uncaught JavaScript
  \<open>TypeError\<close>. \<open>NonNumericMetric\<close> marks the edge of the model: a metric scalar of
  a report is not a JSON number, and what JavaScript's coercions would then compute is
  neither promised nor denied here.
\<close>

datatype abort = TypeError | NonNumericMetric

fun try_bind :: "'e + 'a \<Rightarrow> ('a \<Rightarrow> 'e + 'b) \<Rightarrow> 'e + 'b" where
  "try_bind (Inl e) f = Inl e"
| "try_bind (Inr v) f = f v"

fun get_prop :: "jsval \<Rightarrow> string \<Rightarrow> abort + jsval" where
  "get_prop JUndefined k = Inl TypeError"
| "get_prop JNull k = Inl TypeError"
| "get_prop (JObj kvs) k = Inr (case map_of kvs k of None \<Rightarrow> JUndefined | Some v \<Rightarrow> v)"
| "get_prop v k = Inr JUndefined"

definition nullish :: "jsval \<Rightarrow> bool" where
  "nullish v = (v = JUndefined \<or> v = JNull)"

text \<open>\<open>v?.k\<close> and \<open>v ?? d\<close>.\<close>

definition opt_get :: "jsval \<Rightarrow> string \<Rightarrow> abort + jsval" where
  "opt_get v k = (if nullish v then Inr JUndefined else get_prop v k)"

definition coalesce :: "jsval \<Rightarrow> jsval \<Rightarrow> jsval" where
  "coalesce v d = (if nullish v then d else v)"

definition getDaGas :: "jsval \<Rightarrow> abort + jsval" where
  "getDaGas result =
    try_bind (opt_get result ''gas'') (\<lambda>gas.
    try_bind (opt_get gas ''gasLimits'') (\<lambda>gasLimits.
    try_bind (opt_get gasLimits ''daGas'') (\<lambda>v.
    Inr (coalesce v (JNum 0)))))"

definition getL2Gas :: "jsval \<Rightarrow> abort + jsval" where
  "getL2Gas result =
    try_bind (opt_get result ''gas'') (\<lambda>gas.
    try_bind (opt_get gas ''gasLimits'') (\<lambda>gasLimits.
    try_bind (opt_get gasLimits ''l2Gas'') (\<lambda>v.
    Inr (coalesce v (JNum 0)))))"

text \<open>\<open>result?.totalGateCount ?? 0\<close>, written inline in the source.\<close>

definition getTotalGateCount :: "jsval \<Rightarrow> abort + jsval" where
  "getTotalGateCount result =
    try_bind (opt_get result ''totalGateCount'') (\<lambda>v. Inr (coalesce v (JNum 0)))"

section \<open>The host: file system, paths and collation\<close>

text \<open>
  The functions of the Node runtime that the program calls are parameters of the model,
  gathered in one record: \<open>fs.readdirSync\<close> (the entries of a directory in the order
  the system lists them, or an error), \<open>fs.existsSync\<close>, the composition
  \<open>JSON.parse(fs.readFileSync(p, 'utf-8'))\<close> (\<open>Inl\<close> the message of what either
  throws), \<open>path.join\<close> and \<open>String.prototype.localeCompare\<close> (negative, zero or
  positive). The file system does not change during a run, and what the program writes
  to the console is not modelled.
\<close>

datatype fs_error = ENOENT | OtherFsError

record host =
  readdirSync :: "string \<Rightarrow> fs_error + string list"
  existsSync :: "string \<Rightarrow> bool"
  readJSON :: "string \<Rightarrow> string + jsval"
  path_join :: "string \<Rightarrow> string \<Rightarrow> string"
  localeCompare :: "string \<Rightarrow> string \<Rightarrow> int"

subsection \<open>String and array methods\<close>

definition newline :: string where
  "newline = [CHR 0x0A]"

definition startsWith :: "string \<Rightarrow> string \<Rightarrow> bool" where
  "startsWith s p = (take (length p) s = p)"

definition endsWith :: "string \<Rightarrow> string \<Rightarrow> bool" where
  "endsWith s p = (length p \<le> length s \<and> drop (length s - length p) s = p)"

fun str_includes :: "string \<Rightarrow> string \<Rightarrow> bool" where
  "str_includes [] p = (p = [])"
| "str_includes (c # s) p = (startsWith (c # s) p \<or> str_includes s p)"

fun join :: "string list \<Rightarrow> string \<Rightarrow> string" where
  "join [] sep = []"
| "join [x] sep = x"
| "join (x # y # ys) sep = x @ sep @ join (y # ys) sep"

text \<open>
  \<open>Array.prototype.sort\<close> with a comparison function is a stable sort. For a
  comparison function that is a consistent ordering its result is the one of the stable
  insertion sort below: \<open>x\<close> goes before the first element it does not compare
  greater than.
\<close>

fun insort_by :: "('a \<Rightarrow> 'a \<Rightarrow> int) \<Rightarrow> 'a \<Rightarrow> 'a list \<Rightarrow> 'a list" where
  "insort_by cmp x [] = [x]"
| "insort_by cmp x (y # ys) = (if cmp x y \<le> 0 then x # y # ys else y # insort_by cmp x ys)"

definition sort_by :: "('a \<Rightarrow> 'a \<Rightarrow> int) \<Rightarrow> 'a list \<Rightarrow> 'a list" where
  "sort_by cmp xs = foldr (insort_by cmp) xs []"

text \<open>
  The UTF-16 code units of a string, from its UTF-8 bytes: the bytes of one character
  give its code point, and a code point beyond U+FFFF is a pair of surrogates. The text
  is well-formed UTF-8, as every text is that Node has decoded; a string with a lone
  surrogate, which an escape in a JSON document can produce, has no such text and is
  not modelled. The default comparison of \<open>Array.prototype.sort\<close> orders two strings
  by the first code unit in which they differ, a proper prefix first.
\<close>

definition utf8_width :: "nat \<Rightarrow> nat" where
  "utf8_width b = (if b < 0xC0 then 1 else if b < 0xE0 then 2 else if b < 0xF0 then 3 else 4)"

definition code_point :: "nat list \<Rightarrow> nat" where
  "code_point bs =
    (case bs of
       [a] \<Rightarrow> a
     | [a, b] \<Rightarrow> (a mod 32) * 64 + b mod 64
     | [a, b, c] \<Rightarrow> (a mod 16) * 4096 + (b mod 64) * 64 + c mod 64
     | [a, b, c, d] \<Rightarrow> (a mod 8) * 262144 + (b mod 64) * 4096 + (c mod 64) * 64 + d mod 64
     | _ \<Rightarrow> 0)"

definition utf16_encode :: "nat \<Rightarrow> nat list" where
  "utf16_encode cp =
    (if cp < 0x10000 then [cp]
     else [0xD800 + (cp - 0x10000) div 1024, 0xDC00 + (cp - 0x10000) mod 1024])"

fun code_units :: "string \<Rightarrow> nat list" where
  "code_units [] = []"
| "code_units (c # s) =
    (let n = utf8_width (of_char c)
     in utf16_encode (code_point (map of_char (c # take (n - 1) s))) @
        code_units (drop (n - 1) s))"

definition compare_code_units :: "string \<Rightarrow> string \<Rightarrow> int" where
  "compare_code_units x y =
    (if code_units x < code_units y then - 1 else if code_units y < code_units x then 1 else 0)"

text \<open>
  The members of \<open>new Set(xs)\<close> in iteration order: every value once, at its first
  occurrence.
\<close>

primrec dedupe :: "'a list \<Rightarrow> 'a list" where
  "dedupe [] = []"
| "dedupe (x # xs) = x # filter (\<lambda>y. y \<noteq> x) (dedupe xs)"

fun map_try :: "('a \<Rightarrow> 'e + 'b) \<Rightarrow> 'a list \<Rightarrow> 'e + 'b list" where
  "map_try f [] = Inr []"
| "map_try f (x # xs) =
    try_bind (f x) (\<lambda>y. try_bind (map_try f xs) (\<lambda>ys. Inr (y # ys)))"

fun falsy :: "jsval \<Rightarrow> bool" where
  "falsy JUndefined = True"
| "falsy JNull = True"
| "falsy (JBool b) = (\<not> b)"
| "falsy (JNum n) = (n = 0)"
| "falsy (JStr s) = (s = [])"
| "falsy (JArr vs) = False"
| "falsy (JObj kvs) = False"

section \<open>Pair discovery\<close>

record BenchmarkPair =
  contractName :: string
  baseJsonPath :: string
  prJsonPath :: string

text \<open>The body of the \<open>for (const file of files)\<close> loop of \<open>findBenchmarkPairs\<close>.\<close>

fun findBenchmarkPairs_loop ::
  "host \<Rightarrow> string \<Rightarrow> string \<Rightarrow> string \<Rightarrow> string list \<Rightarrow> BenchmarkPair list" where
  "findBenchmarkPairs_loop h reportsDir baseSuffixPattern prSuffixPattern [] = []"
| "findBenchmarkPairs_loop h reportsDir baseSuffixPattern prSuffixPattern (file # files) =
    (if endsWith file prSuffixPattern then
       (let name = take (length file - length prSuffixPattern) file;
            baseFilename = name @ baseSuffixPattern;
            basePath = path_join h reportsDir baseFilename;
            prPath = path_join h reportsDir file
        in if existsSync h basePath
           then \<lparr>contractName = name, baseJsonPath = basePath, prJsonPath = prPath\<rparr> #
                findBenchmarkPairs_loop h reportsDir baseSuffixPattern prSuffixPattern files
           else findBenchmarkPairs_loop h reportsDir baseSuffixPattern prSuffixPattern files)
     else findBenchmarkPairs_loop h reportsDir baseSuffixPattern prSuffixPattern files)"

definition findBenchmarkPairs :: "host \<Rightarrow> string \<Rightarrow> string \<Rightarrow> string \<Rightarrow> BenchmarkPair list" where
  "findBenchmarkPairs h reportsDir baseSuffix prSuffix =
    (let prSuffixPattern = prSuffix @ ''.benchmark.json'';
         baseSuffixPattern = baseSuffix @ ''.benchmark.json''
     in case readdirSync h reportsDir of
          Inl error \<Rightarrow> []
        | Inr files \<Rightarrow>
            findBenchmarkPairs_loop h reportsDir baseSuffixPattern prSuffixPattern files)"

section \<open>Comparing one pair of reports\<close>

text \<open>\<open>results.map(r => r.name)\<close>: only an array has \<open>map\<close>.\<close>

definition result_names :: "jsval \<Rightarrow> abort + jsval list" where
  "result_names results =
    (case results of
       JArr rs \<Rightarrow> map_try (\<lambda>r. get_prop r ''name'') rs
     | _ \<Rightarrow> Inl TypeError)"

fun elements :: "jsval \<Rightarrow> jsval list" where
  "elements (JArr rs) = rs"
| "elements v = []"

text \<open>\<open>results.find((r) => r.name === name)\<close>.\<close>

fun find_result :: "jsval list \<Rightarrow> string \<Rightarrow> abort + jsval" where
  "find_result [] name = Inr JUndefined"
| "find_result (r # rs) name =
    try_bind (get_prop r ''name'') (\<lambda>n. if n = JStr name then Inr r else find_result rs name)"

definition number_of :: "jsval \<Rightarrow> real option" where
  "number_of v = (case v of JNum n \<Rightarrow> Some n | _ \<Rightarrow> None)"

definition metric_pair :: "jsval \<Rightarrow> jsval \<Rightarrow> MetricPair option" where
  "metric_pair a b =
    (case (number_of a, number_of b) of
       (Some x, Some y) \<Rightarrow> Some \<lparr>main = x, pr = y\<rparr>
     | _ \<Rightarrow> None)"

text \<open>
  The object stored at \<open>comparison[name]\<close>; \<open>None\<close> when one of its six scalars is
  not a number.
\<close>

definition build_metrics :: "jsval \<Rightarrow> jsval \<Rightarrow> abort + Metrics option" where
  "build_metrics mainResult prResult =
    try_bind (getTotalGateCount mainResult) (\<lambda>gm.
    try_bind (getTotalGateCount prResult) (\<lambda>gp.
    try_bind (getDaGas mainResult) (\<lambda>dm.
    try_bind (getDaGas prResult) (\<lambda>dp.
    try_bind (getL2Gas mainResult) (\<lambda>lm.
    try_bind (getL2Gas prResult) (\<lambda>lp.
    Inr (case (metric_pair gm gp, metric_pair dm dp, metric_pair lm lp) of
           (Some g, Some d, Some l) \<Rightarrow> Some \<lparr>gates = g, daGas = d, l2Gas = l\<rparr>
         | _ \<Rightarrow> None)))))))"

text \<open>
  The test that skips a name. \<open>!name\<close> holds for every falsy value; a truthy value
  that is not a string has no \<open>startsWith\<close> method, and calling it throws.
\<close>

definition excluded_name :: "string \<Rightarrow> bool" where
  "excluded_name n =
    (n = [] \<or> startsWith n ''unknown_function'' \<or> str_includes n ''(FAILED)'' \<or>
     n = ''BENCHMARK_RUNNER_ERROR'')"

text \<open>
  The loop \<open>for (const name of allFunctionNames)\<close>, which fills \<open>comparison\<close>: the
  result lists its entries in insertion order.
\<close>

fun compare_names ::
  "jsval list \<Rightarrow> jsval list \<Rightarrow> jsval list \<Rightarrow> abort + (string \<times> Metrics option) list" where
  "compare_names mainResults prResults [] = Inr []"
| "compare_names mainResults prResults (name # names) =
    (if falsy name then compare_names mainResults prResults names
     else
       (case name of
          JStr n \<Rightarrow>
            if startsWith n ''unknown_function'' \<or> str_includes n ''(FAILED)'' \<or>
               n = ''BENCHMARK_RUNNER_ERROR''
            then compare_names mainResults prResults names
            else
              try_bind (find_result mainResults n) (\<lambda>mainResult.
              try_bind (find_result prResults n) (\<lambda>prResult.
              try_bind (build_metrics mainResult prResult) (\<lambda>metrics.
              try_bind (compare_names mainResults prResults names) (\<lambda>rest.
              Inr ((n, metrics) # rest)))))
        | _ \<Rightarrow> Inl TypeError))"

text \<open>
  \<open>Object.keys(comparison).sort()\<close>. Assigning to the key \<open>__proto__\<close> of an object
  literal sets its prototype and creates no own property, so that name is no key. The
  default sort compares strings by their UTF-16 code units.
\<close>

definition sorted_keys :: "(string \<times> Metrics option) list \<Rightarrow> string list" where
  "sorted_keys comparison =
    sort_by compare_code_units (filter (\<lambda>k. k \<noteq> ''__proto__'') (map fst comparison))"

definition table_head :: "string list" where
  \<open>table_head =
    [''<table>'',
     ''<thead>'',
     ''<tr>'',
     ''  <th></th>'',
     ''  <th>Function</th>'',
     ''  <th colspan="3">Gates</th>'',
     ''  <th colspan="3">DA Gas</th>'',
     ''  <th colspan="3">L2 Gas</th>'',
     ''</tr>'',
     ''<tr>'',
     ''  <th>Status</th>'',
     ''  <th></th>'',
     ''  <th>Base</th>'',
     ''  <th>PR</th>'',
     ''  <th>Diff</th>'',
     ''  <th>Base</th>'',
     ''  <th>PR</th>'',
     ''  <th>Diff</th>'',
     ''  <th>Base</th>'',
     ''  <th>PR</th>'',
     ''  <th>Diff</th>'',
     ''</tr>'',
     ''</thead>'',
     ''<tbody>'']\<close>

definition td_right :: "string \<Rightarrow> string" where
  \<open>td_right s = ''  <td align="right">'' @ s @ ''</td>''\<close>

text \<open>The twelve lines pushed for one function.\<close>

definition table_row :: "string \<Rightarrow> Metrics \<Rightarrow> real \<Rightarrow> string list" where
  \<open>table_row funcName metrics threshold =
    [''<tr>'',
     ''  <td align="center">'' @ getStatusEmoji metrics threshold @ ''</td>'',
     ''  <td><code>'' @ funcName @ ''</code></td>'',
     td_right (toLocaleString (main (gates metrics))),
     td_right (toLocaleString (pr (gates metrics))),
     td_right (formatDiff (main (gates metrics)) (pr (gates metrics))),
     td_right (toLocaleString (main (daGas metrics))),
     td_right (toLocaleString (pr (daGas metrics))),
     td_right (formatDiff (main (daGas metrics)) (pr (daGas metrics))),
     td_right (toLocaleString (main (l2Gas metrics))),
     td_right (toLocaleString (pr (l2Gas metrics))),
     td_right (formatDiff (main (l2Gas metrics)) (pr (l2Gas metrics))),
     ''</tr>'']\<close>

text \<open>The loop \<open>for (const funcName of sortedNames)\<close>.\<close>

fun render_rows ::
  "(string \<times> Metrics option) list \<Rightarrow> real \<Rightarrow> string list \<Rightarrow> abort + string list" where
  "render_rows comparison threshold [] = Inr []"
| "render_rows comparison threshold (funcName # rest) =
    (case map_of comparison funcName of
       None \<Rightarrow> render_rows comparison threshold rest
     | Some None \<Rightarrow> Inl NonNumericMetric
     | Some (Some metrics) \<Rightarrow>
         try_bind (render_rows comparison threshold rest) (\<lambda>rows.
         Inr (table_row funcName metrics threshold @ rows)))"

text \<open>\<open>!data || !data.results\<close>.\<close>

definition lacks_results :: "jsval \<Rightarrow> abort + bool" where
  "lacks_results data =
    (if falsy data then Inr True
     else try_bind (get_prop data ''results'') (\<lambda>r. Inr (falsy r)))"

text \<open>
  \<open>generateContractComparisonTable\<close> from the point where both documents are parsed,
  in two parts: \<open>build_comparison\<close> is the union of the names and the loop that fills
  \<open>comparison\<close>; \<open>compare_reports\<close> is the structure check before it and the table
  after it.
\<close>

definition build_comparison :: "jsval \<Rightarrow> jsval \<Rightarrow> abort + (string \<times> Metrics option) list" where
  "build_comparison mainData prData =
    try_bind (get_prop mainData ''results'') (\<lambda>mainResults.
    try_bind (get_prop prData ''results'') (\<lambda>prResults.
    try_bind (result_names mainResults) (\<lambda>mainNames.
    try_bind (result_names prResults) (\<lambda>prNames.
    let allFunctionNames = dedupe (mainNames @ prNames) in
    compare_names (elements mainResults) (elements prResults) allFunctionNames))))"

definition compare_reports :: "string \<Rightarrow> jsval \<Rightarrow> jsval \<Rightarrow> real \<Rightarrow> abort + string" where
  "compare_reports name mainData prData threshold =
    try_bind (lacks_results mainData) (\<lambda>a.
    try_bind (if a then Inr True else lacks_results prData) (\<lambda>b.
    if b then Inr (''*Skipping '' @ name @ '': Invalid JSON structure (missing results array).*'')
    else
      try_bind (build_comparison mainData prData) (\<lambda>comparison.
      let sortedNames = sorted_keys comparison in
      if sortedNames = [] then Inr ''*No comparable functions found between reports.*''
      else
        try_bind (render_rows comparison threshold sortedNames) (\<lambda>rows.
        Inr (join (table_head @ rows @ [''</tbody>'', ''</table>'']) newline)))))"

definition generateContractComparisonTable :: "host \<Rightarrow> BenchmarkPair \<Rightarrow> real \<Rightarrow> abort + string" where
  "generateContractComparisonTable h pair threshold =
    (if \<not> existsSync h (baseJsonPath pair) \<or> \<not> existsSync h (prJsonPath pair)
     then Inr (''*Error: One or both report files missing for '' @ contractName pair @
               '' (this should not happen)*'')
     else
       (case readJSON h (baseJsonPath pair) of
          Inl message \<Rightarrow>
            Inr (''*Error parsing benchmark JSON for '' @ contractName pair @ '': '' @
                 message @ ''*'')
        | Inr mainData \<Rightarrow>
            (case readJSON h (prJsonPath pair) of
               Inl message \<Rightarrow>
                 Inr (''*Error parsing benchmark JSON for '' @ contractName pair @ '': '' @
                      message @ ''*'')
             | Inr prData \<Rightarrow> compare_reports (contractName pair) mainData prData threshold)))"

section \<open>The whole report\<close>

text \<open>The loop \<open>for (const pair of benchmarkPairs)\<close>: three entries per contract.\<close>

fun contract_sections :: "host \<Rightarrow> real \<Rightarrow> BenchmarkPair list \<Rightarrow> abort + string list" where
  "contract_sections h threshold [] = Inr []"
| "contract_sections h threshold (pair # pairs) =
    try_bind (generateContractComparisonTable h pair threshold) (\<lambda>tableMarkdown.
    try_bind (contract_sections h threshold pairs) (\<lambda>rest.
    Inr ([''## Contract: '' @ contractName pair @ newline, tableMarkdown, newline] @ rest)))"

record inputs =
  reportsDir :: string
  baseSuffix :: string
  prSuffix :: string
  threshold :: real

definition runComparison :: "host \<Rightarrow> inputs \<Rightarrow> abort + string" where
  "runComparison h inp =
    (let benchmarkPairs =
           findBenchmarkPairs h (reportsDir inp) (baseSuffix inp) (prSuffix inp)
     in if benchmarkPairs = []
        then Inr (''# Benchmark Comparison'' @ newline @ newline @
                  ''No matching benchmark report pairs found to compare.'' @ newline)
        else
          try_bind
            (contract_sections h (threshold inp)
               (sort_by (\<lambda>a b. localeCompare h (contractName a) (contractName b))
                  benchmarkPairs))
            (\<lambda>sections.
               Inr (join ([''<!-- benchmark-diff -->'' @ newline,
                           ''# Benchmark Comparison'' @ newline] @ sections) newline)))"

section \<open>Notions for stating the properties\<close>

text \<open>
  The rows of a table as data: the names in rendering order, each with its metrics, and
  the text \<open>generateContractComparisonTable\<close> makes of them.
\<close>

definition rows_of :: "(string \<times> Metrics option) list \<Rightarrow> string list \<Rightarrow> (string \<times> Metrics) list" where
  "rows_of comparison names =
    List.map_filter
      (\<lambda>n. case map_of comparison n of Some (Some m) \<Rightarrow> Some (n, m) | _ \<Rightarrow> None) names"

definition render_table :: "(string \<times> Metrics) list \<Rightarrow> real \<Rightarrow> string" where
  "render_table rows T =
    join (table_head @ concat (map (\<lambda>(n, m). table_row n m T) rows) @
          [''</tbody>'', ''</table>'']) newline"

text \<open>
  The contract names in the order \<open>runComparison\<close> renders their sections, and the
  document it assembles from the sections.
\<close>

definition section_order :: "host \<Rightarrow> inputs \<Rightarrow> string list" where
  "section_order h inp =
    map contractName
      (sort_by (\<lambda>a b. localeCompare h (contractName a) (contractName b))
         (findBenchmarkPairs h (reportsDir inp) (baseSuffix inp) (prSuffix inp)))"

definition render_document :: "(string \<times> string) list \<Rightarrow> string" where
  "render_document secs =
    join ([''<!-- benchmark-diff -->'' @ newline, ''# Benchmark Comparison'' @ newline] @
          concat (map (\<lambda>(n, t). [''## Contract: '' @ n @ newline, t, newline]) secs)) newline"

text \<open>
  What a collation has to satisfy on a set of names for sorting to be meaningful: any two
  names are comparable and the comparison is transitive. It \<open>separates\<close> the names when
  no two different names compare as equal.
\<close>

definition total_preorder_on :: "('a \<Rightarrow> 'a \<Rightarrow> int) \<Rightarrow> 'a set \<Rightarrow> bool" where
  "total_preorder_on cmp S =
    ((\<forall>a\<in>S. \<forall>b\<in>S. cmp a b \<le> 0 \<or> cmp b a \<le> 0) \<and>
     (\<forall>a\<in>S. \<forall>b\<in>S. \<forall>c\<in>S. cmp a b \<le> 0 \<and> cmp b c \<le> 0 \<longrightarrow> cmp a c \<le> 0))"

definition separates :: "('a \<Rightarrow> 'a \<Rightarrow> int) \<Rightarrow> 'a set \<Rightarrow> bool" where
  "separates cmp S = (\<forall>a\<in>S. \<forall>b\<in>S. cmp a b \<le> 0 \<and> cmp b a \<le> 0 \<longrightarrow> a = b)"

text \<open>
  The shape of a report that the profiler writes, with every field optional: \<open>results\<close>
  is an array, the name of an entry is a string or falsy, and the three scalars the
  extractor reads are numbers. \<open>results_missing\<close> is the structure check of the program.
\<close>

fun is_number :: "abort + jsval \<Rightarrow> bool" where
  "is_number (Inr (JNum x)) = True"
| "is_number r = False"

fun string_or_falsy :: "abort + jsval \<Rightarrow> bool" where
  "string_or_falsy (Inr (JStr s)) = True"
| "string_or_falsy (Inr v) = falsy v"
| "string_or_falsy (Inl e) = False"

definition well_formed_result :: "jsval \<Rightarrow> bool" where
  "well_formed_result r =
    (string_or_falsy (get_prop r ''name'') \<and> is_number (getTotalGateCount r) \<and>
     is_number (getDaGas r) \<and> is_number (getL2Gas r))"

definition well_formed_report :: "jsval \<Rightarrow> bool" where
  "well_formed_report d =
    (case get_prop d ''results'' of
       Inr (JArr rs) \<Rightarrow> list_all well_formed_result rs
     | _ \<Rightarrow> False)"

definition results_missing :: "jsval \<Rightarrow> bool" where
  "results_missing d =
    (falsy d \<or> (case get_prop d ''results'' of Inr r \<Rightarrow> falsy r | Inl e \<Rightarrow> True))"

definition safe_pair :: "host \<Rightarrow> BenchmarkPair \<Rightarrow> bool" where
  "safe_pair h p =
    (\<not> existsSync h (baseJsonPath p) \<or> \<not> existsSync h (prJsonPath p) \<or>
     (case readJSON h (baseJsonPath p) of
        Inl e \<Rightarrow> True
      | Inr a \<Rightarrow>
          (case readJSON h (prJsonPath p) of
             Inl e \<Rightarrow> True
           | Inr b \<Rightarrow>
               results_missing a \<or> results_missing b \<or>
               (well_formed_report a \<and> well_formed_report b))))"

text \<open>
  The pair that \<open>findBenchmarkPairs\<close> makes of a candidate file name, and the lines
  that \<open>runComparison\<close> pushes for a list of sections.
\<close>

definition pair_of_file :: "host \<Rightarrow> string \<Rightarrow> string \<Rightarrow> string \<Rightarrow> string \<Rightarrow> BenchmarkPair" where
  "pair_of_file h dir bpat ppat file =
    \<lparr>contractName = take (length file - length ppat) file,
     baseJsonPath = path_join h dir (take (length file - length ppat) file @ bpat),
     prJsonPath = path_join h dir file\<rparr>"

definition section_lines :: "(string \<times> string) list \<Rightarrow> string list" where
  "section_lines secs =
    concat (map (\<lambda>(n, t). [''## Contract: '' @ n @ newline, t, newline]) secs)"

section \<open>Metrics for the examples\<close>

definition ex_metrics_mixed :: Metrics where
  "ex_metrics_mixed =
    \<lparr>gates = \<lparr>main = 100, pr = 130\<rparr>, daGas = \<lparr>main = 100, pr = 50\<rparr>,
     l2Gas = \<lparr>main = 0, pr = 0\<rparr>\<rparr>"

definition ex_metrics_gates :: "real \<Rightarrow> real \<Rightarrow> Metrics" where
  "ex_metrics_gates a b =
    \<lparr>gates = \<lparr>main = a, pr = b\<rparr>, daGas = \<lparr>main = 0, pr = 0\<rparr>,
     l2Gas = \<lparr>main = 0, pr = 0\<rparr>\<rparr>"

section \<open>Hosts for the examples\<close>

text \<open>
  A reports directory \<open>benchmarks\<close> with a given listing and given file contents;
  \<open>path.join\<close> of that directory and a file name puts a slash between them.
\<close>

definition ex_result :: "string \<Rightarrow> real \<Rightarrow> real \<Rightarrow> real \<Rightarrow> jsval" where
  "ex_result n g d l =
    JObj [(''name'', JStr n), (''totalGateCount'', JNum g),
          (''gas'', JObj [(''gasLimits'', JObj [(''daGas'', JNum d), (''l2Gas'', JNum l)])])]"

definition ex_report :: "jsval list \<Rightarrow> jsval" where
  "ex_report rs = JObj [(''summary'', JObj []), (''results'', JArr rs)]"

definition ex_host ::
  "string list \<Rightarrow> (string \<times> (string + jsval)) list \<Rightarrow> (string \<Rightarrow> string \<Rightarrow> int) \<Rightarrow> host" where
  "ex_host listing files cmp =
    \<lparr>readdirSync = (\<lambda>d. if d = ''benchmarks'' then Inr listing else Inl ENOENT),
     existsSync = (\<lambda>p. p \<in> set (map (\<lambda>f. ''benchmarks/'' @ f) listing)),
     readJSON = (\<lambda>p. case map_of files p of
                        Some r \<Rightarrow> r
                      | None \<Rightarrow> Inl ''ENOENT: no such file or directory''),
     path_join = (\<lambda>d f. d @ ''/'' @ f),
     localeCompare = cmp\<rparr>"

definition ex_inputs :: "real \<Rightarrow> inputs" where
  "ex_inputs T =
    \<lparr>reportsDir = ''benchmarks'', baseSuffix = ''_base'', prSuffix = ''_latest'', threshold = T\<rparr>"

text \<open>
  A stand-in for the default (English) collation of \<open>localeCompare\<close>, faithful to three
  of its properties: letters are compared alphabetically before their case is looked
  at, at a tie the lowercase letter comes first, and canonically equivalent strings
  compare as equal, as ECMA-262 requires. Of the canonical equivalences it knows one:
  \<open>e\<close> followed by the combining acute accent U+0301 is the letter U+00E9.
\<close>

definition fold_case :: "char \<Rightarrow> char" where
  "fold_case c =
    (case map_of (zip ''ABCDEFGHIJKLMNOPQRSTUVWXYZ'' ''abcdefghijklmnopqrstuvwxyz'') c of
       Some l \<Rightarrow> l
     | None \<Rightarrow> c)"

fun compose_acute :: "string \<Rightarrow> string" where
  "compose_acute [] = []"
| "compose_acute (c # s) =
    (if c = CHR 0x65 \<and> take 2 s = [CHR 0xCC, CHR 0x81]
     then CHR 0xC3 # CHR 0xA9 # compose_acute (drop 2 s)
     else c # compose_acute s)"

definition ex_localeCompare :: "string \<Rightarrow> string \<Rightarrow> int" where
  "ex_localeCompare a b =
    (let ka = compose_acute a; kb = compose_acute b;
         fa = map fold_case ka; fb = map fold_case kb
     in if fa < fb then - 1
        else if fb < fa then 1
        else if kb < ka then - 1
        else if ka < kb then 1
        else 0)"

text \<open>
  Two contracts whose names differ in the case of the first letter and in the letters,
  with reports that list no function.
\<close>

definition ex_listing_za :: "string list" where
  "ex_listing_za =
    [''Zebra_latest.benchmark.json'', ''Zebra_base.benchmark.json'',
     ''apple_latest.benchmark.json'', ''apple_base.benchmark.json'']"

definition ex_files_za :: "(string \<times> (string + jsval)) list" where
  "ex_files_za =
    [(''benchmarks/Zebra_base.benchmark.json'', Inr (ex_report [])),
     (''benchmarks/Zebra_latest.benchmark.json'', Inr (ex_report [])),
     (''benchmarks/apple_base.benchmark.json'', Inr (ex_report [])),
     (''benchmarks/apple_latest.benchmark.json'', Inr (ex_report []))]"

definition ex_host_za :: host where
  "ex_host_za = ex_host ex_listing_za ex_files_za ex_localeCompare"

text \<open>
  A pair of reports for one contract. The base report holds two measured functions and
  two entries of failed profiling; the candidate report holds the same two functions,
  the runner's error entry, an entry without a name and one with an empty name.
\<close>

definition ex_base_token :: jsval where
  "ex_base_token =
    ex_report [ex_result ''transfer'' 100 10 20, ex_result ''mint'' 50 0 0,
               ex_result ''unknown_function'' 5 0 0, ex_result ''burn (FAILED)'' 0 0 0]"

definition ex_latest_token :: jsval where
  "ex_latest_token =
    ex_report [ex_result ''transfer'' 120 10 20, ex_result ''BENCHMARK_RUNNER_ERROR'' 0 0 0,
               JObj [(''totalGateCount'', JNum 7)], ex_result [] 3 0 0,
               ex_result ''mint'' 50 0 0]"

definition ex_rows_token :: "(string \<times> Metrics) list" where
  "ex_rows_token =
    [(''mint'', \<lparr>gates = \<lparr>main = 50, pr = 50\<rparr>, daGas = \<lparr>main = 0, pr = 0\<rparr>,
                 l2Gas = \<lparr>main = 0, pr = 0\<rparr>\<rparr>),
     (''transfer'', \<lparr>gates = \<lparr>main = 100, pr = 120\<rparr>, daGas = \<lparr>main = 10, pr = 10\<rparr>,
                     l2Gas = \<lparr>main = 20, pr = 20\<rparr>\<rparr>)]"

text \<open>
  Three function names: the fullwidth letter U+FF21, the emoji U+1F600, whose code
  units are the surrogates D83D and DE00, and the letter \<open>a\<close>.
\<close>

definition ex_name_fullwidth :: string where
  "ex_name_fullwidth = [CHR 0xEF, CHR 0xBC, CHR 0xA1]"

definition ex_name_astral :: string where
  "ex_name_astral = [CHR 0xF0, CHR 0x9F, CHR 0x98, CHR 0x80]"

definition ex_comparison_astral :: "(string \<times> Metrics option) list" where
  "ex_comparison_astral =
    [(ex_name_fullwidth, Some ex_metrics_mixed), (ex_name_astral, Some ex_metrics_mixed),
     (''a'', Some ex_metrics_mixed)]"

text \<open>
  A directory with two contracts: the base report of \<open>Broken\<close> does not parse, the
  reports of \<open>Token\<close> are the ones above.
\<close>

definition ex_listing_broken :: "string list" where
  "ex_listing_broken =
    [''Broken_latest.benchmark.json'', ''Token_latest.benchmark.json'',
     ''Broken_base.benchmark.json'', ''Token_base.benchmark.json'']"

definition ex_files_broken :: "(string \<times> (string + jsval)) list" where
  "ex_files_broken =
    [(''benchmarks/Broken_base.benchmark.json'', Inl ''Unexpected end of JSON input''),
     (''benchmarks/Broken_latest.benchmark.json'', Inr (ex_report [])),
     (''benchmarks/Token_base.benchmark.json'', Inr ex_base_token),
     (''benchmarks/Token_latest.benchmark.json'', Inr ex_latest_token)]"

definition ex_host_broken :: host where
  "ex_host_broken = ex_host ex_listing_broken ex_files_broken ex_localeCompare"

text \<open>
  A directory with two contracts where the candidate report of \<open>Vault\<close> is the
  document \<open>{"results": [null]}\<close>.
\<close>

definition ex_listing_vault :: "string list" where
  "ex_listing_vault =
    [''Token_latest.benchmark.json'', ''Token_base.benchmark.json'',
     ''Vault_latest.benchmark.json'', ''Vault_base.benchmark.json'']"

definition ex_files_vault :: "(string \<times> (string + jsval)) list" where
  "ex_files_vault =
    [(''benchmarks/Token_base.benchmark.json'', Inr ex_base_token),
     (''benchmarks/Token_latest.benchmark.json'', Inr ex_latest_token),
     (''benchmarks/Vault_base.benchmark.json'', Inr (ex_report [ex_result ''deposit'' 10 0 0])),
     (''benchmarks/Vault_latest.benchmark.json'', Inr (JObj [(''results'', JArr [JNull])]))]"

definition ex_host_vault :: host where
  "ex_host_vault = ex_host ex_listing_vault ex_files_vault ex_localeCompare"

definition ex_pair_vault :: BenchmarkPair where
  "ex_pair_vault =
    \<lparr>contractName = ''Vault'', baseJsonPath = ''benchmarks/Vault_base.benchmark.json'',
     prJsonPath = ''benchmarks/Vault_latest.benchmark.json''\<rparr>"

text \<open>
  Two contracts whose names are the two canonically equivalent spellings of the letter
  U+00E9, precomposed and as \<open>e\<close> with a combining accent, and two listings of the
  same directory that differ in the order of the first two entries.
\<close>

definition ex_name_composed :: string where
  "ex_name_composed = [CHR 0xC3, CHR 0xA9]"

definition ex_name_decomposed :: string where
  "ex_name_decomposed = [CHR 0x65, CHR 0xCC, CHR 0x81]"

definition ex_listing_accent :: "string list" where
  "ex_listing_accent =
    [ex_name_composed @ ''_latest.benchmark.json'', ex_name_decomposed @ ''_latest.benchmark.json'',
     ex_name_composed @ ''_base.benchmark.json'', ex_name_decomposed @ ''_base.benchmark.json'']"

definition ex_listing_accent' :: "string list" where
  "ex_listing_accent' =
    [ex_name_decomposed @ ''_latest.benchmark.json'', ex_name_composed @ ''_latest.benchmark.json'',
     ex_name_composed @ ''_base.benchmark.json'', ex_name_decomposed @ ''_base.benchmark.json'']"

definition ex_files_accent :: "(string \<times> (string + jsval)) list" where
  "ex_files_accent =
    [(''benchmarks/'' @ ex_name_composed @ ''_base.benchmark.json'', Inr (ex_report [])),
     (''benchmarks/'' @ ex_name_composed @ ''_latest.benchmark.json'', Inr (ex_report [])),
     (''benchmarks/'' @ ex_name_decomposed @ ''_base.benchmark.json'', Inr (ex_report [])),
     (''benchmarks/'' @ ex_name_decomposed @ ''_latest.benchmark.json'', Inr (ex_report []))]"

definition ex_pair_composed :: BenchmarkPair where
  "ex_pair_composed =
    \<lparr>contractName = ex_name_composed,
     baseJsonPath = ''benchmarks/'' @ ex_name_composed @ ''_base.benchmark.json'',
     prJsonPath = ''benchmarks/'' @ ex_name_composed @ ''_latest.benchmark.json''\<rparr>"

definition ex_pair_decomposed :: BenchmarkPair where
  "ex_pair_decomposed =
    \<lparr>contractName = ex_name_decomposed,
     baseJsonPath = ''benchmarks/'' @ ex_name_decomposed @ ''_base.benchmark.json'',
     prJsonPath = ''benchmarks/'' @ ex_name_decomposed @ ''_latest.benchmark.json''\<rparr>"

definition ex_host_accent :: host where
  "ex_host_accent = ex_host ex_listing_accent ex_files_accent ex_localeCompare"

definition ex_host_accent' :: host where
  "ex_host_accent' = ex_host ex_listing_accent' ex_files_accent ex_localeCompare"

section \<open>Rounding to the nearest double\<close>

text \<open>
  Rounding is evaluated on a literal by unfolding these definitions. It keeps the order
  of the numbers it rounds, which is all that the classification below needs of it.
\<close>

lemmas double_eval = to_double_def magnitude_def quantum_def binade_def compute_bitlen Let_def
  round_half_even_def power_int_def power_one_over

lemma to_double_small:
  "to_double 0 = Finite 0" "to_double 1 = Finite 1" "to_double (- 1) = Finite (- 1)"
  "to_double 100 = Finite 100"
  by (simp_all add: double_eval)

lemma one_hundredth:
  "to_double (1 / 100) = Finite (5764607523034235 / 576460752303423488)"
  by (simp add: double_eval)

lemma round_half_even_of_int: "round_half_even (of_int n) = n"
  by (simp add: round_half_even_def)

lemma round_half_even_mono:
  assumes "x \<le> y"
  shows "round_half_even x \<le> round_half_even y"
proof -
  have f: "\<lfloor>x\<rfloor> \<le> \<lfloor>y\<rfloor>" using assms by (rule floor_mono)
  have bx: "round_half_even x \<le> \<lfloor>x\<rfloor> + 1" and by': "\<lfloor>y\<rfloor> \<le> round_half_even y"
    by (simp_all add: round_half_even_def Let_def)
  show ?thesis
  proof (cases "\<lfloor>x\<rfloor> < \<lfloor>y\<rfloor>")
    case True
    with bx by' show ?thesis by linarith
  next
    case False
    with f have e: "\<lfloor>x\<rfloor> = \<lfloor>y\<rfloor>" by simp
    with assms show ?thesis by (auto simp: round_half_even_def Let_def)
  qed
qed

lemma round_half_even_nonneg: "0 \<le> x \<Longrightarrow> 0 \<le> round_half_even x"
  using round_half_even_mono[of 0 x] round_half_even_of_int[of 0] by simp

lemma binade_bounds:
  assumes "x \<noteq> 0"
  shows "2 powi binade x \<le> \<bar>x\<bar>" "\<bar>x\<bar> < 2 powi (binade x + 1)"
proof -
  have "2 powi binade x \<le> \<bar>x\<bar> \<and> \<bar>x\<bar> < 2 powi (binade x + 1)"
  proof (cases "1 \<le> \<bar>x\<bar>")
    case True
    define n where "n = \<lfloor>\<bar>x\<bar>\<rfloor>"
    have n: "0 < n" using True by (simp add: n_def)
    have b: "binade x = bitlen n - 1" using True by (simp add: binade_def n_def)
    from bitlen_bounds[OF n] have lo: "2 ^ nat (bitlen n - 1) \<le> n" and hi: "n < 2 ^ nat (bitlen n)"
      by simp_all
    have k: "1 \<le> bitlen n" using n bitlen_eq_zero_iff[of n] bitlen_nonneg[of n] by linarith
    have "2 powi (bitlen n - 1) = real_of_int (2 ^ nat (bitlen n - 1))"
      using k by (simp add: power_int_nonneg_exp)
    also have "\<dots> \<le> real_of_int n" using lo by (simp only: of_int_le_iff)
    also have "\<dots> \<le> \<bar>x\<bar>" by (simp add: n_def)
    finally have 1: "2 powi (bitlen n - 1) \<le> \<bar>x\<bar>" .
    have "\<bar>x\<bar> < real_of_int (n + 1)" by (simp add: n_def)
    also have "\<dots> \<le> real_of_int (2 ^ nat (bitlen n))" using hi by (simp only: of_int_le_iff)
    also have "\<dots> = 2 powi (bitlen n - 1 + 1)" using k by (simp add: power_int_nonneg_exp)
    finally have 2: "\<bar>x\<bar> < 2 powi (bitlen n - 1 + 1)" .
    from 1 2 show ?thesis unfolding b by simp
  next
    case False
    define y where "y = 1 / \<bar>x\<bar>"
    define n where "n = \<lceil>y\<rceil> - 1"
    from False assms have y1: "1 < y" by (simp add: y_def)
    have xy: "\<bar>x\<bar> = 1 / y" by (simp add: y_def)
    have n: "0 < n" using y1 by (simp add: n_def; linarith)
    have ny: "real_of_int n < y" "y \<le> real_of_int n + 1" by (simp_all add: n_def; linarith)+
    have b: "binade x = - bitlen n" using False by (simp add: binade_def n_def y_def)
    from bitlen_bounds[OF n] have lo: "2 ^ nat (bitlen n - 1) \<le> n" and hi: "n < 2 ^ nat (bitlen n)"
      by simp_all
    have k: "1 \<le> bitlen n" using n bitlen_eq_zero_iff[of n] bitlen_nonneg[of n] by linarith
    have "y \<le> real_of_int (n + 1)" using ny by simp
    also have "\<dots> \<le> real_of_int (2 ^ nat (bitlen n))" using hi by (simp only: of_int_le_iff)
    also have "\<dots> = 2 powi bitlen n" using k by (simp add: power_int_nonneg_exp)
    finally have yle: "y \<le> 2 powi bitlen n" .
    have "2 powi (bitlen n - 1) = real_of_int (2 ^ nat (bitlen n - 1))"
      using k by (simp add: power_int_nonneg_exp)
    also have "\<dots> \<le> real_of_int n" using lo by (simp only: of_int_le_iff)
    also have "\<dots> < y" by (rule ny)
    finally have ylo: "2 powi (bitlen n - 1) < y" .
    have p: "0 < (2::real) powi bitlen n" "0 < (2::real) powi (bitlen n - 1)"
      by (simp_all add: zero_less_power_int)
    have 1: "2 powi (- bitlen n) \<le> \<bar>x\<bar>"
      unfolding xy power_int_minus_divide using yle y1 p by (simp add: frac_le)
    have "1 / y < 1 / 2 powi (bitlen n - 1)"
      using ylo p y1 by (simp add: frac_less2)
    then have 2: "\<bar>x\<bar> < 2 powi (- bitlen n + 1)"
      unfolding xy using power_int_minus_divide[of "2::real" "bitlen n - 1"] by simp
    from 1 2 show ?thesis unfolding b by simp
  qed
  then show "2 powi binade x \<le> \<bar>x\<bar>" "\<bar>x\<bar> < 2 powi (binade x + 1)" by simp_all
qed


lemma quantum_pos: "0 < quantum x"
  by (simp add: quantum_def zero_less_power_int)

lemma quantum_abs: "quantum (- x) = quantum x"
  by (simp add: quantum_def binade_def)

lemma magnitude_minus: "magnitude (- x) = magnitude x"
  by (simp add: magnitude_def quantum_abs)

lemma magnitude_nonneg: "0 \<le> magnitude x"
  unfolding magnitude_def using quantum_pos[of x] round_half_even_nonneg[of "\<bar>x\<bar> / quantum x"]
  by simp

lemma magnitude_0: "magnitude 0 = 0"
  by (simp add: magnitude_def round_half_even_def)

lemma two_powi_mono: "a \<le> b \<Longrightarrow> (2::real) powi a \<le> 2 powi b"
  by (rule power_int_increasing) simp_all

lemma two_powi_53: "(2::real) powi (e + 1) = 2 ^ 53 * 2 powi (e - 52)"
proof -
  have "(2::real) powi (53 + (e - 52)) = 2 powi 53 * 2 powi (e - 52)"
    by (rule power_int_add) simp
  moreover have "53 + (e - 52) = e + 1" by simp
  ultimately show ?thesis by simp
qed

lemma two_powi_52: "(2::real) powi e = 2 ^ 52 * 2 powi (e - 52)"
proof -
  have "(2::real) powi (52 + (e - 52)) = 2 powi 52 * 2 powi (e - 52)"
    by (rule power_int_add) simp
  moreover have "52 + (e - 52) = e" by simp
  ultimately show ?thesis by simp
qed

lemma magnitude_upper:
  assumes "x \<noteq> 0"
  shows "magnitude x \<le> 2 powi (max (binade x) (- 1022) + 1)"
proof -
  let ?e = "max (binade x) (- 1022)"
  have q: "quantum x = 2 powi (?e - 52)" by (simp add: quantum_def)
  have qp: "0 < quantum x" by (rule quantum_pos)
  have "\<bar>x\<bar> < 2 powi (binade x + 1)" by (rule binade_bounds(2)[OF assms])
  also have "\<dots> \<le> 2 powi (?e + 1)" by (rule two_powi_mono) simp
  also have "\<dots> = 2 ^ 53 * quantum x"
    unfolding q by (rule two_powi_53)
  finally have "\<bar>x\<bar> / quantum x \<le> real_of_int (2 ^ 53)"
    using qp by (simp add: pos_divide_le_eq)
  from round_half_even_mono[OF this] have "round_half_even (\<bar>x\<bar> / quantum x) \<le> 2 ^ 53"
    by (simp only: round_half_even_of_int)
  then have "real_of_int (round_half_even (\<bar>x\<bar> / quantum x)) \<le> real_of_int (2 ^ 53)"
    by (simp only: of_int_le_iff)
  then have "magnitude x \<le> 2 ^ 53 * quantum x"
    unfolding magnitude_def using qp by simp
  also have "\<dots> = 2 powi (?e + 1)"
    unfolding q by (rule two_powi_53[symmetric])
  finally show ?thesis .
qed

lemma magnitude_lower:
  assumes "x \<noteq> 0" "- 1022 \<le> binade x"
  shows "2 powi binade x \<le> magnitude x"
proof -
  have q: "quantum x = 2 powi (binade x - 52)" using assms(2) by (simp add: quantum_def max_def)
  have qp: "0 < quantum x" by (rule quantum_pos)
  have e: "2 powi binade x = 2 ^ 52 * quantum x"
    unfolding q by (rule two_powi_52)
  have "2 ^ 52 * quantum x \<le> \<bar>x\<bar>" using binade_bounds(1)[OF assms(1)] unfolding e .
  then have "real_of_int (2 ^ 52) \<le> \<bar>x\<bar> / quantum x"
    using qp by (simp add: pos_le_divide_eq)
  from round_half_even_mono[OF this] have "2 ^ 52 \<le> round_half_even (\<bar>x\<bar> / quantum x)"
    by (simp only: round_half_even_of_int)
  then have "real_of_int (2 ^ 52) \<le> real_of_int (round_half_even (\<bar>x\<bar> / quantum x))"
    by (simp only: of_int_le_iff)
  then have "2 ^ 52 * quantum x \<le> magnitude x"
    unfolding magnitude_def using qp by simp
  then show ?thesis unfolding e .
qed

lemma magnitude_mono:
  assumes "0 \<le> x" "x \<le> y"
  shows "magnitude x \<le> magnitude y"
proof (cases "x = 0")
  case True
  then show ?thesis by (simp add: magnitude_0 magnitude_nonneg)
next
  case False
  with assms have x: "0 < x" and y: "0 < y" by simp_all
  let ?ex = "max (binade x) (- 1022)" and ?ey = "max (binade y) (- 1022)"
  consider "?ex = ?ey" | "?ex < ?ey" | "?ey < ?ex" by linarith
  then show ?thesis
  proof cases
    case 1
    then have q: "quantum x = quantum y" by (simp add: quantum_def)
    have "\<bar>x\<bar> / quantum y \<le> \<bar>y\<bar> / quantum y"
      using assms x quantum_pos[of y] by (simp add: divide_right_mono)
    from round_half_even_mono[OF this] quantum_pos[of y] show ?thesis
      unfolding magnitude_def q by simp
  next
    case 2
    then have b: "- 1022 \<le> binade y" "?ey = binade y" by linarith+
    have "magnitude x \<le> 2 powi (?ex + 1)" by (rule magnitude_upper) (use x in simp)
    also have "\<dots> \<le> 2 powi binade y" by (rule two_powi_mono) (use 2 b in linarith)
    also have "\<dots> \<le> magnitude y" by (rule magnitude_lower) (use y b in simp_all)
    finally show ?thesis .
  next
    case 3
    then have b: "?ex = binade x" by linarith
    have "y = \<bar>y\<bar>" using y by simp
    also have "\<dots> < 2 powi (binade y + 1)" by (rule binade_bounds(2)) (use y in simp)
    also have "\<dots> \<le> 2 powi binade x" by (rule two_powi_mono) (use 3 b in linarith)
    also have "\<dots> \<le> \<bar>x\<bar>" by (rule binade_bounds(1)) (use x in simp)
    also have "\<dots> = x" using x by simp
    finally show ?thesis using assms by simp
  qed
qed

lemma to_double_minus: "to_double (- x) = num_neg (to_double x)"
  by (cases "x = 0") (auto simp: to_double_def Let_def magnitude_minus magnitude_0)

lemma to_double_mono:
  assumes "x \<le> y"
  shows "\<not> num_lt (to_double y) (to_double x)"
proof -
  consider "0 \<le> x" | "x < 0" "0 \<le> y" | "y < 0" using assms by linarith
  then show ?thesis
  proof cases
    case 1
    from 1 assms have "magnitude x \<le> magnitude y" by (rule magnitude_mono)
    with 1 assms show ?thesis by (simp add: to_double_def Let_def)
  next
    case 2
    with magnitude_nonneg[of x] magnitude_nonneg[of y] show ?thesis
      by (simp add: to_double_def Let_def)
  next
    case 3
    with assms have "magnitude (- y) \<le> magnitude (- x)" by (intro magnitude_mono) simp_all
    with 3 assms show ?thesis by (simp add: to_double_def Let_def magnitude_minus)
  qed
qed

lemma num_lt_total: "\<not> num_lt a b \<Longrightarrow> a \<noteq> b \<Longrightarrow> num_lt b a"
  by (cases a; cases b) auto

lemma num_lt_to_double: "num_lt (to_double a) (to_double b) \<Longrightarrow> a < b"
  using to_double_mono[of b a] by (cases "a < b") simp_all

lemma to_double_less:
  "a < b \<Longrightarrow> to_double a \<noteq> to_double b \<Longrightarrow> num_lt (to_double a) (to_double b)"
  using to_double_mono[of a b] num_lt_total[of "to_double a" "to_double b"] by auto

lemma num_lt_Infinity: "a \<noteq> Infinity \<Longrightarrow> num_lt a Infinity"
  by (cases a) simp_all

lemma num_lt_not_NegInfinity: "num_lt a b \<Longrightarrow> b = Infinity \<or> isFinite b"
  by (cases a; cases b) simp_all

lemma num_lt_not_Infinity: "num_lt a b \<Longrightarrow> a \<noteq> Infinity"
  by (cases a; cases b) simp_all

lemma to_double_not_NegInfinity:
  assumes "- 1 \<le> c"
  shows "to_double c \<noteq> NegInfinity"
proof
  assume "to_double c = NegInfinity"
  with to_double_mono[OF assms] show False by (simp add: to_double_small)
qed

section \<open>Status classification\<close>

lemma emoji_distinct:
  "emoji_removed \<noteq> emoji_new" "emoji_removed \<noteq> emoji_regression"
  "emoji_removed \<noteq> emoji_improvement" "emoji_removed \<noteq> emoji_unchanged"
  "emoji_new \<noteq> emoji_regression" "emoji_new \<noteq> emoji_improvement"
  "emoji_new \<noteq> emoji_unchanged" "emoji_regression \<noteq> emoji_improvement"
  "emoji_regression \<noteq> emoji_unchanged" "emoji_improvement \<noteq> emoji_unchanged"
  by (simp_all add: emoji_removed_def emoji_new_def emoji_regression_def
      emoji_improvement_def emoji_unchanged_def)

lemma list_ex_filter: "list_ex P (filter Q xs) = list_ex (\<lambda>x. Q x \<and> P x) xs"
  by (induction xs) auto

text \<open>\<open>getStatusEmoji\<close> as one chain of tests over the three metrics.\<close>

lemma getStatusEmoji_computed:
  "getStatusEmoji m T =
    (if removed_condition m then emoji_removed
     else if new_condition m then emoji_new
     else if regression_computed m T then emoji_regression
     else if improvement_computed m T then emoji_improvement
     else emoji_unchanged)"
proof -
  let ?ds = "[computed_change (gates m), computed_change (daGas m), computed_change (l2Gas m)]"
  let ?t = "to_double (T / 100)"
  have a: "(pr (gates m) = 0 \<and> pr (daGas m) = 0 \<and> pr (l2Gas m) = 0 \<and>
      (main (gates m) > 0 \<or> main (daGas m) > 0 \<or> main (l2Gas m) > 0)) = removed_condition m"
    by (simp add: removed_condition_def metric_pairs_def)
  have b: "(main (gates m) = 0 \<and> main (daGas m) = 0 \<and> main (l2Gas m) = 0 \<and>
      (pr (gates m) > 0 \<or> pr (daGas m) > 0 \<or> pr (l2Gas m) > 0)) = new_condition m"
    by (simp add: new_condition_def metric_pairs_def)
  have c: "(list_ex (\<lambda>m. m = Infinity) ?ds \<or>
       list_ex (\<lambda>m. num_gt m ?t) (filter isFinite ?ds)) = regression_computed m T"
    unfolding list_ex_filter regression_computed_def metric_pairs_def
    by (simp only: list_ex_Nil_iff list_ex_Cons_iff) blast
  have d: "list_ex (\<lambda>m. num_lt m (num_neg ?t)) (filter isFinite ?ds) = improvement_computed m T"
    unfolding list_ex_filter improvement_computed_def metric_pairs_def
    by (simp only: list_ex_Nil_iff list_ex_Cons_iff)
  show ?thesis
    by (simp only: getStatusEmoji_def Let_def computed_change_def[symmetric] a b c d)
qed

text \<open>One metric: the computed change against the exact one.\<close>

lemma computed_change_exact:
  assumes "fractional_change p = Some c"
    and "to_double (pr p - main p) = Finite (pr p - main p)"
  shows "computed_change p = to_double c"
proof (cases "main p = 0")
  case True
  with assms(1) have "c = 0" "\<not> 0 < pr p"
    by (auto simp: fractional_change_def split: if_splits)
  with True show ?thesis by (simp add: computed_change_def to_double_small)
next
  case False
  with assms(1) have "c = (pr p - main p) / main p"
    by (auto simp: fractional_change_def split: if_splits)
  with False assms(2) show ?thesis by (simp add: computed_change_def)
qed

lemma fractional_change_lower:
  assumes "0 \<le> main p" "0 \<le> pr p" "fractional_change p = Some c"
  shows "- 1 \<le> c"
proof (cases "main p = 0")
  case True
  with assms(3) show ?thesis by (auto simp: fractional_change_def split: if_splits)
next
  case False
  with assms(1) have m: "0 < main p" by simp
  from False assms(3) have c: "c = (pr p - main p) / main p"
    by (auto simp: fractional_change_def split: if_splits)
  have "- 1 * main p \<le> pr p - main p" using assms(2) by simp
  with m show ?thesis unfolding c by (simp add: pos_le_divide_eq)
qed

lemma computed_regression_exact:
  assumes "case fractional_change p of
             None \<Rightarrow> True
           | Some c \<Rightarrow> to_double (pr p - main p) = Finite (pr p - main p) \<and>
                       to_double c \<noteq> to_double t \<and> to_double c \<noteq> to_double (- t)"
  shows "(computed_change p = Infinity \<or>
          (isFinite (computed_change p) \<and> num_gt (computed_change p) (to_double t))) =
     (case fractional_change p of None \<Rightarrow> True | Some c \<Rightarrow> c > t)"
proof (cases "fractional_change p")
  case None
  then have "computed_change p = Infinity"
    by (auto simp: fractional_change_def computed_change_def split: if_splits)
  with None show ?thesis by simp
next
  case (Some c)
  with assms have e: "computed_change p = to_double c" and ne: "to_double c \<noteq> to_double t"
    by (simp_all add: computed_change_exact)
  have "(to_double c = Infinity \<or> (isFinite (to_double c) \<and> num_lt (to_double t) (to_double c))) =
      (t < c)"
  proof
    assume l: "to_double c = Infinity \<or> (isFinite (to_double c) \<and> num_lt (to_double t) (to_double c))"
    have "num_lt (to_double t) (to_double c)"
    proof (cases "to_double c = Infinity")
      case True
      with ne show ?thesis by (simp add: num_lt_Infinity)
    next
      case False
      with l show ?thesis by simp
    qed
    then show "t < c" by (rule num_lt_to_double)
  next
    assume "t < c"
    then have "num_lt (to_double t) (to_double c)"
      using ne by (intro to_double_less) simp_all
    from this num_lt_not_NegInfinity[OF this]
    show "to_double c = Infinity \<or> (isFinite (to_double c) \<and> num_lt (to_double t) (to_double c))"
      by blast
  qed
  then show ?thesis unfolding e num_gt_def Some by simp
qed

lemma computed_improvement_exact:
  assumes "0 \<le> main p" "0 \<le> pr p"
    and "case fractional_change p of
             None \<Rightarrow> True
           | Some c \<Rightarrow> to_double (pr p - main p) = Finite (pr p - main p) \<and>
                       to_double c \<noteq> to_double t \<and> to_double c \<noteq> to_double (- t)"
  shows "(isFinite (computed_change p) \<and> num_lt (computed_change p) (num_neg (to_double t))) =
     (case fractional_change p of None \<Rightarrow> False | Some c \<Rightarrow> c < - t)"
proof (cases "fractional_change p")
  case None
  then have "computed_change p = Infinity"
    by (auto simp: fractional_change_def computed_change_def split: if_splits)
  with None show ?thesis by simp
next
  case (Some c)
  with assms(3) have e: "computed_change p = to_double c"
    and ne: "to_double c \<noteq> to_double (- t)"
    by (simp_all add: computed_change_exact)
  from fractional_change_lower[OF assms(1,2) Some]
  have nn: "to_double c \<noteq> NegInfinity" by (rule to_double_not_NegInfinity)
  have "(isFinite (to_double c) \<and> num_lt (to_double c) (to_double (- t))) = (c < - t)"
  proof
    assume "isFinite (to_double c) \<and> num_lt (to_double c) (to_double (- t))"
    then show "c < - t" by (intro num_lt_to_double) simp
  next
    assume "c < - t"
    then have l: "num_lt (to_double c) (to_double (- t))"
      using ne by (intro to_double_less) simp_all
    from num_lt_not_Infinity[OF l] nn have "isFinite (to_double c)"
      by (cases "to_double c") simp_all
    with l show "isFinite (to_double c) \<and> num_lt (to_double c) (to_double (- t))" by simp
  qed
  then show ?thesis unfolding e to_double_minus[symmetric] Some by simp
qed

lemma getStatusEmoji_removed_iff: "getStatusEmoji m T = emoji_removed \<longleftrightarrow> removed_condition m"
  unfolding getStatusEmoji_computed by (simp add: emoji_distinct emoji_distinct[symmetric])

lemma removed_excludes_new: "\<not> (removed_condition m \<and> new_condition m)"
  by (auto simp: removed_condition_def new_condition_def metric_pairs_def)

lemma getStatusEmoji_new_iff: "getStatusEmoji m T = emoji_new \<longleftrightarrow> new_condition m"
  unfolding getStatusEmoji_computed
  using removed_excludes_new[of m] by (simp add: emoji_distinct emoji_distinct[symmetric])

lemma getStatusEmoji_range:
  "getStatusEmoji m T \<in>
     {emoji_removed, emoji_new, emoji_regression, emoji_improvement, emoji_unchanged}"
  unfolding getStatusEmoji_computed by simp

text \<open>
  Claim C1, as amended. For a metrics triple with non-negative values that satisfies
  neither the Removed nor the New condition, and every threshold \<open>T\<close>: the status is
  the regression glyph exactly when some metric's fractional change, as computed in
  double precision, is positive infinity (base 0 with a candidate above 0, or a quotient
  beyond the range of the doubles) or is finite and strictly greater than the double
  \<open>T / 100\<close>; otherwise it is the improvement glyph exactly when some finite computed
  change is strictly less than the double \<open>-T / 100\<close>; otherwise it is the unchanged
  glyph. Regression is decided first. The computed conditions are the exact ones,
  \<open>(candidate - base) / base > T / 100\<close> and \<open>< -T / 100\<close>, whenever every subtraction is
  exact and no exact change rounds to the same double as \<open>T / 100\<close> or \<open>-T / 100\<close>.
\<close>

theorem getStatusEmoji_regression_improvement:
  assumes "nonneg_metrics m" "\<not> removed_condition m" "\<not> new_condition m"
  shows "getStatusEmoji m T =
     (if regression_computed m T then emoji_regression
      else if improvement_computed m T then emoji_improvement
      else emoji_unchanged) \<and>
    (getStatusEmoji m T = emoji_regression \<longleftrightarrow> regression_computed m T) \<and>
    (getStatusEmoji m T = emoji_improvement \<longleftrightarrow>
       \<not> regression_computed m T \<and> improvement_computed m T) \<and>
    (getStatusEmoji m T = emoji_unchanged \<longleftrightarrow>
       \<not> regression_computed m T \<and> \<not> improvement_computed m T) \<and>
    (clear_of_rounding m T \<longrightarrow>
       (regression_computed m T \<longleftrightarrow> regression_condition m T) \<and>
       (improvement_computed m T \<longleftrightarrow> improvement_condition m T))"
proof -
  from assms(1) have nn: "0 \<le> main (gates m)" "0 \<le> pr (gates m)" "0 \<le> main (daGas m)"
    "0 \<le> pr (daGas m)" "0 \<le> main (l2Gas m)" "0 \<le> pr (l2Gas m)"
    by (simp_all add: nonneg_metrics_def metric_pairs_def)
  have e: "getStatusEmoji m T =
     (if regression_computed m T then emoji_regression
      else if improvement_computed m T then emoji_improvement
      else emoji_unchanged)"
    unfolding getStatusEmoji_computed using assms(2,3) by simp
  have x: "(regression_computed m T \<longleftrightarrow> regression_condition m T) \<and>
       (improvement_computed m T \<longleftrightarrow> improvement_condition m T)" if "clear_of_rounding m T"
  proof -
    let ?clear = "\<lambda>p. case fractional_change p of
             None \<Rightarrow> True
           | Some c \<Rightarrow> to_double (pr p - main p) = Finite (pr p - main p) \<and>
                       to_double c \<noteq> to_double (T / 100) \<and>
                       to_double c \<noteq> to_double (- (T / 100))"
    from that have cl: "?clear (gates m)" "?clear (daGas m)" "?clear (l2Gas m)"
      by (simp_all add: clear_of_rounding_def metric_pairs_def)
    have r: "regression_computed m T = regression_condition m T"
      unfolding regression_computed_def regression_condition_def metric_pairs_def
      by (simp only: list_ex_Nil_iff list_ex_Cons_iff computed_regression_exact[OF cl(1)]
          computed_regression_exact[OF cl(2)] computed_regression_exact[OF cl(3)])
    have i: "improvement_computed m T = improvement_condition m T"
      unfolding improvement_computed_def improvement_condition_def metric_pairs_def
      by (simp only: list_ex_Nil_iff list_ex_Cons_iff
          computed_improvement_exact[OF nn(1,2) cl(1)]
          computed_improvement_exact[OF nn(3,4) cl(2)]
          computed_improvement_exact[OF nn(5,6) cl(3)])
    from r i show ?thesis by simp
  qed
  show ?thesis
    unfolding e using x by (simp add: emoji_distinct emoji_distinct[symmetric])
qed

text \<open>
  Base gates 100, candidate gates 130, DA gas falling from 100 to 50, threshold 10: one
  metric regresses, another improves, no rounding is in the way, and the status is the
  regression glyph.
\<close>

theorem getStatusEmoji_regression_improvement_witness:
  "nonneg_metrics ex_metrics_mixed \<and> \<not> removed_condition ex_metrics_mixed \<and>
   \<not> new_condition ex_metrics_mixed \<and> clear_of_rounding ex_metrics_mixed 10 \<and>
   regression_condition ex_metrics_mixed 10 \<and> improvement_condition ex_metrics_mixed 10 \<and>
   regression_computed ex_metrics_mixed 10 \<and> improvement_computed ex_metrics_mixed 10 \<and>
   getStatusEmoji ex_metrics_mixed 10 = emoji_regression"
proof -
  have d: "to_double 30 = Finite 30" "to_double (- 50) = Finite (- 50)"
    "to_double (3 / 10) = Finite (5404319552844595 / 18014398509481984)"
    "to_double (- (1 / 2)) = Finite (- (1 / 2))"
    "to_double (1 / 10) = Finite (3602879701896397 / 36028797018963968)"
    "to_double (- (1 / 10)) = Finite (- (3602879701896397 / 36028797018963968))"
    by (simp_all add: double_eval)
  have h: "nonneg_metrics ex_metrics_mixed" "\<not> removed_condition ex_metrics_mixed"
    "\<not> new_condition ex_metrics_mixed"
    by (simp_all add: ex_metrics_mixed_def nonneg_metrics_def removed_condition_def
        new_condition_def metric_pairs_def)
  have c: "clear_of_rounding ex_metrics_mixed 10"
    by (simp add: ex_metrics_mixed_def clear_of_rounding_def metric_pairs_def
        fractional_change_def d to_double_small)
  have x: "regression_condition ex_metrics_mixed 10" "improvement_condition ex_metrics_mixed 10"
    by (simp_all add: ex_metrics_mixed_def regression_condition_def improvement_condition_def
        metric_pairs_def fractional_change_def)
  from getStatusEmoji_regression_improvement[OF h, of 10] c x show ?thesis
    using h by simp
qed

text \<open>
  Claim C1 as it was stated compares the exact quotient with the exact \<open>T / 100\<close>, and
  that is not what decides at the edge of the band. With threshold 10 and gates going
  from 9007199254740989 to 9907919180215088, two integers that are doubles, the exact
  change is above one tenth, but it rounds to the same double as \<open>10 / 100\<close> and the
  status is the unchanged glyph. The same happens with gates going from 1000 to 1003
  when the threshold is the double that the text \<open>0.3\<close> denotes.
\<close>

theorem exact_comparison_differs_at_the_threshold:
  "nonneg_metrics (ex_metrics_gates 9007199254740989 9907919180215088) \<and>
   \<not> removed_condition (ex_metrics_gates 9007199254740989 9907919180215088) \<and>
   \<not> new_condition (ex_metrics_gates 9007199254740989 9907919180215088) \<and>
   to_double 9007199254740989 = Finite 9007199254740989 \<and>
   to_double 9907919180215088 = Finite 9907919180215088 \<and>
   regression_condition (ex_metrics_gates 9007199254740989 9907919180215088) 10 \<and>
   getStatusEmoji (ex_metrics_gates 9007199254740989 9907919180215088) 10 = emoji_unchanged \<and>
   to_double (3 / 10) = Finite (5404319552844595 / 18014398509481984) \<and>
   regression_condition (ex_metrics_gates 1000 1003) (5404319552844595 / 18014398509481984) \<and>
   getStatusEmoji (ex_metrics_gates 1000 1003) (5404319552844595 / 18014398509481984) =
     emoji_unchanged"
proof -
  have d: "to_double 9007199254740989 = Finite 9007199254740989"
    "to_double 9907919180215088 = Finite 9907919180215088"
    "to_double 900719925474099 = Finite 900719925474099"
    "to_double (900719925474099 / 9007199254740989) =
       Finite (3602879701896397 / 36028797018963968)"
    "to_double (1 / 10) = Finite (3602879701896397 / 36028797018963968)"
    "to_double (3 / 10) = Finite (5404319552844595 / 18014398509481984)"
    by (simp_all add: double_eval)
  have h: "nonneg_metrics (ex_metrics_gates 9007199254740989 9907919180215088)"
    "\<not> removed_condition (ex_metrics_gates 9007199254740989 9907919180215088)"
    "\<not> new_condition (ex_metrics_gates 9007199254740989 9907919180215088)"
    "regression_condition (ex_metrics_gates 9007199254740989 9907919180215088) 10"
    "regression_condition (ex_metrics_gates 1000 1003) (5404319552844595 / 18014398509481984)"
    by (simp_all add: ex_metrics_gates_def nonneg_metrics_def removed_condition_def
        new_condition_def regression_condition_def metric_pairs_def fractional_change_def)
  have g: "getStatusEmoji (ex_metrics_gates 9007199254740989 9907919180215088) 10 =
      emoji_unchanged"
    "getStatusEmoji (ex_metrics_gates 1000 1003) (5404319552844595 / 18014398509481984) =
      emoji_unchanged"
    by (simp_all add: getStatusEmoji_def ex_metrics_gates_def Let_def num_gt_def double_eval)
  from d h g show ?thesis by simp
qed

text \<open>
  Claim C2. For every metrics triple and every threshold, the status is the removed
  glyph exactly when all three candidate-side values are zero and some base-side value
  is greater than zero, and the new glyph exactly when all three base-side values are
  zero and some candidate-side value is greater than zero; the two conditions never
  hold together.
\<close>

theorem getStatusEmoji_removed_new:
  "(getStatusEmoji m T = emoji_removed \<longleftrightarrow>
      pr (gates m) = 0 \<and> pr (daGas m) = 0 \<and> pr (l2Gas m) = 0 \<and>
      (main (gates m) > 0 \<or> main (daGas m) > 0 \<or> main (l2Gas m) > 0)) \<and>
   (getStatusEmoji m T = emoji_new \<longleftrightarrow>
      main (gates m) = 0 \<and> main (daGas m) = 0 \<and> main (l2Gas m) = 0 \<and>
      (pr (gates m) > 0 \<or> pr (daGas m) > 0 \<or> pr (l2Gas m) > 0)) \<and>
   \<not> (removed_condition m \<and> new_condition m)"
  unfolding getStatusEmoji_removed_iff getStatusEmoji_new_iff
  by (auto simp: removed_condition_def new_condition_def metric_pairs_def)

text \<open>
  Claim C10. A triple that satisfies the Removed condition gets the removed glyph under
  any two thresholds, one that satisfies the New condition gets the new glyph under any
  two thresholds, and whenever two thresholds give different glyphs both glyphs are
  among regression, improvement and unchanged.
\<close>

theorem getStatusEmoji_threshold_independent:
  "(removed_condition m \<longrightarrow>
      getStatusEmoji m T1 = emoji_removed \<and> getStatusEmoji m T2 = emoji_removed) \<and>
   (new_condition m \<longrightarrow>
      getStatusEmoji m T1 = emoji_new \<and> getStatusEmoji m T2 = emoji_new) \<and>
   (getStatusEmoji m T1 \<noteq> getStatusEmoji m T2 \<longrightarrow>
      getStatusEmoji m T1 \<in> {emoji_regression, emoji_improvement, emoji_unchanged} \<and>
      getStatusEmoji m T2 \<in> {emoji_regression, emoji_improvement, emoji_unchanged})"
proof -
  have rem: "getStatusEmoji m T = emoji_removed \<longleftrightarrow> removed_condition m" for T
    by (rule getStatusEmoji_removed_iff)
  have new: "getStatusEmoji m T = emoji_new \<longleftrightarrow> new_condition m" for T
    by (rule getStatusEmoji_new_iff)
  have range: "getStatusEmoji m T = emoji_removed \<or> getStatusEmoji m T = emoji_new \<or>
      getStatusEmoji m T = emoji_regression \<or> getStatusEmoji m T = emoji_improvement \<or>
      getStatusEmoji m T = emoji_unchanged" for T
    using getStatusEmoji_range[of m T] by simp
  have p1: "removed_condition m \<longrightarrow>
      getStatusEmoji m T1 = emoji_removed \<and> getStatusEmoji m T2 = emoji_removed"
    using rem by blast
  have p2: "new_condition m \<longrightarrow>
      getStatusEmoji m T1 = emoji_new \<and> getStatusEmoji m T2 = emoji_new"
    using new by blast
  have p3: "getStatusEmoji m T1 \<noteq> getStatusEmoji m T2 \<longrightarrow>
      getStatusEmoji m T1 \<in> {emoji_regression, emoji_improvement, emoji_unchanged} \<and>
      getStatusEmoji m T2 \<in> {emoji_regression, emoji_improvement, emoji_unchanged}"
  proof
    assume ne: "getStatusEmoji m T1 \<noteq> getStatusEmoji m T2"
    have "\<not> removed_condition m" using ne p1 by auto
    moreover have "\<not> new_condition m" using ne p2 by auto
    ultimately have "getStatusEmoji m T \<noteq> emoji_removed \<and> getStatusEmoji m T \<noteq> emoji_new" for T
      using rem new by blast
    then show "getStatusEmoji m T1 \<in> {emoji_regression, emoji_improvement, emoji_unchanged} \<and>
      getStatusEmoji m T2 \<in> {emoji_regression, emoji_improvement, emoji_unchanged}"
      using range[of T1] range[of T2] by auto
  qed
  from p1 p2 p3 show ?thesis by (intro conjI)
qed

text \<open>
  A function only in the base report, one only in the candidate report, and one whose
  status does depend on the threshold (a 20% rise is a regression at 10 and unchanged
  at 30).
\<close>

theorem getStatusEmoji_threshold_independent_witness:
  "removed_condition \<lparr>gates = \<lparr>main = 100, pr = 0\<rparr>, daGas = \<lparr>main = 5, pr = 0\<rparr>,
      l2Gas = \<lparr>main = 0, pr = 0\<rparr>\<rparr> \<and>
   getStatusEmoji \<lparr>gates = \<lparr>main = 100, pr = 0\<rparr>, daGas = \<lparr>main = 5, pr = 0\<rparr>,
      l2Gas = \<lparr>main = 0, pr = 0\<rparr>\<rparr> 1 = emoji_removed \<and>
   getStatusEmoji \<lparr>gates = \<lparr>main = 100, pr = 0\<rparr>, daGas = \<lparr>main = 5, pr = 0\<rparr>,
      l2Gas = \<lparr>main = 0, pr = 0\<rparr>\<rparr> 50 = emoji_removed \<and>
   new_condition \<lparr>gates = \<lparr>main = 0, pr = 50\<rparr>, daGas = \<lparr>main = 0, pr = 0\<rparr>,
      l2Gas = \<lparr>main = 0, pr = 0\<rparr>\<rparr> \<and>
   getStatusEmoji \<lparr>gates = \<lparr>main = 0, pr = 50\<rparr>, daGas = \<lparr>main = 0, pr = 0\<rparr>,
      l2Gas = \<lparr>main = 0, pr = 0\<rparr>\<rparr> 1 = emoji_new \<and>
   getStatusEmoji \<lparr>gates = \<lparr>main = 0, pr = 50\<rparr>, daGas = \<lparr>main = 0, pr = 0\<rparr>,
      l2Gas = \<lparr>main = 0, pr = 0\<rparr>\<rparr> 50 = emoji_new \<and>
   getStatusEmoji \<lparr>gates = \<lparr>main = 100, pr = 120\<rparr>, daGas = \<lparr>main = 0, pr = 0\<rparr>,
      l2Gas = \<lparr>main = 0, pr = 0\<rparr>\<rparr> 10 = emoji_regression \<and>
   getStatusEmoji \<lparr>gates = \<lparr>main = 100, pr = 120\<rparr>, daGas = \<lparr>main = 0, pr = 0\<rparr>,
      l2Gas = \<lparr>main = 0, pr = 0\<rparr>\<rparr> 30 = emoji_unchanged"
proof -
  have r: "removed_condition \<lparr>gates = \<lparr>main = 100, pr = 0\<rparr>, daGas = \<lparr>main = 5, pr = 0\<rparr>,
      l2Gas = \<lparr>main = 0, pr = 0\<rparr>\<rparr>"
    by (simp add: removed_condition_def metric_pairs_def)
  have n: "new_condition \<lparr>gates = \<lparr>main = 0, pr = 50\<rparr>, daGas = \<lparr>main = 0, pr = 0\<rparr>,
      l2Gas = \<lparr>main = 0, pr = 0\<rparr>\<rparr>"
    by (simp add: new_condition_def metric_pairs_def)
  have d: "getStatusEmoji \<lparr>gates = \<lparr>main = 100, pr = 120\<rparr>, daGas = \<lparr>main = 0, pr = 0\<rparr>,
      l2Gas = \<lparr>main = 0, pr = 0\<rparr>\<rparr> 10 = emoji_regression"
    "getStatusEmoji \<lparr>gates = \<lparr>main = 100, pr = 120\<rparr>, daGas = \<lparr>main = 0, pr = 0\<rparr>,
      l2Gas = \<lparr>main = 0, pr = 0\<rparr>\<rparr> 30 = emoji_unchanged"
    by (simp_all add: getStatusEmoji_def Let_def num_gt_def double_eval)
  show ?thesis
    using r n d
      getStatusEmoji_threshold_independent
        [of "\<lparr>gates = \<lparr>main = 100, pr = 0\<rparr>, daGas = \<lparr>main = 5, pr = 0\<rparr>,
          l2Gas = \<lparr>main = 0, pr = 0\<rparr>\<rparr>" 1 50]
      getStatusEmoji_threshold_independent
        [of "\<lparr>gates = \<lparr>main = 0, pr = 50\<rparr>, daGas = \<lparr>main = 0, pr = 0\<rparr>,
          l2Gas = \<lparr>main = 0, pr = 0\<rparr>\<rparr>" 1 50]
    by simp
qed

section \<open>Formatting a difference\<close>

text \<open>Digits, read back.\<close>

lemma less_10_cases:
  "d < (10::nat) \<Longrightarrow>
    d = 0 \<or> d = 1 \<or> d = 2 \<or> d = 3 \<or> d = 4 \<or> d = 5 \<or> d = 6 \<or> d = 7 \<or> d = 8 \<or> d = 9"
  by arith

lemma digit_val_digit_char: "d < 10 \<Longrightarrow> digit_val (digit_char d) = d"
  by (drule less_10_cases) (auto simp: digit_val_def digit_char_def)

lemma is_digit_digit_char: "d < 10 \<Longrightarrow> is_digit (digit_char d)"
  by (drule less_10_cases) (auto simp: digit_char_def is_digit_def)

lemma is_digit_not_sign: "is_digit c \<Longrightarrow> c \<noteq> CHR ''-'' \<and> c \<noteq> CHR '',''"
  by (auto simp: is_digit_def)

lemma is_digit_zero: "is_digit CHR ''0''"
  by (simp add: is_digit_def)

lemma digits_nonempty: "digits n \<noteq> []"
  by (subst digits.simps) simp

lemma digits_all: "list_all is_digit (digits n)"
proof (induction n rule: digits.induct)
  case (1 n)
  show ?case
  proof (cases "n < 10")
    case True
    then show ?thesis by (subst digits.simps) (simp add: is_digit_digit_char)
  next
    case False
    with 1 is_digit_digit_char[of "n mod 10"] show ?thesis
      by (subst digits.simps) simp
  qed
qed

lemma is_digits_digits: "is_digits (digits n)"
  by (simp add: is_digits_def digits_nonempty digits_all)

lemma read_nat_snoc: "read_nat (t @ [c]) = 10 * read_nat t + digit_val c"
  by (simp add: read_nat_def)

lemma read_nat_single: "read_nat [c] = digit_val c"
  by (simp add: read_nat_def)

lemma read_nat_digits: "read_nat (digits n) = n"
proof (induction n rule: digits.induct)
  case (1 n)
  show ?case
  proof (cases "n < 10")
    case True
    then show ?thesis by (subst digits.simps) (simp add: read_nat_single digit_val_digit_char)
  next
    case False
    with 1 show ?thesis
      by (subst digits.simps) (simp add: read_nat_snoc digit_val_digit_char)
  qed
qed

lemma read_nat_zero_Cons: "read_nat (CHR ''0'' # t) = read_nat t"
proof (induction t rule: rev_induct)
  case Nil
  show ?case by (simp add: read_nat_def digit_val_def)
next
  case (snoc c t)
  have "read_nat (CHR ''0'' # t @ [c]) = read_nat ((CHR ''0'' # t) @ [c])" by simp
  also have "\<dots> = 10 * read_nat (CHR ''0'' # t) + digit_val c" by (rule read_nat_snoc)
  finally show ?case using snoc by (simp add: read_nat_snoc)
qed

lemma read_nat_butlast_last:
  "t \<noteq> [] \<Longrightarrow> 10 * read_nat (butlast t) + read_nat [last t] = read_nat t"
  using read_nat_snoc[of "butlast t" "last t"] by (simp add: read_nat_single)

lemma is_digits_no_minus: "is_digits t \<Longrightarrow> take 1 t \<noteq> ''-''"
  using is_digit_not_sign by (cases t) (auto simp: is_digits_def)

lemma is_digits_no_comma: "is_digits t \<Longrightarrow> CHR '','' \<notin> set t"
  using is_digit_not_sign by (auto simp: is_digits_def list_all_iff)

lemma is_digits_take: "is_digits t \<Longrightarrow> 0 < k \<Longrightarrow> is_digits (take k t)"
  by (auto simp: is_digits_def list_all_iff dest: in_set_takeD)

lemma is_digits_drop: "is_digits t \<Longrightarrow> k < length t \<Longrightarrow> is_digits (drop k t)"
  by (auto simp: is_digits_def list_all_iff dest: in_set_dropD)

text \<open>\<open>toFixed\<close> with one fraction digit prints the nearest tenth.\<close>

lemma fixed_digits_props:
  fixes x :: real
  defines "f \<equiv> (let m = digits (nat \<lfloor>\<bar>x\<bar> * 10 + 1 / 2\<rfloor>)
     in if length m \<le> 1 then replicate (2 - length m) CHR ''0'' @ m else m)"
  shows "is_digits f \<and> 2 \<le> length f \<and> read_nat f = nat \<lfloor>\<bar>x\<bar> * 10 + 1 / 2\<rfloor>"
proof -
  let ?m = "digits (nat \<lfloor>\<bar>x\<bar> * 10 + 1 / 2\<rfloor>)"
  have m: "is_digits ?m" "?m \<noteq> []" "read_nat ?m = nat \<lfloor>\<bar>x\<bar> * 10 + 1 / 2\<rfloor>"
    by (simp_all add: is_digits_digits digits_nonempty read_nat_digits)
  show ?thesis
  proof (cases "length ?m \<le> 1")
    case True
    with m(2) have l: "length ?m = 1" by (cases ?m) simp_all
    then have f: "f = CHR ''0'' # ?m" by (simp add: f_def Let_def)
    have "is_digits (CHR ''0'' # ?m)" using m(1) by (simp add: is_digits_def is_digit_zero)
    moreover have "2 \<le> length (CHR ''0'' # ?m)" using l by simp
    moreover have "read_nat (CHR ''0'' # ?m) = nat \<lfloor>\<bar>x\<bar> * 10 + 1 / 2\<rfloor>"
      unfolding read_nat_zero_Cons by (rule m(3))
    ultimately show ?thesis unfolding f by blast
  next
    case False
    then have f: "f = ?m" by (simp add: f_def Let_def)
    from False have "2 \<le> length ?m" by simp
    with m(1,3) show ?thesis unfolding f by blast
  qed
qed

lemma toFixed_1_shape:
  fixes x :: real
  defines "f \<equiv> (let m = digits (nat \<lfloor>\<bar>x\<bar> * 10 + 1 / 2\<rfloor>)
     in if length m \<le> 1 then replicate (2 - length m) CHR ''0'' @ m else m)"
  shows "toFixed 1 x = (if x < 0 then ''-'' else []) @ butlast f @ ''.'' @ [last f]"
proof -
  from fixed_digits_props[of x] have ne: "f \<noteq> []" unfolding f_def by auto
  have t: "take (length f - 1) f = butlast f" by (simp add: butlast_conv_take)
  have d: "drop (length f - 1) f = [last f]"
  proof -
    have "drop (length (butlast f)) (butlast f @ [last f]) = [last f]" by simp
    then show ?thesis using ne by simp
  qed
  have "toFixed 1 x = (if x < 0 then ''-'' else []) @ take (length f - 1) f @ ''.'' @
      drop (length f - 1) f"
    by (simp add: toFixed_def f_def Let_def)
  then show ?thesis unfolding t d .
qed

lemma nearest_tenth:
  fixes y :: real
  assumes "0 \<le> y"
  shows "\<bar>real (nat \<lfloor>y * 10 + 1 / 2\<rfloor>) / 10 - y\<bar> \<le> 1 / 20"
proof -
  have "0 \<le> \<lfloor>y * 10 + 1 / 2\<rfloor>" using assms by simp
  then have n: "real (nat \<lfloor>y * 10 + 1 / 2\<rfloor>) = real_of_int \<lfloor>y * 10 + 1 / 2\<rfloor>" by simp
  have "real_of_int \<lfloor>y * 10 + 1 / 2\<rfloor> \<le> y * 10 + 1 / 2"
    "y * 10 + 1 / 2 < real_of_int \<lfloor>y * 10 + 1 / 2\<rfloor> + 1"
    by linarith+
  then have "real_of_int \<lfloor>y * 10 + 1 / 2\<rfloor> / 10 - y \<le> 1 / 20"
    "- (real_of_int \<lfloor>y * 10 + 1 / 2\<rfloor> / 10 - y) \<le> 1 / 20"
    by linarith+
  then show ?thesis unfolding n by (rule abs_leI)
qed

lemma toFixed_one_decimal_place: "one_decimal_place x (toFixed 1 x)"
proof -
  define f where "f = (let m = digits (nat \<lfloor>\<bar>x\<bar> * 10 + 1 / 2\<rfloor>)
     in if length m \<le> 1 then replicate (2 - length m) CHR ''0'' @ m else m)"
  let ?u = "butlast f @ ''.'' @ [last f]"
  from fixed_digits_props[of x] have p: "is_digits f" "2 \<le> length f"
    "read_nat f = nat \<lfloor>\<bar>x\<bar> * 10 + 1 / 2\<rfloor>" unfolding f_def by simp_all
  have shape: "toFixed 1 x = (if x < 0 then ''-'' else []) @ ?u"
    unfolding f_def by (rule toFixed_1_shape)
  from p(2) have ne: "f \<noteq> []" by auto
  have w: "is_digits (butlast f)"
    using is_digits_take[OF p(1), of "length f - 1"] p(2) by (simp add: butlast_conv_take)
  have l: "is_digits [last f]"
    using p(1) ne by (simp add: is_digits_def list_all_iff)
  have s: "take 1 (toFixed 1 x) = ''-'' \<longleftrightarrow> x < 0"
  proof (cases "x < 0")
    case True
    then show ?thesis unfolding shape by simp
  next
    case False
    from w have "butlast f \<noteq> []" by (simp add: is_digits_def)
    then have "take 1 ?u = take 1 (butlast f)" by (cases "butlast f") simp_all
    with is_digits_no_minus[OF w] False show ?thesis unfolding shape by simp
  qed
  have u: "without_sign (toFixed 1 x) = ?u"
    unfolding without_sign_def s unfolding shape by simp
  have lu: "length ?u = length f + 1" using ne by simp
  have tk: "take (length ?u - 2) ?u = butlast f" unfolding lu by simp
  have dr: "drop (length ?u - 1) ?u = [last f]"
  proof -
    have "length f - (length f - Suc 0) = Suc 0" using p(2) by simp
    then show ?thesis unfolding lu by simp
  qed
  have v: "real (read_nat (butlast f)) + real (read_nat [last f]) / 10 =
      real (nat \<lfloor>\<bar>x\<bar> * 10 + 1 / 2\<rfloor>) / 10"
  proof -
    have "real (10 * read_nat (butlast f) + read_nat [last f]) =
        real (nat \<lfloor>\<bar>x\<bar> * 10 + 1 / 2\<rfloor>)"
      using read_nat_butlast_last[OF ne] p(3) by simp
    then show ?thesis by simp
  qed
  have n: "\<bar>real (nat \<lfloor>\<bar>x\<bar> * 10 + 1 / 2\<rfloor>) / 10 - \<bar>x\<bar>\<bar> \<le> 1 / 20"
    by (rule nearest_tenth) simp
  have e: "\<bar>(if x < 0 then - (real (nat \<lfloor>\<bar>x\<bar> * 10 + 1 / 2\<rfloor>) / 10)
             else real (nat \<lfloor>\<bar>x\<bar> * 10 + 1 / 2\<rfloor>) / 10) - x\<bar> \<le> 1 / 20"
  proof (cases "x < 0")
    case True
    then have eq: "(if x < 0 then - (real (nat \<lfloor>\<bar>x\<bar> * 10 + 1 / 2\<rfloor>) / 10)
             else real (nat \<lfloor>\<bar>x\<bar> * 10 + 1 / 2\<rfloor>) / 10) - x =
        - (real (nat \<lfloor>\<bar>x\<bar> * 10 + 1 / 2\<rfloor>) / 10 - \<bar>x\<bar>)"
      by simp
    show ?thesis unfolding eq abs_minus_cancel by (rule n)
  next
    case False
    then have eq: "(if x < 0 then - (real (nat \<lfloor>\<bar>x\<bar> * 10 + 1 / 2\<rfloor>) / 10)
             else real (nat \<lfloor>\<bar>x\<bar> * 10 + 1 / 2\<rfloor>) / 10) - x =
        real (nat \<lfloor>\<bar>x\<bar> * 10 + 1 / 2\<rfloor>) / 10 - \<bar>x\<bar>"
      by simp
    show ?thesis unfolding eq by (rule n)
  qed
  have "is_digits (butlast f) \<and> is_digits [last f] \<and> ?u = butlast f @ ''.'' @ [last f] \<and>
      \<bar>(if x < 0 then - (real (read_nat (butlast f)) + real (read_nat [last f]) / 10)
        else real (read_nat (butlast f)) + real (read_nat [last f]) / 10) - x\<bar> \<le> 1 / 20"
    unfolding v using w l e by simp
  then show ?thesis
    unfolding one_decimal_place_def Let_def u tk dr s by simp
qed

text \<open>\<open>toLocaleString\<close> prints an integer with its digits in groups of three.\<close>

lemma well_grouped_group3: "is_digits s \<Longrightarrow> well_grouped (group3 s)"
proof (induction s rule: group3.induct)
  case (1 s)
  show ?case
  proof (cases "length s \<le> 3")
    case True
    with 1(2) show ?thesis by (subst group3.simps, subst well_grouped.simps) simp
  next
    case False
    let ?A = "group3 (take (length s - 3) s)" and ?B = "drop (length s - 3) s"
    have g: "group3 s = ?A @ CHR '','' # ?B" using False by (subst group3.simps) simp
    have a: "well_grouped ?A" using False 1(2) by (intro 1(1) is_digits_take) simp_all
    have b: "is_digits ?B" using False 1(2) by (intro is_digits_drop) simp_all
    have lb: "length ?B = 3" using False by simp
    have l: "length (?A @ CHR '','' # ?B) = length ?A + 4" using lb by simp
    have d: "drop (length ?A + 4 - 3) (?A @ CHR '','' # ?B) = ?B" by simp
    have n: "(?A @ CHR '','' # ?B) ! (length ?A + 4 - 4) = CHR '',''" by simp
    have t: "take (length ?A + 4 - 4) (?A @ CHR '','' # ?B) = ?A" by simp
    show ?thesis
      unfolding g by (subst well_grouped.simps) (simp only: l d n t a b, simp)
  qed
qed

lemma filter_group3:
  "CHR '','' \<notin> set s \<Longrightarrow> filter (\<lambda>c. c \<noteq> CHR '','') (group3 s) = s"
proof (induction s rule: group3.induct)
  case (1 s)
  from 1(2) have f: "filter (\<lambda>c. c \<noteq> CHR '','') s = s" by (auto simp: filter_id_conv)
  show ?case
  proof (cases "length s \<le> 3")
    case True
    with f show ?thesis by (subst group3.simps) simp
  next
    case False
    let ?A = "group3 (take (length s - 3) s)" and ?B = "drop (length s - 3) s"
    have g: "group3 s = ?A @ CHR '','' # ?B" using False by (subst group3.simps) simp
    have "CHR '','' \<notin> set (take (length s - 3) s)" using 1(2) by (auto dest: in_set_takeD)
    with 1(1) False have a: "filter (\<lambda>c. c \<noteq> CHR '','') ?A = take (length s - 3) s" by simp
    have "CHR '','' \<notin> set ?B" using 1(2) by (auto dest: in_set_dropD)
    then have b: "filter (\<lambda>c. c \<noteq> CHR '','') ?B = ?B" by (auto simp: filter_id_conv)
    show ?thesis unfolding g by (simp add: a b)
  qed
qed

lemma well_grouped_no_minus: "well_grouped g \<Longrightarrow> take 1 g \<noteq> ''-''"
proof (induction g rule: well_grouped.induct)
  case (1 g)
  show ?case
  proof (cases "length g \<le> 3")
    case True
    with 1(2) have "is_digits g" by (subst (asm) well_grouped.simps) simp
    then show ?thesis by (rule is_digits_no_minus)
  next
    case False
    with 1(2) have w: "well_grouped (take (length g - 4) g)"
      by (subst (asm) well_grouped.simps) simp
    have "take (length g - 4) g \<noteq> []"
    proof
      assume "take (length g - 4) g = []"
      with w show False by (subst (asm) well_grouped.simps) (simp add: is_digits_def)
    qed
    then have "0 < length g - 4" by auto
    then have "min 1 (length g - 4) = 1" by simp
    then have "take 1 (take (length g - 4) g) = take 1 g" by (simp only: take_take)
    with 1(1)[OF False w] show ?thesis by simp
  qed
qed

lemma toLocaleString_of_int:
  "toLocaleString (real_of_int k) = (if k < 0 then ''-'' else []) @ group3 (digits (nat \<bar>k\<bar>))"
proof -
  have "\<bar>real_of_int k\<bar> * 1000 + 1 / 2 = real_of_int (\<bar>k\<bar> * 1000) + 1 / 2" by simp
  then have f: "\<lfloor>\<bar>real_of_int k\<bar> * 1000 + 1 / 2\<rfloor> = \<bar>k\<bar> * 1000"
    by (simp only: floor_eq_iff) simp
  have n: "nat (\<bar>k\<bar> * 1000) = nat \<bar>k\<bar> * 1000" by (simp add: nat_mult_distrib)
  show ?thesis
    unfolding toLocaleString_def f n Let_def by simp
qed

lemma toLocaleString_grouped_integer: "grouped_integer k (toLocaleString (real_of_int k))"
proof -
  let ?G = "group3 (digits (nat \<bar>k\<bar>))"
  have w: "well_grouped ?G" by (rule well_grouped_group3) (rule is_digits_digits)
  have s: "take 1 (toLocaleString (real_of_int k)) = ''-'' \<longleftrightarrow> k < 0"
  proof (cases "k < 0")
    case True
    then show ?thesis unfolding toLocaleString_of_int by simp
  next
    case False
    then have e: "toLocaleString (real_of_int k) = ?G"
      by (simp only: toLocaleString_of_int if_False append_Nil)
    from well_grouped_no_minus[OF w] False show ?thesis unfolding e by blast
  qed
  have u: "without_sign (toLocaleString (real_of_int k)) = ?G"
  proof (cases "k < 0")
    case True
    then show ?thesis unfolding without_sign_def s unfolding toLocaleString_of_int by simp
  next
    case False
    then have e: "toLocaleString (real_of_int k) = ?G"
      by (simp only: toLocaleString_of_int if_False append_Nil)
    from False show ?thesis unfolding without_sign_def s unfolding e by simp
  qed
  have "filter (\<lambda>c. c \<noteq> CHR '','') ?G = digits (nat \<bar>k\<bar>)"
    by (rule filter_group3) (rule is_digits_no_comma[OF is_digits_digits])
  then have r: "int (read_nat (filter (\<lambda>c. c \<noteq> CHR '','') ?G)) = \<bar>k\<bar>"
    by (simp add: read_nat_digits)
  show ?thesis
    unfolding grouped_integer_def Let_def u s using w r by simp
qed

text \<open>The two methods and \<open>formatDiff\<close> on literals.\<close>

lemma replicate_numeral: "replicate (numeral k) x = x # replicate (pred_numeral k) x"
  by (simp add: numeral_eq_Suc)

lemmas number_format_eval = toFixed_def toLocaleString_def digits.simps group3.simps
  digit_char_def strip_zeros_def Let_def replicate_numeral

lemma toLocaleString_examples:
  "toLocaleString 0 = ''0''"
  "toLocaleString 3 = ''3''"
  "toLocaleString 50 = ''50''"
  "toLocaleString 1234567 = ''1,234,567''"
  "toLocaleString (- 234567) = ''-234,567''"
  "toLocaleString 34500000000001 = ''34,500,000,000,001''"
  "toLocaleString (5 / 2) = ''2.5''"
  "toLocaleString (1 / 16) = ''0.063''"
  by (simp_all add: number_format_eval)

lemma toFixed_examples:
  "toFixed 1 5 = ''5.0''"
  "toFixed 1 (- (1 / 25)) = ''-0.0''"
  "toFixed 1 (1 / 4) = ''0.3''"
  "toFixed 1 (3 / 20) = ''0.2''"
  "toFixed 1 (- (5348007913874941 / 281474976710656)) = ''-19.0''"
  "toFixed 1 (5404319552844595 / 36028797018963968) = ''0.1''"
  "toFixed 1 (3884354678607053 / 1125899906842624) = ''3.5''"
  by (simp_all add: number_format_eval)

lemma computed_examples:
  "computed_delta 1000 1050 = Finite 50"
  "computed_percentage 1000 1050 = Finite 5"
  "computed_delta 100000 (100000 + 1 / 2) = Finite (1 / 2)"
  "computed_percentage 100000 (100000 + 1 / 2) = Finite (1152921504606847 / 2305843009213693952)"
  "computed_delta 1234567 1000000 = Finite (- 234567)"
  "computed_percentage 1234567 1000000 = Finite (- (5348007913874941 / 281474976710656))"
  "computed_delta 2000 2003 = Finite 3"
  "computed_percentage 2000 2003 = Finite (5404319552844595 / 36028797018963968)"
  "computed_delta 1000000000000029 1034500000000030 = Finite 34500000000001"
  "computed_percentage 1000000000000029 1034500000000030 =
     Finite (3884354678607053 / 1125899906842624)"
  by (simp_all add: computed_delta_def computed_percentage_def double_eval)

lemma formatDiff_computed:
  "formatDiff m p =
    (if m = 0 \<and> p = 0 then []
     else if m = 0 then ''+Inf%''
     else if p = 0 then ''-100%''
     else if computed_delta m p = Finite 0 then []
     else if below_noise m p then []
     else (if num_gt (computed_delta m p) (Finite 0) then ''+'' else []) @
          num_toLocaleString (computed_delta m p) @ '' ('' @
          (if num_gt (computed_delta m p) (Finite 0) then ''+'' else []) @
          num_toFixed 1 (computed_percentage m p) @ ''%)'')"
  by (simp add: formatDiff_def Let_def computed_delta_def computed_percentage_def below_noise_def)

lemma formatDiff_examples:
  "formatDiff 1000 1050 = ''+50 (+5.0%)''"
  "formatDiff 100000 (100000 + 1 / 2) = []"
  "formatDiff 1234567 1000000 = ''-234,567 (-19.0%)''"
  "formatDiff 2000 2003 = ''+3 (+0.1%)''"
  "formatDiff 1000000000000029 1034500000000030 = ''+34,500,000,000,001 (+3.5%)''"
  unfolding formatDiff_computed below_noise_def computed_examples one_hundredth
  by (simp_all add: num_gt_def toLocaleString_examples toFixed_examples[unfolded One_nat_def])

lemma reading_eval:
  "is_digits ''3''" "is_digits ''4''" "is_digits ''5''" "is_digits ''0''" "is_digits ''19''"
  "read_nat ''3'' = 3" "read_nat ''4'' = 4" "read_nat ''5'' = 5" "read_nat ''0'' = 0"
  "read_nat ''19'' = 19"
  by (simp_all add: is_digits_def is_digit_def read_nat_def digit_val_def)

text \<open>
  Claim C3, as amended. \<open>formatDiff(0, 0)\<close> is empty; with a zero base and a positive
  candidate the result is \<open>+Inf%\<close>; with a positive base and a zero candidate it is
  \<open>-100%\<close>; equal values give the empty string; for nonzero values the result is empty
  when the computed percentage is below the double 0.01 in magnitude and the computed
  delta below 1 in magnitude. Otherwise, with a finite nonzero delta \<open>d\<close> and a finite
  percentage \<open>q\<close> below \<open>10^21\<close> in magnitude, both as computed in double precision,
  the result is the delta, a
  space and in parentheses the percentage with a percent sign, each after a plus sign
  when the delta is positive; the text of the percentage is \<open>q\<close> to one decimal place,
  and the text of an integer delta is that integer with its digits in groups of three.
  \<open>formatDiff(1000, 1050)\<close> is \<open>+50 (+5.0%)\<close>, and \<open>formatDiff(2000, 2003)\<close> is
  \<open>+3 (+0.1%)\<close>.
\<close>

theorem formatDiff_cases:
  "formatDiff 0 0 = '''' \<and>
   (0 < p \<longrightarrow> formatDiff 0 p = ''+Inf%'') \<and>
   (0 < m \<longrightarrow> formatDiff m 0 = ''-100%'') \<and>
   formatDiff m m = '''' \<and>
   (m \<noteq> 0 \<and> p \<noteq> 0 \<and> below_noise m p \<longrightarrow> formatDiff m p = '''') \<and>
   (m \<noteq> 0 \<and> p \<noteq> 0 \<and> \<not> below_noise m p \<and>
    computed_delta m p = Finite d \<and> d \<noteq> 0 \<and> computed_percentage m p = Finite q \<and>
    \<bar>q\<bar> < 10 ^ 21 \<longrightarrow>
      formatDiff m p =
        (if 0 < d then ''+'' else '''') @ toLocaleString d @ '' ('' @
        (if 0 < d then ''+'' else '''') @ toFixed 1 q @ ''%)'' \<and>
      one_decimal_place q (toFixed 1 q) \<and>
      (\<forall>k. d = real_of_int k \<longrightarrow> grouped_integer k (toLocaleString d))) \<and>
   formatDiff 1000 1050 = ''+50 (+5.0%)'' \<and>
   formatDiff 2000 2003 = ''+3 (+0.1%)''"
proof -
  have 1: "formatDiff 0 0 = ''''" by (simp add: formatDiff_computed)
  have 2: "0 < p \<longrightarrow> formatDiff 0 p = ''+Inf%''" by (simp add: formatDiff_computed)
  have 3: "0 < m \<longrightarrow> formatDiff m 0 = ''-100%''" by (simp add: formatDiff_computed)
  have 4: "formatDiff m m = ''''"
    by (simp add: formatDiff_computed computed_delta_def to_double_small)
  have 5: "m \<noteq> 0 \<and> p \<noteq> 0 \<and> below_noise m p \<longrightarrow> formatDiff m p = ''''"
    by (simp add: formatDiff_computed)
  have 6: "m \<noteq> 0 \<and> p \<noteq> 0 \<and> \<not> below_noise m p \<and>
    computed_delta m p = Finite d \<and> d \<noteq> 0 \<and> computed_percentage m p = Finite q \<and>
    \<bar>q\<bar> < 10 ^ 21 \<longrightarrow>
      formatDiff m p =
        (if 0 < d then ''+'' else '''') @ toLocaleString d @ '' ('' @
        (if 0 < d then ''+'' else '''') @ toFixed 1 q @ ''%)'' \<and>
      one_decimal_place q (toFixed 1 q) \<and>
      (\<forall>k. d = real_of_int k \<longrightarrow> grouped_integer k (toLocaleString d))"
  proof (intro impI conjI allI)
    assume a: "m \<noteq> 0 \<and> p \<noteq> 0 \<and> \<not> below_noise m p \<and>
      computed_delta m p = Finite d \<and> d \<noteq> 0 \<and> computed_percentage m p = Finite q \<and>
      \<bar>q\<bar> < 10 ^ 21"
    then show "formatDiff m p =
        (if 0 < d then ''+'' else '''') @ toLocaleString d @ '' ('' @
        (if 0 < d then ''+'' else '''') @ toFixed 1 q @ ''%)''"
      by (simp add: formatDiff_computed num_gt_def)
    show "one_decimal_place q (toFixed 1 q)" by (rule toFixed_one_decimal_place)
  next
    fix k
    assume "d = real_of_int k"
    then show "grouped_integer k (toLocaleString d)"
      by (simp only: toLocaleString_grouped_integer)
  qed
  from 1 2 3 4 5 6 formatDiff_examples(1,4) show ?thesis by blast
qed

text \<open>
  The cases at concrete values: an infinite increase, a full decrease, no change, a
  change of half a unit in a hundred thousand (suppressed), and a decrease with a
  grouped delta.
\<close>

theorem formatDiff_cases_witness:
  "formatDiff 0 5 = ''+Inf%'' \<and> formatDiff 5 0 = ''-100%'' \<and> formatDiff 100 100 = '''' \<and>
   below_noise 100000 (100000 + 1 / 2) \<and> formatDiff 100000 (100000 + 1 / 2) = '''' \<and>
   \<not> below_noise 1234567 1000000 \<and>
   computed_delta 1234567 1000000 = Finite (- 234567) \<and>
   computed_percentage 1234567 1000000 = Finite (- (5348007913874941 / 281474976710656)) \<and>
   formatDiff 1234567 1000000 = ''-234,567 (-19.0%)'' \<and>
   one_decimal_place (- (5348007913874941 / 281474976710656)) ''-19.0'' \<and>
   grouped_integer (- 234567) ''-234,567''"
proof -
  have n: "below_noise 100000 (100000 + 1 / 2)" "\<not> below_noise 1234567 1000000"
    unfolding below_noise_def computed_examples one_hundredth by simp_all
  from formatDiff_cases[where m = 5 and p = 5]
  have a: "formatDiff 0 5 = ''+Inf%''" "formatDiff 5 0 = ''-100%''" by simp_all
  from formatDiff_cases[where m = 100 and p = 100]
  have b: "formatDiff 100 100 = ''''" by simp
  from formatDiff_cases[where m = 100000 and p = "100000 + 1 / 2"] n(1)
  have c: "formatDiff 100000 (100000 + 1 / 2) = ''''" by simp
  from formatDiff_cases[where m = 1234567 and p = 1000000 and d = "- 234567"
      and q = "- (5348007913874941 / 281474976710656)"] n(2) computed_examples(5,6)
  have d: "formatDiff 1234567 1000000 =
      toLocaleString (- 234567) @ '' ('' @
        toFixed 1 (- (5348007913874941 / 281474976710656)) @ ''%)''"
    "one_decimal_place (- (5348007913874941 / 281474976710656))
       (toFixed 1 (- (5348007913874941 / 281474976710656)))"
    "\<forall>k. - 234567 = real_of_int k \<longrightarrow> grouped_integer k (toLocaleString (- 234567))"
    by simp_all
  from d(3)[THEN spec, of "- 234567"] have g: "grouped_integer (- 234567) ''-234,567''"
    by (simp add: toLocaleString_examples)
  from a b c d(1,2) g n computed_examples(5,6) show ?thesis
    by (simp add: toLocaleString_examples toFixed_examples[unfolded One_nat_def])
qed

text \<open>
  Claim C3 as it was stated prints the percentage \<open>((pr - main) / main) * 100\<close> to one
  decimal place. With gates going from 1000000000000029 to 1034500000000030, two
  integers that are doubles, that percentage is below 3.45 and 3.4 is its one decimal
  place, but the computed percentage is the double above 3.45 and the text is \<open>3.5\<close>,
  which is farther than one twentieth from the exact percentage. From 2000 to 2003 the
  exact percentage is 0.15, which \<open>toFixed\<close> itself prints as \<open>0.2\<close>; the computed one
  is the double below it, and the text is \<open>0.1\<close>.
\<close>

theorem printed_percentage_is_not_the_exact_one:
  "to_double 1000000000000029 = Finite 1000000000000029 \<and>
   to_double 1034500000000030 = Finite 1034500000000030 \<and>
   formatDiff 1000000000000029 1034500000000030 = ''+34,500,000,000,001 (+3.5%)'' \<and>
   \<not> one_decimal_place (exact_percentage 1000000000000029 1034500000000030) ''3.5'' \<and>
   one_decimal_place (exact_percentage 1000000000000029 1034500000000030) ''3.4'' \<and>
   formatDiff 2000 2003 = ''+3 (+0.1%)'' \<and>
   exact_percentage 2000 2003 = 3 / 20 \<and> toFixed 1 (3 / 20) = ''0.2''"
proof -
  have d: "to_double 1000000000000029 = Finite 1000000000000029"
    "to_double 1034500000000030 = Finite 1034500000000030"
    by (simp_all add: double_eval)
  have e: "exact_percentage 1000000000000029 1034500000000030 =
      3450000000000100 / 1000000000000029"
    "exact_percentage 2000 2003 = 3 / 20"
    by (simp_all add: exact_percentage_def)
  have o: "\<not> one_decimal_place (3450000000000100 / 1000000000000029) ''3.5''"
    "one_decimal_place (3450000000000100 / 1000000000000029) ''3.4''"
    by (simp_all add: one_decimal_place_def without_sign_def Let_def reading_eval)
  from d e o formatDiff_examples(4,5) toFixed_examples(4) show ?thesis
    by (simp only: simp_thms)
qed

section \<open>The metric extractor\<close>

lemma get_prop_total: "\<not> nullish v \<Longrightarrow> \<exists>w. get_prop v k = Inr w"
  by (cases v) (simp_all add: nullish_def)

lemma opt_get_total: "\<exists>w. opt_get v k = Inr w"
  using get_prop_total[of v k] by (auto simp: opt_get_def)

lemma opt_get_nullish: "nullish v \<Longrightarrow> opt_get v k = Inr JUndefined"
  by (simp add: opt_get_def)

lemma opt_get_get_prop: "get_prop v k = Inr w \<Longrightarrow> opt_get v k = Inr w"
  by (cases v) (auto simp: opt_get_def nullish_def)

text \<open>
  Claim C9. Metric extraction never raises: for every value in the place of a result
  record the three extractions return. For an absent record (\<open>undefined\<close> or \<open>null\<close>)
  all three are 0, and a \<open>gas\<close> object, a \<open>gasLimits\<close> object or a scalar that is
  missing or \<open>null\<close> resolves to 0; a scalar that is present is returned as it is.
\<close>

theorem metric_extraction_total:
  "(\<exists>g d l. getTotalGateCount r = Inr g \<and> getDaGas r = Inr d \<and> getL2Gas r = Inr l) \<and>
   (nullish r \<longrightarrow>
      getTotalGateCount r = Inr (JNum 0) \<and> getDaGas r = Inr (JNum 0) \<and>
      getL2Gas r = Inr (JNum 0)) \<and>
   (get_prop r ''totalGateCount'' = Inr c \<longrightarrow>
      getTotalGateCount r = Inr (if nullish c then JNum 0 else c)) \<and>
   (get_prop r ''gas'' = Inr gas \<and> nullish gas \<longrightarrow>
      getDaGas r = Inr (JNum 0) \<and> getL2Gas r = Inr (JNum 0)) \<and>
   (get_prop r ''gas'' = Inr gas \<and> get_prop gas ''gasLimits'' = Inr limits \<and> nullish limits \<longrightarrow>
      getDaGas r = Inr (JNum 0) \<and> getL2Gas r = Inr (JNum 0)) \<and>
   (get_prop r ''gas'' = Inr gas \<and> get_prop gas ''gasLimits'' = Inr limits \<and>
    get_prop limits ''daGas'' = Inr da \<longrightarrow>
      getDaGas r = Inr (if nullish da then JNum 0 else da)) \<and>
   (get_prop r ''gas'' = Inr gas \<and> get_prop gas ''gasLimits'' = Inr limits \<and>
    get_prop limits ''l2Gas'' = Inr l2 \<longrightarrow>
      getL2Gas r = Inr (if nullish l2 then JNum 0 else l2))"
proof -
  obtain a where a: "opt_get r ''totalGateCount'' = Inr a" using opt_get_total by blast
  obtain g where g: "opt_get r ''gas'' = Inr g" using opt_get_total by blast
  obtain gl where gl: "opt_get g ''gasLimits'' = Inr gl" using opt_get_total by blast
  obtain d where d: "opt_get gl ''daGas'' = Inr d" using opt_get_total by blast
  obtain l where l: "opt_get gl ''l2Gas'' = Inr l" using opt_get_total by blast
  have total: "\<exists>g d l. getTotalGateCount r = Inr g \<and> getDaGas r = Inr d \<and> getL2Gas r = Inr l"
    by (simp add: getTotalGateCount_def getDaGas_def getL2Gas_def a g gl d l)
  have absent: "nullish r \<longrightarrow>
      getTotalGateCount r = Inr (JNum 0) \<and> getDaGas r = Inr (JNum 0) \<and>
      getL2Gas r = Inr (JNum 0)"
    by (simp add: getTotalGateCount_def getDaGas_def getL2Gas_def opt_get_nullish
        coalesce_def nullish_def)
  have count: "get_prop r ''totalGateCount'' = Inr c \<longrightarrow>
      getTotalGateCount r = Inr (if nullish c then JNum 0 else c)"
    by (simp add: getTotalGateCount_def opt_get_get_prop coalesce_def)
  have nogas: "get_prop r ''gas'' = Inr gas \<and> nullish gas \<longrightarrow>
      getDaGas r = Inr (JNum 0) \<and> getL2Gas r = Inr (JNum 0)"
    by (simp add: getDaGas_def getL2Gas_def opt_get_get_prop opt_get_nullish coalesce_def
        nullish_def)
  have nolimits: "get_prop r ''gas'' = Inr gas \<and> get_prop gas ''gasLimits'' = Inr limits \<and>
      nullish limits \<longrightarrow> getDaGas r = Inr (JNum 0) \<and> getL2Gas r = Inr (JNum 0)"
    by (simp add: getDaGas_def getL2Gas_def opt_get_get_prop opt_get_nullish coalesce_def
        nullish_def)
  have da: "get_prop r ''gas'' = Inr gas \<and> get_prop gas ''gasLimits'' = Inr limits \<and>
      get_prop limits ''daGas'' = Inr da \<longrightarrow>
      getDaGas r = Inr (if nullish da then JNum 0 else da)"
    by (simp add: getDaGas_def opt_get_get_prop coalesce_def)
  have l2: "get_prop r ''gas'' = Inr gas \<and> get_prop gas ''gasLimits'' = Inr limits \<and>
      get_prop limits ''l2Gas'' = Inr l2 \<longrightarrow>
      getL2Gas r = Inr (if nullish l2 then JNum 0 else l2)"
    by (simp add: getL2Gas_def opt_get_get_prop coalesce_def)
  from total absent count nogas nolimits da l2 show ?thesis by (intro conjI)
qed


text \<open>
  An absent record, a record with no \<open>gas\<close>, one with an empty \<open>gas\<close>, one whose
  \<open>gasLimits\<close> holds only \<open>l2Gas\<close>, and one with a \<open>null\<close> gate count.
\<close>

theorem metric_extraction_total_witness:
  "getTotalGateCount JUndefined = Inr (JNum 0) \<and> getDaGas JUndefined = Inr (JNum 0) \<and>
   getL2Gas JUndefined = Inr (JNum 0) \<and>
   getDaGas (JObj [(''name'', JStr ''f'')]) = Inr (JNum 0) \<and>
   getL2Gas (JObj [(''name'', JStr ''f'')]) = Inr (JNum 0) \<and>
   getTotalGateCount (JObj [(''name'', JStr ''f'')]) = Inr (JNum 0) \<and>
   getDaGas (JObj [(''gas'', JObj [])]) = Inr (JNum 0) \<and>
   getDaGas (JObj [(''gas'', JObj [(''gasLimits'', JObj [(''l2Gas'', JNum 7)])])]) =
     Inr (JNum 0) \<and>
   getL2Gas (JObj [(''gas'', JObj [(''gasLimits'', JObj [(''l2Gas'', JNum 7)])])]) =
     Inr (JNum 7) \<and>
   getTotalGateCount (JObj [(''totalGateCount'', JNull)]) = Inr (JNum 0)"
  using metric_extraction_total[where r = JUndefined]
    metric_extraction_total[where r = "JObj [(''name'', JStr ''f'')]" and gas = JUndefined
      and c = JUndefined]
    metric_extraction_total[where r = "JObj [(''gas'', JObj [])]" and gas = "JObj []"
      and limits = JUndefined]
    metric_extraction_total[where r = "JObj [(''gas'', JObj [(''gasLimits'', JObj [(''l2Gas'', JNum 7)])])]"
      and gas = "JObj [(''gasLimits'', JObj [(''l2Gas'', JNum 7)])]"
      and limits = "JObj [(''l2Gas'', JNum 7)]" and da = JUndefined and ?l2.0 = "JNum 7"]
    metric_extraction_total[where r = "JObj [(''totalGateCount'', JNull)]" and c = JNull]
  by (simp add: nullish_def)


section \<open>Sorting with a comparison function\<close>

lemma set_insort_by: "set (insort_by cmp x xs) = insert x (set xs)"
  by (induction xs) auto

lemma sort_by_Cons: "sort_by cmp (x # xs) = insort_by cmp x (sort_by cmp xs)"
  by (simp add: sort_by_def)

lemma sort_by_Nil: "sort_by cmp [] = []"
  by (simp add: sort_by_def)

lemma set_sort_by: "set (sort_by cmp xs) = set xs"
  by (induction xs) (simp_all add: sort_by_Nil sort_by_Cons set_insort_by)

lemma distinct_insort_by: "distinct (insort_by cmp x xs) = (x \<notin> set xs \<and> distinct xs)"
  by (induction xs) (auto simp: set_insort_by)

lemma distinct_sort_by: "distinct (sort_by cmp xs) = distinct xs"
  by (induction xs) (simp_all add: sort_by_Nil sort_by_Cons distinct_insort_by set_sort_by)

lemma length_sort_by: "length (sort_by cmp xs) = length xs"
proof (induction xs)
  case Nil
  show ?case by (simp add: sort_by_Nil)
next
  case (Cons x xs)
  have "length (insort_by cmp x ys) = Suc (length ys)" for ys
    by (induction ys) auto
  with Cons show ?case by (simp add: sort_by_Cons)
qed

lemma total_preorder_on_total:
  "total_preorder_on cmp S \<Longrightarrow> a \<in> S \<Longrightarrow> b \<in> S \<Longrightarrow> cmp a b \<le> 0 \<or> cmp b a \<le> 0"
  unfolding total_preorder_on_def by blast

lemma total_preorder_on_trans:
  "total_preorder_on cmp S \<Longrightarrow> a \<in> S \<Longrightarrow> b \<in> S \<Longrightarrow> c \<in> S \<Longrightarrow>
    cmp a b \<le> 0 \<Longrightarrow> cmp b c \<le> 0 \<Longrightarrow> cmp a c \<le> 0"
  unfolding total_preorder_on_def by blast

lemma total_preorder_on_subset:
  assumes "total_preorder_on cmp S" "S' \<subseteq> S"
  shows "total_preorder_on cmp S'"
  unfolding total_preorder_on_def
proof (intro conjI ballI impI)
  fix a b assume "a \<in> S'" "b \<in> S'"
  with assms(2) have "a \<in> S" "b \<in> S" by auto
  then show "cmp a b \<le> 0 \<or> cmp b a \<le> 0" by (rule total_preorder_on_total[OF assms(1)])
next
  fix a b c assume "a \<in> S'" "b \<in> S'" "c \<in> S'" and *: "cmp a b \<le> 0 \<and> cmp b c \<le> 0"
  with assms(2) have "a \<in> S" "b \<in> S" "c \<in> S" by auto
  with * show "cmp a c \<le> 0" using total_preorder_on_trans[OF assms(1), of a b c] by blast
qed

lemma sorted_insort_by:
  assumes "total_preorder_on cmp (insert x (set xs))"
    and "sorted_wrt (\<lambda>a b. cmp a b \<le> 0) xs"
  shows "sorted_wrt (\<lambda>a b. cmp a b \<le> 0) (insort_by cmp x xs)"
  using assms
proof (induction xs)
  case Nil
  then show ?case by simp
next
  case (Cons y ys)
  let ?S = "insert x (set (y # ys))"
  note tp = Cons.prems(1)
  have sub: "total_preorder_on cmp (insert x (set ys))"
    by (rule total_preorder_on_subset[OF tp]) auto
  from Cons.prems(2) have sorted_ys: "sorted_wrt (\<lambda>a b. cmp a b \<le> 0) ys"
    and y_le: "\<And>z. z \<in> set ys \<Longrightarrow> cmp y z \<le> 0"
    by simp_all
  show ?case
  proof (cases "cmp x y \<le> 0")
    case True
    have "cmp x z \<le> 0" if "z \<in> set ys" for z
      by (rule total_preorder_on_trans[OF tp _ _ _ True y_le[OF that]]) (use that in simp_all)
    with True Cons.prems(2) show ?thesis by simp
  next
    case False
    have "cmp x y \<le> 0 \<or> cmp y x \<le> 0"
      by (rule total_preorder_on_total[OF tp]) simp_all
    with False have yx: "cmp y x \<le> 0" by simp
    have "\<forall>z \<in> set (insort_by cmp x ys). cmp y z \<le> 0"
      using yx y_le by (simp add: set_insort_by)
    with Cons.IH[OF sub sorted_ys] False show ?thesis by simp
  qed
qed

lemma sorted_sort_by:
  assumes "total_preorder_on cmp (set xs)"
  shows "sorted_wrt (\<lambda>a b. cmp a b \<le> 0) (sort_by cmp xs)"
  using assms
proof (induction xs)
  case Nil
  then show ?case by (simp add: sort_by_Nil)
next
  case (Cons x xs)
  have sub: "total_preorder_on cmp (set xs)"
    by (rule total_preorder_on_subset[OF Cons.prems]) auto
  have "total_preorder_on cmp (insert x (set (sort_by cmp xs)))"
    using Cons.prems by (simp add: set_sort_by)
  from sorted_insort_by[OF this Cons.IH[OF sub]] show ?case
    by (simp add: sort_by_Cons)
qed

lemma sorted_wrt_unique:
  assumes "sorted_wrt R xs" "sorted_wrt R ys" "distinct xs" "distinct ys" "set xs = set ys"
    and "\<And>a b. a \<in> set xs \<Longrightarrow> b \<in> set xs \<Longrightarrow> R a b \<Longrightarrow> R b a \<Longrightarrow> a = b"
  shows "xs = ys"
  using assms
proof (induction xs arbitrary: ys)
  case Nil
  then show ?case by simp
next
  case (Cons x xs)
  from Cons.prems(5) obtain y ys' where ys: "ys = y # ys'" by (cases ys) auto
  have xy: "x = y"
  proof (rule ccontr)
    assume ne: "x \<noteq> y"
    with Cons.prems(5) ys have mem: "x \<in> set ys'" "y \<in> set xs" by auto
    with Cons.prems(1,2) ys have r: "R x y" "R y x" by auto
    have "x \<in> set (x # xs)" "y \<in> set (x # xs)" using mem by simp_all
    from Cons.prems(6)[OF this r] ne show False by simp
  qed
  from Cons.prems(3,4,5) ys xy have sets: "set xs = set ys'" by auto
  have "xs = ys'"
  proof (rule Cons.IH)
    show "sorted_wrt R xs" using Cons.prems(1) by simp
    show "sorted_wrt R ys'" using Cons.prems(2) ys by simp
    show "distinct xs" using Cons.prems(3) by simp
    show "distinct ys'" using Cons.prems(4) ys by simp
    show "set xs = set ys'" by (rule sets)
    show "a = b" if "a \<in> set xs" "b \<in> set xs" "R a b" "R b a" for a b
      using Cons.prems(6)[of a b] that by simp
  qed
  with xy ys show ?case by simp
qed

lemma sort_by_permutation:
  assumes "total_preorder_on cmp (set xs)" "separates cmp (set xs)"
    and "distinct xs" "distinct ys" "set xs = set ys"
  shows "sort_by cmp xs = sort_by cmp ys"
proof (rule sorted_wrt_unique[where R = "\<lambda>a b. cmp a b \<le> 0"])
  show "sorted_wrt (\<lambda>a b. cmp a b \<le> 0) (sort_by cmp xs)"
    by (rule sorted_sort_by[OF assms(1)])
  show "sorted_wrt (\<lambda>a b. cmp a b \<le> 0) (sort_by cmp ys)"
    by (rule sorted_sort_by) (use assms(1,5) in simp)
  show "distinct (sort_by cmp xs)" "distinct (sort_by cmp ys)"
    using assms(3,4) by (simp_all add: distinct_sort_by)
  show "set (sort_by cmp xs) = set (sort_by cmp ys)"
    using assms(5) by (simp add: set_sort_by)
  show "a = b" if "a \<in> set (sort_by cmp xs)" "b \<in> set (sort_by cmp xs)"
    "cmp a b \<le> 0" "cmp b a \<le> 0" for a b
    using that assms(2) unfolding separates_def set_sort_by by blast
qed

section \<open>The comparison of two reports\<close>

lemma try_bind_Inr_iff:
  "try_bind x f = Inr y \<longleftrightarrow> (\<exists>v. x = Inr v \<and> f v = Inr y)"
  by (cases x) auto

lemma compare_names_keys:
  assumes "compare_names ms ps names = Inr comparison"
  shows "\<forall>n \<in> set (map fst comparison). JStr n \<in> set names \<and> \<not> excluded_name n"
  using assms
proof (induction names arbitrary: comparison)
  case Nil
  then show ?case by simp
next
  case (Cons name names)
  show ?case
  proof (cases "falsy name")
    case True
    with Cons show ?thesis by auto
  next
    case False
    show ?thesis
    proof (cases name)
      case (JStr n)
      with False have ne: "n \<noteq> []" by simp
      show ?thesis
      proof (cases "startsWith n ''unknown_function'' \<or> str_includes n ''(FAILED)'' \<or>
               n = ''BENCHMARK_RUNNER_ERROR''")
        case True
        with Cons JStr False show ?thesis by auto
      next
        case keep: False
        with Cons.prems JStr False obtain metrics rest where
          rest: "compare_names ms ps names = Inr rest" and c: "comparison = (n, metrics) # rest"
          by (auto simp: try_bind_Inr_iff)
        from keep ne have "\<not> excluded_name n" by (simp add: excluded_name_def)
        with Cons.IH[OF rest] c JStr show ?thesis by auto
      qed
    qed (use Cons.prems False in auto)
  qed
qed

lemma compare_names_distinct:
  assumes "compare_names ms ps names = Inr comparison" "distinct names"
  shows "distinct (map fst comparison)"
  using assms
proof (induction names arbitrary: comparison)
  case Nil
  then show ?case by simp
next
  case (Cons name names)
  show ?case
  proof (cases "falsy name")
    case True
    with Cons show ?thesis by auto
  next
    case False
    show ?thesis
    proof (cases name)
      case (JStr n)
      show ?thesis
      proof (cases "startsWith n ''unknown_function'' \<or> str_includes n ''(FAILED)'' \<or>
               n = ''BENCHMARK_RUNNER_ERROR''")
        case True
        with Cons JStr False show ?thesis by auto
      next
        case keep: False
        with Cons.prems JStr False obtain metrics rest where
          rest: "compare_names ms ps names = Inr rest" and c: "comparison = (n, metrics) # rest"
          by (auto simp: try_bind_Inr_iff)
        from compare_names_keys[OF rest] Cons.prems(2) JStr have "n \<notin> set (map fst rest)"
          by auto
        with Cons.IH[OF rest] Cons.prems(2) c show ?thesis by auto
      qed
    qed (use Cons.prems False in auto)
  qed
qed

lemma distinct_dedupe: "distinct (dedupe xs)"
  by (induction xs) auto

lemma set_dedupe: "set (dedupe xs) = set xs"
  by (induction xs) auto

lemma set_sorted_keys: "set (sorted_keys c) = set (map fst c) - {''__proto__''}"
  by (auto simp: sorted_keys_def set_sort_by)

lemma compare_code_units_le: "compare_code_units x y \<le> 0 \<longleftrightarrow> code_units x \<le> code_units y"
  by (auto simp: compare_code_units_def)

lemma compare_code_units_preorder: "total_preorder_on compare_code_units S"
  unfolding total_preorder_on_def compare_code_units_le by auto

lemma sorted_sorted_keys: "sorted (map code_units (sorted_keys c))"
proof -
  have "sorted_wrt (\<lambda>a b. compare_code_units a b \<le> 0) (sorted_keys c)"
    unfolding sorted_keys_def by (rule sorted_sort_by) (rule compare_code_units_preorder)
  then show ?thesis unfolding compare_code_units_le by (simp add: sorted_map)
qed

lemma distinct_sorted_keys: "distinct (map fst c) \<Longrightarrow> distinct (sorted_keys c)"
  by (simp add: sorted_keys_def distinct_sort_by)

lemma render_rows_rows_of:
  assumes "render_rows comparison T names = Inr lines"
    and "set names \<subseteq> set (map fst comparison)"
  shows "lines = concat (map (\<lambda>(n, m). table_row n m T) (rows_of comparison names)) \<and>
    map fst (rows_of comparison names) = names"
  using assms
proof (induction names arbitrary: lines)
  case Nil
  then show ?case by (simp add: rows_of_def)
next
  case (Cons n names)
  from Cons.prems(2) obtain v where v: "map_of comparison n = Some v"
    by (cases "map_of comparison n") (auto simp: map_of_eq_None_iff)
  with Cons.prems(1) obtain m where m: "v = Some m" by (cases v) auto
  with v Cons.prems(1) obtain rest where rest: "render_rows comparison T names = Inr rest"
    and l: "lines = table_row n m T @ rest"
    by (auto simp: try_bind_Inr_iff)
  from Cons.IH[OF rest] Cons.prems(2) l v m show ?case
    by (simp add: rows_of_def)
qed

lemma build_comparison_keys:
  assumes "build_comparison a b = Inr comparison"
  shows "distinct (map fst comparison) \<and> (\<forall>n \<in> set (map fst comparison). \<not> excluded_name n)"
proof -
  from assms obtain ms ps names where
    c: "compare_names ms ps (dedupe names) = Inr comparison"
    by (auto simp: build_comparison_def try_bind_Inr_iff Let_def)
  from compare_names_distinct[OF c distinct_dedupe] compare_names_keys[OF c]
  show ?thesis by blast
qed

lemma compare_reports_table:
  assumes "compare_reports c a b T = Inr out"
  shows "out = ''*Skipping '' @ c @ '': Invalid JSON structure (missing results array).*'' \<or>
    (\<exists>comparison. build_comparison a b = Inr comparison \<and>
       (if sorted_keys comparison = [] then out = ''*No comparable functions found between reports.*''
        else out = render_table (rows_of comparison (sorted_keys comparison)) T \<and>
             map fst (rows_of comparison (sorted_keys comparison)) = sorted_keys comparison))"
proof (cases "out = ''*Skipping '' @ c @ '': Invalid JSON structure (missing results array).*''")
  case True
  then show ?thesis by simp
next
  case False
  with assms obtain comparison where bc: "build_comparison a b = Inr comparison"
    and r: "(let sortedNames = sorted_keys comparison in
      if sortedNames = [] then Inr ''*No comparable functions found between reports.*''
      else
        try_bind (render_rows comparison T sortedNames) (\<lambda>rows.
        Inr (join (table_head @ rows @ [''</tbody>'', ''</table>'']) newline))) = Inr out"
    by (auto simp: compare_reports_def try_bind_Inr_iff split: if_splits)
  show ?thesis
  proof (cases "sorted_keys comparison = []")
    case True
    with r bc show ?thesis by auto
  next
    case ne: False
    with r obtain lines where rr: "render_rows comparison T (sorted_keys comparison) = Inr lines"
      and o: "out = join (table_head @ lines @ [''</tbody>'', ''</table>'']) newline"
      by (auto simp: try_bind_Inr_iff Let_def)
    have "set (sorted_keys comparison) \<subseteq> set (map fst comparison)"
      by (auto simp: set_sorted_keys)
    from render_rows_rows_of[OF rr this] o ne bc show ?thesis
      by (auto simp: render_table_def)
  qed
qed

section \<open>Pair discovery as a filter over the listing\<close>


lemma findBenchmarkPairs_loop_filter:
  "findBenchmarkPairs_loop h dir bpat ppat files =
    map (pair_of_file h dir bpat ppat)
      (filter (\<lambda>file. endsWith file ppat \<and>
         existsSync h (path_join h dir (take (length file - length ppat) file @ bpat))) files)"
proof (induction files)
  case Nil
  show ?case by simp
next
  case (Cons f fs)
  show ?case
  proof (cases "endsWith f ppat")
    case False
    with Cons show ?thesis by simp
  next
    case True
    show ?thesis
    proof (cases "existsSync h (path_join h dir (take (length f - length ppat) f @ bpat))")
      case False
      with True Cons show ?thesis by (simp add: Let_def)
    next
      case ex: True
      with True Cons show ?thesis by (simp add: Let_def pair_of_file_def)
    qed
  qed
qed

lemma endsWith_take: "endsWith file ppat \<Longrightarrow> take (length file - length ppat) file @ ppat = file"
  unfolding endsWith_def by (metis append_take_drop_id)

lemma contractName_inj:
  assumes "endsWith f ppat" "endsWith g ppat"
    and "contractName (pair_of_file h dir bpat ppat f) = contractName (pair_of_file h dir bpat ppat g)"
  shows "f = g"
proof -
  from assms(3) have "take (length f - length ppat) f = take (length g - length ppat) g"
    by (simp add: pair_of_file_def)
  then have "take (length f - length ppat) f @ ppat = take (length g - length ppat) g @ ppat"
    by (rule arg_cong)
  then show ?thesis
    by (simp only: endsWith_take[OF assms(1)] endsWith_take[OF assms(2)])
qed

lemma findBenchmarkPairs_loop_distinct:
  assumes "distinct files"
  shows "distinct (map contractName (findBenchmarkPairs_loop h dir bpat ppat files))"
proof -
  let ?ok = "\<lambda>file. endsWith file ppat \<and>
         existsSync h (path_join h dir (take (length file - length ppat) file @ bpat))"
  have "inj_on (\<lambda>f. contractName (pair_of_file h dir bpat ppat f)) (set (filter ?ok files))"
    by (rule inj_onI) (auto intro: contractName_inj)
  with assms show ?thesis
    by (simp add: findBenchmarkPairs_loop_filter distinct_map comp_def)
qed

lemma findBenchmarkPairs_loop_set:
  assumes "set files = set files'"
  shows "set (findBenchmarkPairs_loop h dir bpat ppat files) =
     set (findBenchmarkPairs_loop h dir bpat ppat files')"
  using assms by (simp add: findBenchmarkPairs_loop_filter)

section \<open>Reports of the expected shape\<close>

lemma is_number_Inr: "is_number x \<Longrightarrow> \<exists>v. x = Inr (JNum v)"
  by (erule is_number.elims) simp_all

lemma string_or_falsy_Inr:
  "string_or_falsy x \<Longrightarrow> \<exists>n. x = Inr n \<and> (falsy n \<or> (\<exists>s. n = JStr s))"
  by (erule string_or_falsy.elims) auto

lemma map_try_Inr:
  assumes "\<And>x. x \<in> set xs \<Longrightarrow> \<exists>y. f x = Inr y \<and> P y"
  shows "\<exists>ys. map_try f xs = Inr ys \<and> (\<forall>y \<in> set ys. P y)"
  using assms
proof (induction xs)
  case Nil
  show ?case by simp
next
  case (Cons x xs)
  from Cons.prems[of x] obtain y where y: "f x = Inr y" "P y" by auto
  from Cons.IH Cons.prems obtain ys where ys: "map_try f xs = Inr ys" "\<forall>y \<in> set ys. P y"
    by auto
  from y ys show ?case by simp
qed

lemma result_names_ok:
  assumes "list_all well_formed_result rs"
  shows "\<exists>names. result_names (JArr rs) = Inr names \<and>
    (\<forall>n \<in> set names. falsy n \<or> (\<exists>s. n = JStr s))"
proof -
  have "\<exists>y. get_prop r ''name'' = Inr y \<and> (falsy y \<or> (\<exists>s. y = JStr s))" if "r \<in> set rs" for r
    using assms that string_or_falsy_Inr[of "get_prop r ''name''"]
    by (auto simp: list_all_iff well_formed_result_def)
  from map_try_Inr[of rs "\<lambda>r. get_prop r ''name''", OF this] show ?thesis
    by (simp add: result_names_def)
qed

lemma find_result_ok:
  assumes "list_all well_formed_result rs"
  shows "\<exists>r. find_result rs n = Inr r \<and> (r = JUndefined \<or> well_formed_result r)"
  using assms
proof (induction rs)
  case Nil
  show ?case by simp
next
  case (Cons r rs)
  then have wf: "well_formed_result r" and rest: "list_all well_formed_result rs" by simp_all
  from wf obtain v where v: "get_prop r ''name'' = Inr v"
    using string_or_falsy_Inr[of "get_prop r ''name''"] by (auto simp: well_formed_result_def)
  show ?case
  proof (cases "v = JStr n")
    case True
    with v wf show ?thesis by simp
  next
    case False
    with v Cons.IH[OF rest] show ?thesis by simp
  qed
qed

lemma extract_absent:
  "getTotalGateCount JUndefined = Inr (JNum 0)" "getDaGas JUndefined = Inr (JNum 0)"
  "getL2Gas JUndefined = Inr (JNum 0)"
  by (simp_all add: getTotalGateCount_def getDaGas_def getL2Gas_def opt_get_def nullish_def
      coalesce_def)

lemma extract_numbers:
  assumes "r = JUndefined \<or> well_formed_result r"
  shows "\<exists>g d l. getTotalGateCount r = Inr (JNum g) \<and> getDaGas r = Inr (JNum d) \<and>
    getL2Gas r = Inr (JNum l)"
  using assms
proof
  assume "r = JUndefined"
  then show ?thesis by (simp add: extract_absent)
next
  assume "well_formed_result r"
  then show ?thesis
    using is_number_Inr[of "getTotalGateCount r"] is_number_Inr[of "getDaGas r"]
      is_number_Inr[of "getL2Gas r"]
    by (auto simp: well_formed_result_def)
qed

lemma build_metrics_ok:
  assumes "r1 = JUndefined \<or> well_formed_result r1" "r2 = JUndefined \<or> well_formed_result r2"
  shows "\<exists>m. build_metrics r1 r2 = Inr (Some m)"
proof -
  from extract_numbers[OF assms(1)] obtain g1 d1 l1 where
    1: "getTotalGateCount r1 = Inr (JNum g1)" "getDaGas r1 = Inr (JNum d1)"
       "getL2Gas r1 = Inr (JNum l1)" by blast
  from extract_numbers[OF assms(2)] obtain g2 d2 l2 where
    2: "getTotalGateCount r2 = Inr (JNum g2)" "getDaGas r2 = Inr (JNum d2)"
       "getL2Gas r2 = Inr (JNum l2)" by blast
  show ?thesis
    by (simp add: build_metrics_def 1 2 metric_pair_def number_of_def)
qed

lemma compare_names_ok:
  assumes "list_all well_formed_result ms" "list_all well_formed_result ps"
    and "\<forall>n \<in> set names. falsy n \<or> (\<exists>s. n = JStr s)"
  shows "\<exists>c. compare_names ms ps names = Inr c \<and> (\<forall>e \<in> set c. snd e \<noteq> None)"
  using assms(3)
proof (induction names)
  case Nil
  show ?case by simp
next
  case (Cons name names)
  then obtain c where c: "compare_names ms ps names = Inr c" "\<forall>e \<in> set c. snd e \<noteq> None"
    by auto
  show ?case
  proof (cases "falsy name")
    case True
    with c show ?thesis by simp
  next
    case False
    with Cons.prems obtain n where n: "name = JStr n" by auto
    show ?thesis
    proof (cases "startsWith n ''unknown_function'' \<or> str_includes n ''(FAILED)'' \<or>
               n = ''BENCHMARK_RUNNER_ERROR''")
      case True
      with c n False show ?thesis by simp
    next
      case keep: False
      from find_result_ok[OF assms(1), of n] obtain r1 where
        r1: "find_result ms n = Inr r1" "r1 = JUndefined \<or> well_formed_result r1" by blast
      from find_result_ok[OF assms(2), of n] obtain r2 where
        r2: "find_result ps n = Inr r2" "r2 = JUndefined \<or> well_formed_result r2" by blast
      from build_metrics_ok[OF r1(2) r2(2)] obtain m where
        m: "build_metrics r1 r2 = Inr (Some m)" by blast
      from keep False n r1(1) r2(1) m c show ?thesis by simp
    qed
  qed
qed

lemma render_rows_ok:
  assumes "\<forall>e \<in> set c. snd e \<noteq> None"
  shows "\<exists>lines. render_rows c T names = Inr lines"
proof (induction names)
  case Nil
  show ?case by simp
next
  case (Cons n names)
  then obtain lines where l: "render_rows c T names = Inr lines" by blast
  show ?case
  proof (cases "map_of c n")
    case None
    with l show ?thesis by simp
  next
    case (Some mo)
    then have "(n, mo) \<in> set c" by (rule map_of_SomeD)
    with assms obtain m where "mo = Some m" by (cases mo) auto
    with Some l show ?thesis by simp
  qed
qed

lemma lacks_results_eq: "lacks_results d = Inr (results_missing d)"
  by (cases d) (simp_all add: lacks_results_def results_missing_def)

lemma compare_reports_missing:
  assumes "results_missing a \<or> results_missing b"
  shows "compare_reports c a b T =
    Inr (''*Skipping '' @ c @ '': Invalid JSON structure (missing results array).*'')"
  using assms by (auto simp: compare_reports_def lacks_results_eq)

lemma well_formed_report_results:
  assumes "well_formed_report d"
  shows "\<exists>rs. get_prop d ''results'' = Inr (JArr rs) \<and> list_all well_formed_result rs \<and>
    \<not> results_missing d"
proof -
  from assms obtain rs where rs: "get_prop d ''results'' = Inr (JArr rs)"
    "list_all well_formed_result rs"
    by (auto simp: well_formed_report_def split: sum.splits jsval.splits)
  then have "\<not> falsy d" by (cases d) auto
  with rs show ?thesis by (simp add: results_missing_def)
qed

lemma build_comparison_ok:
  assumes "well_formed_report a" "well_formed_report b"
  shows "\<exists>c. build_comparison a b = Inr c \<and> (\<forall>e \<in> set c. snd e \<noteq> None)"
proof -
  from well_formed_report_results[OF assms(1)] obtain ms where
    ms: "get_prop a ''results'' = Inr (JArr ms)" "list_all well_formed_result ms" by blast
  from well_formed_report_results[OF assms(2)] obtain ps where
    ps: "get_prop b ''results'' = Inr (JArr ps)" "list_all well_formed_result ps" by blast
  from result_names_ok[OF ms(2)] obtain mn where
    mn: "result_names (JArr ms) = Inr mn" "\<forall>n \<in> set mn. falsy n \<or> (\<exists>s. n = JStr s)" by blast
  from result_names_ok[OF ps(2)] obtain pn where
    pn: "result_names (JArr ps) = Inr pn" "\<forall>n \<in> set pn. falsy n \<or> (\<exists>s. n = JStr s)" by blast
  have "\<forall>n \<in> set (dedupe (mn @ pn)). falsy n \<or> (\<exists>s. n = JStr s)"
    using mn(2) pn(2) by (auto simp: set_dedupe)
  from compare_names_ok[OF ms(2) ps(2) this] show ?thesis
    by (simp add: build_comparison_def ms(1) ps(1) mn(1) pn(1) Let_def)
qed

lemma compare_reports_ok:
  assumes "well_formed_report a" "well_formed_report b"
  shows "\<exists>out. compare_reports c a b T = Inr out"
proof -
  from well_formed_report_results[OF assms(1)] well_formed_report_results[OF assms(2)]
  have nm: "\<not> results_missing a" "\<not> results_missing b" by blast+
  from build_comparison_ok[OF assms] obtain cmp where
    cmp: "build_comparison a b = Inr cmp" "\<forall>e \<in> set cmp. snd e \<noteq> None" by blast
  from render_rows_ok[OF cmp(2)] obtain lines where
    "render_rows cmp T (sorted_keys cmp) = Inr lines" by blast
  with cmp(1) nm show ?thesis
    by (simp add: compare_reports_def lacks_results_eq Let_def)
qed

lemma generate_safe:
  assumes "safe_pair h p"
  shows "\<exists>out. generateContractComparisonTable h p T = Inr out"
proof (cases "\<not> existsSync h (baseJsonPath p) \<or> \<not> existsSync h (prJsonPath p)")
  case True
  then show ?thesis by (auto simp: generateContractComparisonTable_def)
next
  case ex: False
  show ?thesis
  proof (cases "readJSON h (baseJsonPath p)")
    case (Inl e)
    with ex show ?thesis by (simp add: generateContractComparisonTable_def)
  next
    case a: (Inr a)
    show ?thesis
    proof (cases "readJSON h (prJsonPath p)")
      case (Inl e)
      with ex a show ?thesis by (simp add: generateContractComparisonTable_def)
    next
      case b: (Inr b)
      from assms ex a b have "results_missing a \<or> results_missing b \<or>
          (well_formed_report a \<and> well_formed_report b)"
        by (simp add: safe_pair_def)
      then have "\<exists>out. compare_reports (contractName p) a b T = Inr out"
        using compare_reports_missing[of a b "contractName p" T]
          compare_reports_ok[of a b "contractName p" T] by blast
      with ex a b show ?thesis by (simp add: generateContractComparisonTable_def)
    qed
  qed
qed

section \<open>The assembled document\<close>

lemma total_preorder_on_map:
  assumes "total_preorder_on cmp (f ` S)"
  shows "total_preorder_on (\<lambda>a b. cmp (f a) (f b)) S"
  unfolding total_preorder_on_def
proof (intro conjI ballI impI)
  fix a b assume "a \<in> S" "b \<in> S"
  then have "f a \<in> f ` S" "f b \<in> f ` S" by simp_all
  then show "cmp (f a) (f b) \<le> 0 \<or> cmp (f b) (f a) \<le> 0"
    by (rule total_preorder_on_total[OF assms])
next
  fix a b c assume "a \<in> S" "b \<in> S" "c \<in> S"
    and *: "cmp (f a) (f b) \<le> 0 \<and> cmp (f b) (f c) \<le> 0"
  then have "f a \<in> f ` S" "f b \<in> f ` S" "f c \<in> f ` S" by simp_all
  from total_preorder_on_trans[OF assms this] * show "cmp (f a) (f c) \<le> 0" by blast
qed

lemma separates_map:
  assumes "separates cmp (f ` S)" "inj_on f S"
  shows "separates (\<lambda>a b. cmp (f a) (f b)) S"
  unfolding separates_def
proof (intro ballI impI)
  fix a b assume ab: "a \<in> S" "b \<in> S"
    and *: "cmp (f a) (f b) \<le> 0 \<and> cmp (f b) (f a) \<le> 0"
  from ab have "f a \<in> f ` S" "f b \<in> f ` S" by simp_all
  with assms(1) * have "f a = f b" unfolding separates_def by blast
  with assms(2) ab show "a = b" by (simp add: inj_on_def)
qed

lemma findBenchmarkPairs_loop_host:
  assumes "existsSync h' = existsSync h" "path_join h' = path_join h"
  shows "findBenchmarkPairs_loop h' dir bpat ppat files =
    findBenchmarkPairs_loop h dir bpat ppat files"
  by (simp add: findBenchmarkPairs_loop_filter pair_of_file_def assms)

lemma generate_host:
  assumes "existsSync h' = existsSync h" "readJSON h' = readJSON h"
  shows "generateContractComparisonTable h' p T = generateContractComparisonTable h p T"
  unfolding generateContractComparisonTable_def assms by (rule refl)

lemma contract_sections_host:
  assumes "existsSync h' = existsSync h" "readJSON h' = readJSON h"
  shows "contract_sections h' T ps = contract_sections h T ps"
  by (induction ps) (simp_all add: generate_host[OF assms])

lemma contract_sections_structure:
  assumes "contract_sections h T ps = Inr secs"
  shows "\<exists>tables. list_all2 (\<lambda>p t. generateContractComparisonTable h p T = Inr t) ps tables \<and>
    secs = section_lines (zip (map contractName ps) tables)"
  using assms
proof (induction ps arbitrary: secs)
  case Nil
  then show ?case by (simp add: section_lines_def)
next
  case (Cons p ps)
  from Cons.prems obtain t rest where t: "generateContractComparisonTable h p T = Inr t"
    and rest: "contract_sections h T ps = Inr rest"
    and secs: "secs = [''## Contract: '' @ contractName p @ newline, t, newline] @ rest"
    by (auto simp: try_bind_Inr_iff)
  from Cons.IH[OF rest] obtain tables where
    tables: "list_all2 (\<lambda>p t. generateContractComparisonTable h p T = Inr t) ps tables"
      "rest = section_lines (zip (map contractName ps) tables)" by blast
  have "list_all2 (\<lambda>p t. generateContractComparisonTable h p T = Inr t) (p # ps) (t # tables)"
    using t tables(1) by simp
  moreover have "secs = section_lines (zip (map contractName (p # ps)) (t # tables))"
    using secs tables(2) by (simp add: section_lines_def)
  ultimately show ?case by blast
qed

lemma contract_sections_safe:
  assumes "\<forall>p \<in> set ps. safe_pair h p"
  shows "\<exists>secs. contract_sections h T ps = Inr secs"
  using assms
proof (induction ps)
  case Nil
  show ?case by simp
next
  case (Cons p ps)
  from generate_safe[of h p T] Cons.prems obtain t where
    "generateContractComparisonTable h p T = Inr t" by auto
  moreover from Cons obtain rest where "contract_sections h T ps = Inr rest" by auto
  ultimately show ?case by simp
qed

lemma runComparison_no_pairs:
  assumes "findBenchmarkPairs h (reportsDir inp) (baseSuffix inp) (prSuffix inp) = []"
  shows "runComparison h inp =
    Inr (''# Benchmark Comparison'' @ newline @ newline @
         ''No matching benchmark report pairs found to compare.'' @ newline)"
  using assms by (simp add: runComparison_def)

lemma runComparison_document:
  assumes "runComparison h inp = Inr doc"
    and "findBenchmarkPairs h (reportsDir inp) (baseSuffix inp) (prSuffix inp) \<noteq> []"
  shows "\<exists>tables. length tables = length (section_order h inp) \<and>
    doc = render_document (zip (section_order h inp) tables)"
proof -
  let ?sorted = "sort_by (\<lambda>a b. localeCompare h (contractName a) (contractName b))
    (findBenchmarkPairs h (reportsDir inp) (baseSuffix inp) (prSuffix inp))"
  from assms obtain secs where secs: "contract_sections h (threshold inp) ?sorted = Inr secs"
    and doc: "doc = join ([''<!-- benchmark-diff -->'' @ newline,
        ''# Benchmark Comparison'' @ newline] @ secs) newline"
    by (auto simp: runComparison_def Let_def try_bind_Inr_iff)
  from contract_sections_structure[OF secs] obtain tables where
    t: "list_all2 (\<lambda>p t. generateContractComparisonTable h p (threshold inp) = Inr t) ?sorted tables"
      "secs = section_lines (zip (map contractName ?sorted) tables)" by blast
  from t(1) have "length tables = length (section_order h inp)"
    by (simp add: section_order_def list_all2_lengthD)
  moreover from doc t(2) have "doc = render_document (zip (section_order h inp) tables)"
    by (simp add: render_document_def section_order_def section_lines_def)
  ultimately show ?thesis by blast
qed

lemma runComparison_safe:
  assumes "\<forall>p \<in> set (findBenchmarkPairs h (reportsDir inp) (baseSuffix inp) (prSuffix inp)).
    safe_pair h p"
  shows "\<exists>doc. runComparison h inp = Inr doc"
proof -
  let ?pairs = "findBenchmarkPairs h (reportsDir inp) (baseSuffix inp) (prSuffix inp)"
  let ?sorted = "sort_by (\<lambda>a b. localeCompare h (contractName a) (contractName b)) ?pairs"
  from assms have "\<forall>p \<in> set ?sorted. safe_pair h p" by (simp add: set_sort_by)
  from contract_sections_safe[OF this] obtain secs where
    "contract_sections h (threshold inp) ?sorted = Inr secs" by blast
  then show ?thesis by (simp add: runComparison_def Let_def)
qed

lemma startsWith_append: "startsWith (p @ s) p"
  by (simp add: startsWith_def)

lemma render_document_marker: "startsWith (render_document secs) ''<!-- benchmark-diff -->''"
proof -
  have "\<exists>rest. render_document secs = ''<!-- benchmark-diff -->'' @ rest"
    by (cases "section_lines secs")
       (simp_all add: render_document_def section_lines_def[symmetric])
  then obtain rest where r: "render_document secs = ''<!-- benchmark-diff -->'' @ rest" ..
  show ?thesis unfolding r by (rule startsWith_append)
qed

lemma findBenchmarkPairs_distinct:
  assumes "readdirSync h dir = Inr files" "distinct files"
  shows "distinct (map contractName (findBenchmarkPairs h dir bs ps))"
  using assms by (simp add: findBenchmarkPairs_def Let_def findBenchmarkPairs_loop_distinct)

lemma sorted_section_order:
  assumes "total_preorder_on (localeCompare h)
    (set (map contractName (findBenchmarkPairs h (reportsDir inp) (baseSuffix inp) (prSuffix inp))))"
  shows "sorted_wrt (\<lambda>a b. localeCompare h a b \<le> 0) (section_order h inp)"
proof -
  let ?pairs = "findBenchmarkPairs h (reportsDir inp) (baseSuffix inp) (prSuffix inp)"
  from assms have "total_preorder_on (localeCompare h) (contractName ` set ?pairs)" by simp
  from sorted_sort_by[OF total_preorder_on_map[OF this]] show ?thesis
    by (simp add: section_order_def sorted_wrt_map)
qed

lemma runComparison_listing_order:
  assumes l: "readdirSync h (reportsDir inp) = Inr l" "distinct l"
    and l': "distinct l'" "set l' = set l"
    and tp: "total_preorder_on (localeCompare h)
      (set (map contractName (findBenchmarkPairs h (reportsDir inp) (baseSuffix inp) (prSuffix inp))))"
    and sep: "separates (localeCompare h)
      (set (map contractName (findBenchmarkPairs h (reportsDir inp) (baseSuffix inp) (prSuffix inp))))"
  shows "runComparison (h\<lparr>readdirSync := \<lambda>d. if d = reportsDir inp then Inr l' else readdirSync h d\<rparr>) inp =
    runComparison h inp"
proof -
  let ?h' = "h\<lparr>readdirSync := \<lambda>d. if d = reportsDir inp then Inr l' else readdirSync h d\<rparr>"
  let ?bpat = "baseSuffix inp @ ''.benchmark.json''"
  let ?ppat = "prSuffix inp @ ''.benchmark.json''"
  let ?pairs = "findBenchmarkPairs h (reportsDir inp) (baseSuffix inp) (prSuffix inp)"
  let ?pairs' = "findBenchmarkPairs ?h' (reportsDir inp) (baseSuffix inp) (prSuffix inp)"
  let ?cmp = "\<lambda>a b. localeCompare h (contractName a) (contractName b)"
  have p: "?pairs = findBenchmarkPairs_loop h (reportsDir inp) ?bpat ?ppat l"
    by (simp add: findBenchmarkPairs_def Let_def l(1))
  have p': "?pairs' = findBenchmarkPairs_loop h (reportsDir inp) ?bpat ?ppat l'"
    by (simp add: findBenchmarkPairs_def Let_def findBenchmarkPairs_loop_host[of ?h' h])
  have sets: "set ?pairs = set ?pairs'"
    unfolding p p' by (rule findBenchmarkPairs_loop_set) (simp add: l'(2))
  have dn: "distinct (map contractName ?pairs)" "distinct (map contractName ?pairs')"
    unfolding p p' using l(2) l'(1) by (simp_all add: findBenchmarkPairs_loop_distinct)
  then have d: "distinct ?pairs" "distinct ?pairs'" by (simp_all add: distinct_map)
  from dn(1) have inj: "inj_on contractName (set ?pairs)" by (simp add: distinct_map)
  have "total_preorder_on ?cmp (set ?pairs)"
    by (rule total_preorder_on_map) (use tp in simp)
  moreover have "separates ?cmp (set ?pairs)"
    by (rule separates_map[OF _ inj]) (use sep in simp)
  ultimately have sorted_eq: "sort_by ?cmp ?pairs = sort_by ?cmp ?pairs'"
    using d sets by (rule sort_by_permutation)
  have empty: "(?pairs' = []) = (?pairs = [])"
    using arg_cong[OF sets, of "\<lambda>S. S = {}"] by (simp only: set_empty)
  have lc: "localeCompare ?h' = localeCompare h" by simp
  have cs: "contract_sections ?h' T ps = contract_sections h T ps" for T ps
    by (rule contract_sections_host) simp_all
  show ?thesis
    unfolding runComparison_def Let_def lc cs empty sorted_eq[symmetric] by (rule refl)
qed

section \<open>The examples, evaluated\<close>

lemmas code_units_eval = utf8_width_def code_point_def utf16_encode_def Let_def

lemma ex_host_fields:
  "readdirSync (ex_host listing files cmp) ''benchmarks'' = Inr listing"
  "existsSync (ex_host listing files cmp) p = (p \<in> set (map (\<lambda>f. ''benchmarks/'' @ f) listing))"
  "readJSON (ex_host listing files cmp) p =
     (case map_of files p of Some r \<Rightarrow> r | None \<Rightarrow> Inl ''ENOENT: no such file or directory'')"
  "path_join (ex_host listing files cmp) d f = d @ ''/'' @ f"
  "localeCompare (ex_host listing files cmp) = cmp"
  by (simp_all add: ex_host_def)

lemma ex_inputs_fields:
  "reportsDir (ex_inputs T) = ''benchmarks''" "baseSuffix (ex_inputs T) = ''_base''"
  "prSuffix (ex_inputs T) = ''_latest''" "threshold (ex_inputs T) = T"
  by (simp_all add: ex_inputs_def)

lemma compare_empty_reports:
  "compare_reports c (ex_report []) (ex_report []) T =
    Inr ''*No comparable functions found between reports.*''"
  by (simp add: compare_reports_def lacks_results_def ex_report_def build_comparison_def
      result_names_def sorted_keys_def sort_by_def Let_def)

lemma collate_za:
  "ex_localeCompare ''Zebra'' ''apple'' = 1" "ex_localeCompare ''apple'' ''Zebra'' = - 1"
  "ex_localeCompare ''apple'' ''apple'' = 0" "ex_localeCompare ''Zebra'' ''Zebra'' = 0"
  by (simp_all add: ex_localeCompare_def fold_case_def Let_def)

lemma pairs_za:
  "findBenchmarkPairs ex_host_za ''benchmarks'' ''_base'' ''_latest'' =
    [\<lparr>contractName = ''Zebra'', baseJsonPath = ''benchmarks/Zebra_base.benchmark.json'',
      prJsonPath = ''benchmarks/Zebra_latest.benchmark.json''\<rparr>,
     \<lparr>contractName = ''apple'', baseJsonPath = ''benchmarks/apple_base.benchmark.json'',
      prJsonPath = ''benchmarks/apple_latest.benchmark.json''\<rparr>]"
  by (simp add: findBenchmarkPairs_def ex_host_za_def ex_host_fields ex_listing_za_def
      endsWith_def Let_def)

lemma section_order_za: "section_order ex_host_za (ex_inputs T) = [''apple'', ''Zebra'']"
proof -
  have lc: "localeCompare ex_host_za = ex_localeCompare"
    by (simp add: ex_host_za_def ex_host_fields)
  show ?thesis
    by (simp add: section_order_def ex_inputs_fields pairs_za lc sort_by_def collate_za)
qed

lemma tables_za:
  "generateContractComparisonTable ex_host_za
     \<lparr>contractName = ''Zebra'', baseJsonPath = ''benchmarks/Zebra_base.benchmark.json'',
      prJsonPath = ''benchmarks/Zebra_latest.benchmark.json''\<rparr> T =
    Inr ''*No comparable functions found between reports.*''"
  "generateContractComparisonTable ex_host_za
     \<lparr>contractName = ''apple'', baseJsonPath = ''benchmarks/apple_base.benchmark.json'',
      prJsonPath = ''benchmarks/apple_latest.benchmark.json''\<rparr> T =
    Inr ''*No comparable functions found between reports.*''"
  by (simp_all add: generateContractComparisonTable_def ex_host_za_def ex_host_fields
      ex_listing_za_def ex_files_za_def compare_empty_reports)

lemma run_za:
  "runComparison ex_host_za (ex_inputs T) =
    Inr (render_document
      [(''apple'', ''*No comparable functions found between reports.*''),
       (''Zebra'', ''*No comparable functions found between reports.*'')])"
proof -
  have lc: "localeCompare ex_host_za = ex_localeCompare"
    by (simp add: ex_host_za_def ex_host_fields)
  show ?thesis
    by (simp add: runComparison_def ex_inputs_fields pairs_za lc sort_by_def collate_za
        tables_za render_document_def)
qed

lemma compare_token:
  "compare_reports ''Token'' ex_base_token ex_latest_token T = Inr (render_table ex_rows_token T)"
proof -
  have names: "build_comparison ex_base_token ex_latest_token =
    Inr [(''transfer'', Some \<lparr>gates = \<lparr>main = 100, pr = 120\<rparr>, daGas = \<lparr>main = 10, pr = 10\<rparr>,
                     l2Gas = \<lparr>main = 20, pr = 20\<rparr>\<rparr>),
         (''mint'', Some \<lparr>gates = \<lparr>main = 50, pr = 50\<rparr>, daGas = \<lparr>main = 0, pr = 0\<rparr>,
                 l2Gas = \<lparr>main = 0, pr = 0\<rparr>\<rparr>)]"
    by (simp add: build_comparison_def ex_base_token_def ex_latest_token_def ex_report_def
        ex_result_def result_names_def startsWith_def build_metrics_def getTotalGateCount_def
        getDaGas_def getL2Gas_def opt_get_def nullish_def coalesce_def metric_pair_def
        number_of_def Let_def)
  have missing: "lacks_results ex_base_token = Inr False" "lacks_results ex_latest_token = Inr False"
    by (simp_all add: lacks_results_def ex_base_token_def ex_latest_token_def ex_report_def)
  have keys: "sorted_keys
     [(''transfer'', Some \<lparr>gates = \<lparr>main = 100, pr = 120\<rparr>, daGas = \<lparr>main = 10, pr = 10\<rparr>,
                     l2Gas = \<lparr>main = 20, pr = 20\<rparr>\<rparr>),
      (''mint'', Some \<lparr>gates = \<lparr>main = 50, pr = 50\<rparr>, daGas = \<lparr>main = 0, pr = 0\<rparr>,
                 l2Gas = \<lparr>main = 0, pr = 0\<rparr>\<rparr>)] = [''mint'', ''transfer'']"
    by (simp add: sorted_keys_def sort_by_def compare_code_units_def code_units_eval)
  show ?thesis
    by (simp add: compare_reports_def names missing keys render_table_def
        ex_rows_token_def Let_def)
qed

lemma sorted_keys_astral:
  "sorted_keys ex_comparison_astral = [''a'', ex_name_astral, ex_name_fullwidth]"
  "code_units ex_name_astral = [0xD83D, 0xDE00]" "code_units ex_name_fullwidth = [0xFF21]"
  by (simp_all add: sorted_keys_def ex_comparison_astral_def ex_name_astral_def
      ex_name_fullwidth_def sort_by_def compare_code_units_def code_units_eval)

lemma excluded_examples:
  "excluded_name ''unknown_function''" "excluded_name ''burn (FAILED)''"
  "excluded_name ''BENCHMARK_RUNNER_ERROR''" "excluded_name []"
  "\<not> excluded_name ''mint''" "\<not> excluded_name ''transfer''"
  by (simp_all add: excluded_name_def startsWith_def)

section \<open>Excluded names and the order of rows and sections\<close>

text \<open>
  Claim C4. For every pair of report documents and every threshold, whatever the
  comparison returns is one of the two placeholder texts or the table of exactly the
  names that the comparison kept, one row each, and none of these names is empty,
  starts with \<open>unknown_function\<close>, contains \<open>(FAILED)\<close> or is
  \<open>BENCHMARK_RUNNER_ERROR\<close>: such names have no row, whatever their metrics.
\<close>

theorem excluded_names_have_no_row:
  assumes "compare_reports c mainData prData T = Inr out"
  shows "out = ''*Skipping '' @ c @ '': Invalid JSON structure (missing results array).*'' \<or>
    out = ''*No comparable functions found between reports.*'' \<or>
    (\<exists>comparison. build_comparison mainData prData = Inr comparison \<and>
       out = render_table (rows_of comparison (sorted_keys comparison)) T \<and>
       map fst (rows_of comparison (sorted_keys comparison)) = sorted_keys comparison \<and>
       list_all (\<lambda>n. \<not> excluded_name n) (sorted_keys comparison))"
proof -
  from compare_reports_table[OF assms]
  consider "out = ''*Skipping '' @ c @ '': Invalid JSON structure (missing results array).*''"
    | comparison where "build_comparison mainData prData = Inr comparison"
        "if sorted_keys comparison = []
         then out = ''*No comparable functions found between reports.*''
         else out = render_table (rows_of comparison (sorted_keys comparison)) T \<and>
              map fst (rows_of comparison (sorted_keys comparison)) = sorted_keys comparison"
    by blast
  then show ?thesis
  proof cases
    case 1
    then show ?thesis by simp
  next
    case (2 comparison)
    from build_comparison_keys[OF 2(1)] have
      "list_all (\<lambda>n. \<not> excluded_name n) (sorted_keys comparison)"
      by (auto simp: list_all_iff set_sorted_keys)
    with 2 show ?thesis by (cases "sorted_keys comparison = []") auto
  qed
qed

text \<open>
  The example reports: of the seven names in the two reports only \<open>mint\<close> and
  \<open>transfer\<close> get a row.
\<close>

theorem excluded_names_have_no_row_witness:
  "compare_reports ''Token'' ex_base_token ex_latest_token 10 =
     Inr (render_table ex_rows_token 10) \<and>
   map fst ex_rows_token = [''mint'', ''transfer''] \<and>
   excluded_name ''unknown_function'' \<and> excluded_name ''burn (FAILED)'' \<and>
   excluded_name ''BENCHMARK_RUNNER_ERROR'' \<and> excluded_name [] \<and>
   (render_table ex_rows_token 10 =
      ''*Skipping Token: Invalid JSON structure (missing results array).*'' \<or>
    render_table ex_rows_token 10 = ''*No comparable functions found between reports.*'' \<or>
    (\<exists>comparison. build_comparison ex_base_token ex_latest_token = Inr comparison \<and>
       render_table ex_rows_token 10 =
         render_table (rows_of comparison (sorted_keys comparison)) 10 \<and>
       map fst (rows_of comparison (sorted_keys comparison)) = sorted_keys comparison \<and>
       list_all (\<lambda>n. \<not> excluded_name n) (sorted_keys comparison)))"
proof -
  have "map fst ex_rows_token = [''mint'', ''transfer'']"
    by (simp add: ex_rows_token_def)
  with compare_token[of 10] excluded_examples
    excluded_names_have_no_row[OF compare_token[of 10]]
  show ?thesis by simp
qed

text \<open>
  Claim C5, as amended. The sections of the document follow the contract names in the
  order of the host's \<open>localeCompare\<close> (whenever that comparison is total and
  transitive on the names found), not in the order of their code units; the rows of
  every table are the entries of the comparison under its sorted keys, which are
  distinct and ascend in the order of their UTF-16 code units.
\<close>

theorem sections_by_collation_rows_by_code_units:
  "(total_preorder_on (localeCompare h)
      (set (map contractName
         (findBenchmarkPairs h (reportsDir inp) (baseSuffix inp) (prSuffix inp)))) \<longrightarrow>
      sorted_wrt (\<lambda>a b. localeCompare h a b \<le> 0) (section_order h inp)) \<and>
   (runComparison h inp = Inr doc \<and>
    findBenchmarkPairs h (reportsDir inp) (baseSuffix inp) (prSuffix inp) \<noteq> [] \<longrightarrow>
      (\<exists>tables. length tables = length (section_order h inp) \<and>
         doc = render_document (zip (section_order h inp) tables))) \<and>
   (compare_reports c a b T = Inr out \<longrightarrow>
      out = ''*Skipping '' @ c @ '': Invalid JSON structure (missing results array).*'' \<or>
      out = ''*No comparable functions found between reports.*'' \<or>
      (\<exists>comparison. build_comparison a b = Inr comparison \<and>
         out = render_table (rows_of comparison (sorted_keys comparison)) T \<and>
         map fst (rows_of comparison (sorted_keys comparison)) = sorted_keys comparison \<and>
         sorted (map code_units (sorted_keys comparison)) \<and>
         distinct (sorted_keys comparison)))"
proof (intro conjI impI)
  assume "total_preorder_on (localeCompare h)
      (set (map contractName
         (findBenchmarkPairs h (reportsDir inp) (baseSuffix inp) (prSuffix inp))))"
  then show "sorted_wrt (\<lambda>a b. localeCompare h a b \<le> 0) (section_order h inp)"
    by (rule sorted_section_order)
next
  assume "runComparison h inp = Inr doc \<and>
    findBenchmarkPairs h (reportsDir inp) (baseSuffix inp) (prSuffix inp) \<noteq> []"
  then show "\<exists>tables. length tables = length (section_order h inp) \<and>
         doc = render_document (zip (section_order h inp) tables)"
    using runComparison_document[of h inp doc] by blast
next
  assume out: "compare_reports c a b T = Inr out"
  from compare_reports_table[OF out]
  consider "out = ''*Skipping '' @ c @ '': Invalid JSON structure (missing results array).*''"
    | comparison where "build_comparison a b = Inr comparison"
        "if sorted_keys comparison = []
         then out = ''*No comparable functions found between reports.*''
         else out = render_table (rows_of comparison (sorted_keys comparison)) T \<and>
              map fst (rows_of comparison (sorted_keys comparison)) = sorted_keys comparison"
    by blast
  then show "out = ''*Skipping '' @ c @ '': Invalid JSON structure (missing results array).*'' \<or>
      out = ''*No comparable functions found between reports.*'' \<or>
      (\<exists>comparison. build_comparison a b = Inr comparison \<and>
         out = render_table (rows_of comparison (sorted_keys comparison)) T \<and>
         map fst (rows_of comparison (sorted_keys comparison)) = sorted_keys comparison \<and>
         sorted (map code_units (sorted_keys comparison)) \<and>
         distinct (sorted_keys comparison))"
  proof cases
    case 1
    then show ?thesis by simp
  next
    case (2 comparison)
    from build_comparison_keys[OF 2(1)] have d: "distinct (sorted_keys comparison)"
      by (simp add: distinct_sorted_keys)
    show ?thesis
    proof (cases "sorted_keys comparison = []")
      case True
      with 2(2) show ?thesis by simp
    next
      case False
      with 2 d sorted_sorted_keys[of comparison] show ?thesis by auto
    qed
  qed
qed

text \<open>
  The contracts \<open>Zebra\<close> and \<open>apple\<close> under the English collation, the rows of the
  example reports, and three names of which one lies beyond U+FFFF: its surrogates
  come before the code unit FF21, although its bytes come after those of U+FF21.
\<close>

theorem sections_by_collation_rows_by_code_units_witness:
  "total_preorder_on (localeCompare ex_host_za)
      (set (map contractName
         (findBenchmarkPairs ex_host_za (reportsDir (ex_inputs 5)) (baseSuffix (ex_inputs 5))
            (prSuffix (ex_inputs 5))))) \<and>
   sorted_wrt (\<lambda>a b. localeCompare ex_host_za a b \<le> 0) (section_order ex_host_za (ex_inputs 5)) \<and>
   section_order ex_host_za (ex_inputs 5) = [''apple'', ''Zebra''] \<and>
   runComparison ex_host_za (ex_inputs 5) =
     Inr (render_document
       [(''apple'', ''*No comparable functions found between reports.*''),
        (''Zebra'', ''*No comparable functions found between reports.*'')]) \<and>
   compare_reports ''Token'' ex_base_token ex_latest_token 5 =
     Inr (render_table ex_rows_token 5) \<and>
   map fst ex_rows_token = [''mint'', ''transfer''] \<and>
   sorted (map code_units (map fst ex_rows_token)) \<and> distinct (map fst ex_rows_token) \<and>
   sorted_keys ex_comparison_astral = [''a'', ex_name_astral, ex_name_fullwidth] \<and>
   code_units ex_name_astral = [0xD83D, 0xDE00] \<and> code_units ex_name_fullwidth = [0xFF21] \<and>
   ex_name_fullwidth < ex_name_astral"
proof -
  have lc: "localeCompare ex_host_za = ex_localeCompare"
    by (simp add: ex_host_za_def ex_host_fields)
  have tp: "total_preorder_on (localeCompare ex_host_za)
      (set (map contractName
         (findBenchmarkPairs ex_host_za (reportsDir (ex_inputs 5)) (baseSuffix (ex_inputs 5))
            (prSuffix (ex_inputs 5)))))"
    by (simp add: ex_inputs_fields pairs_za lc total_preorder_on_def collate_za)
  have rows: "map fst ex_rows_token = [''mint'', ''transfer'']"
    "sorted (map code_units (map fst ex_rows_token))" "distinct (map fst ex_rows_token)"
    by (simp_all add: ex_rows_token_def code_units_eval)
  have bytes: "ex_name_fullwidth < ex_name_astral"
    by (simp add: ex_name_fullwidth_def ex_name_astral_def)
  from sections_by_collation_rows_by_code_units
    [where h = ex_host_za and inp = "ex_inputs 5", THEN conjunct1, rule_format, OF tp]
    tp section_order_za[of 5] run_za[of 5] compare_token[of 5] rows sorted_keys_astral bytes
  show ?thesis by simp
qed

text \<open>
  Claim C5 as it was stated fails on these two contracts: the section of \<open>apple\<close>
  comes before the section of \<open>Zebra\<close>, although \<open>Z\<close> has the smaller code unit.
\<close>

theorem sections_not_in_code_unit_order:
  "section_order ex_host_za (ex_inputs 5) = [''apple'', ''Zebra''] \<and>
   code_units ''apple'' = [97, 112, 112, 108, 101] \<and>
   code_units ''Zebra'' = [90, 101, 98, 114, 97] \<and>
   \<not> sorted (map code_units (section_order ex_host_za (ex_inputs 5))) \<and>
   runComparison ex_host_za (ex_inputs 5) =
     Inr (render_document
       [(''apple'', ''*No comparable functions found between reports.*''),
        (''Zebra'', ''*No comparable functions found between reports.*'')])"
  by (simp add: section_order_za run_za code_units_eval)

section \<open>The marker comment\<close>

text \<open>
  When pairs are found, the document starts with the marker comment.
\<close>

lemma runComparison_marker:
  assumes "runComparison h inp = Inr doc"
    and "findBenchmarkPairs h (reportsDir inp) (baseSuffix inp) (prSuffix inp) \<noteq> []"
  shows "startsWith doc ''<!-- benchmark-diff -->''"
  using runComparison_document[OF assms] render_document_marker by auto

text \<open>
  Claim C6 fails where the claim names it expressly. With a reports directory that
  does not exist no pair is found, and the document returned is the fixed text without
  the marker comment.
\<close>

theorem no_pairs_document_lacks_marker:
  "runComparison (ex_host [] [] ex_localeCompare) ((ex_inputs 5)\<lparr>reportsDir := ''missing''\<rparr>) =
     Inr (''# Benchmark Comparison'' @ newline @ newline @
          ''No matching benchmark report pairs found to compare.'' @ newline) \<and>
   \<not> startsWith (''# Benchmark Comparison'' @ newline @ newline @
          ''No matching benchmark report pairs found to compare.'' @ newline)
        ''<!-- benchmark-diff -->''"
proof -
  have "findBenchmarkPairs (ex_host [] [] ex_localeCompare) ''missing'' ''_base'' ''_latest'' = []"
    by (simp add: findBenchmarkPairs_def ex_host_def)
  then show ?thesis
    by (simp add: runComparison_def ex_inputs_def startsWith_def)
qed

section \<open>Failures of one pair\<close>

lemma collate_broken:
  "ex_localeCompare ''Broken'' ''Token'' = - 1" "ex_localeCompare ''Token'' ''Broken'' = 1"
  "ex_localeCompare ''Token'' ''Vault'' = - 1" "ex_localeCompare ''Vault'' ''Token'' = 1"
  by (simp_all add: ex_localeCompare_def fold_case_def Let_def)

lemma pairs_broken:
  "findBenchmarkPairs ex_host_broken ''benchmarks'' ''_base'' ''_latest'' =
    [\<lparr>contractName = ''Broken'', baseJsonPath = ''benchmarks/Broken_base.benchmark.json'',
      prJsonPath = ''benchmarks/Broken_latest.benchmark.json''\<rparr>,
     \<lparr>contractName = ''Token'', baseJsonPath = ''benchmarks/Token_base.benchmark.json'',
      prJsonPath = ''benchmarks/Token_latest.benchmark.json''\<rparr>]"
  by (simp add: findBenchmarkPairs_def ex_host_broken_def ex_host_fields ex_listing_broken_def
      endsWith_def Let_def)

lemma tables_broken:
  "generateContractComparisonTable ex_host_broken
     \<lparr>contractName = ''Broken'', baseJsonPath = ''benchmarks/Broken_base.benchmark.json'',
      prJsonPath = ''benchmarks/Broken_latest.benchmark.json''\<rparr> T =
    Inr ''*Error parsing benchmark JSON for Broken: Unexpected end of JSON input*''"
  "generateContractComparisonTable ex_host_broken
     \<lparr>contractName = ''Token'', baseJsonPath = ''benchmarks/Token_base.benchmark.json'',
      prJsonPath = ''benchmarks/Token_latest.benchmark.json''\<rparr> T =
    Inr (render_table ex_rows_token T)"
  by (simp_all add: generateContractComparisonTable_def ex_host_broken_def ex_host_fields
      ex_listing_broken_def ex_files_broken_def compare_token)

lemma run_broken:
  "runComparison ex_host_broken (ex_inputs T) =
    Inr (render_document
      [(''Broken'', ''*Error parsing benchmark JSON for Broken: Unexpected end of JSON input*''),
       (''Token'', render_table ex_rows_token T)])"
proof -
  have lc: "localeCompare ex_host_broken = ex_localeCompare"
    by (simp add: ex_host_broken_def ex_host_fields)
  show ?thesis
    by (simp add: runComparison_def ex_inputs_fields pairs_broken lc sort_by_def collate_broken
        tables_broken render_document_def)
qed

lemma well_formed_token: "well_formed_report ex_base_token" "well_formed_report ex_latest_token"
  by (simp_all add: well_formed_report_def well_formed_result_def ex_base_token_def
      ex_latest_token_def ex_report_def ex_result_def getTotalGateCount_def getDaGas_def
      getL2Gas_def opt_get_def nullish_def coalesce_def)

lemma safe_pairs_broken:
  "\<forall>q \<in> set (findBenchmarkPairs ex_host_broken (reportsDir (ex_inputs T))
      (baseSuffix (ex_inputs T)) (prSuffix (ex_inputs T))). safe_pair ex_host_broken q"
  unfolding ex_inputs_fields pairs_broken
  by (simp add: safe_pair_def ex_host_broken_def ex_host_fields ex_listing_broken_def
      ex_files_broken_def well_formed_token)

text \<open>
  Claim C7, as amended. When reading or parsing either file fails, or either parsed
  document is falsy or has no truthy \<open>results\<close>, the comparison of the pair returns a
  placeholder text. When every pair found is of that kind or has two reports of the
  expected shape, no exception escapes: every single comparison returns, and the run
  returns a document with a section for every pair.
\<close>

theorem pair_failures_become_placeholders:
  "(existsSync h (baseJsonPath p) \<and> existsSync h (prJsonPath p) \<and>
    readJSON h (baseJsonPath p) = Inl msg \<longrightarrow>
      generateContractComparisonTable h p T =
        Inr (''*Error parsing benchmark JSON for '' @ contractName p @ '': '' @ msg @ ''*'')) \<and>
   (existsSync h (baseJsonPath p) \<and> existsSync h (prJsonPath p) \<and>
    readJSON h (baseJsonPath p) = Inr a \<and> readJSON h (prJsonPath p) = Inl msg \<longrightarrow>
      generateContractComparisonTable h p T =
        Inr (''*Error parsing benchmark JSON for '' @ contractName p @ '': '' @ msg @ ''*'')) \<and>
   (existsSync h (baseJsonPath p) \<and> existsSync h (prJsonPath p) \<and>
    readJSON h (baseJsonPath p) = Inr a \<and> readJSON h (prJsonPath p) = Inr b \<and>
    (results_missing a \<or> results_missing b) \<longrightarrow>
      generateContractComparisonTable h p T =
        Inr (''*Skipping '' @ contractName p @
             '': Invalid JSON structure (missing results array).*'')) \<and>
   (safe_pair h p \<longrightarrow> (\<exists>out. generateContractComparisonTable h p T = Inr out)) \<and>
   ((\<forall>q \<in> set (findBenchmarkPairs h (reportsDir inp) (baseSuffix inp) (prSuffix inp)).
       safe_pair h q) \<longrightarrow>
      (\<exists>doc. runComparison h inp = Inr doc \<and>
         (findBenchmarkPairs h (reportsDir inp) (baseSuffix inp) (prSuffix inp) = [] \<or>
          (\<exists>tables. length tables = length (section_order h inp) \<and>
             doc = render_document (zip (section_order h inp) tables)))))"
proof (intro conjI impI)
  assume "existsSync h (baseJsonPath p) \<and> existsSync h (prJsonPath p) \<and>
    readJSON h (baseJsonPath p) = Inl msg"
  then show "generateContractComparisonTable h p T =
        Inr (''*Error parsing benchmark JSON for '' @ contractName p @ '': '' @ msg @ ''*'')"
    by (simp add: generateContractComparisonTable_def)
next
  assume "existsSync h (baseJsonPath p) \<and> existsSync h (prJsonPath p) \<and>
    readJSON h (baseJsonPath p) = Inr a \<and> readJSON h (prJsonPath p) = Inl msg"
  then show "generateContractComparisonTable h p T =
        Inr (''*Error parsing benchmark JSON for '' @ contractName p @ '': '' @ msg @ ''*'')"
    by (simp add: generateContractComparisonTable_def)
next
  assume "existsSync h (baseJsonPath p) \<and> existsSync h (prJsonPath p) \<and>
    readJSON h (baseJsonPath p) = Inr a \<and> readJSON h (prJsonPath p) = Inr b \<and>
    (results_missing a \<or> results_missing b)"
  then show "generateContractComparisonTable h p T =
        Inr (''*Skipping '' @ contractName p @
             '': Invalid JSON structure (missing results array).*'')"
    using compare_reports_missing[of a b "contractName p" T]
    by (simp add: generateContractComparisonTable_def)
next
  assume "safe_pair h p"
  then show "\<exists>out. generateContractComparisonTable h p T = Inr out"
    by (rule generate_safe)
next
  assume safe: "\<forall>q \<in> set (findBenchmarkPairs h (reportsDir inp) (baseSuffix inp) (prSuffix inp)).
       safe_pair h q"
  from runComparison_safe[OF safe] obtain doc where doc: "runComparison h inp = Inr doc" ..
  show "\<exists>doc. runComparison h inp = Inr doc \<and>
         (findBenchmarkPairs h (reportsDir inp) (baseSuffix inp) (prSuffix inp) = [] \<or>
          (\<exists>tables. length tables = length (section_order h inp) \<and>
             doc = render_document (zip (section_order h inp) tables)))"
    using doc runComparison_document[OF doc] by blast
qed

text \<open>
  A directory where the base report of one contract does not parse: its section holds
  the error text, and the other contract still gets its table.
\<close>

theorem pair_failures_become_placeholders_witness:
  "generateContractComparisonTable ex_host_broken
     \<lparr>contractName = ''Broken'', baseJsonPath = ''benchmarks/Broken_base.benchmark.json'',
      prJsonPath = ''benchmarks/Broken_latest.benchmark.json''\<rparr> 5 =
     Inr ''*Error parsing benchmark JSON for Broken: Unexpected end of JSON input*'' \<and>
   runComparison ex_host_broken (ex_inputs 5) =
     Inr (render_document
       [(''Broken'', ''*Error parsing benchmark JSON for Broken: Unexpected end of JSON input*''),
        (''Token'', render_table ex_rows_token 5)]) \<and>
   (\<exists>doc. runComparison ex_host_broken (ex_inputs 5) = Inr doc \<and>
      (findBenchmarkPairs ex_host_broken (reportsDir (ex_inputs 5)) (baseSuffix (ex_inputs 5))
         (prSuffix (ex_inputs 5)) = [] \<or>
       (\<exists>tables. length tables = length (section_order ex_host_broken (ex_inputs 5)) \<and>
          doc = render_document (zip (section_order ex_host_broken (ex_inputs 5)) tables))))"
proof -
  from pair_failures_become_placeholders
    [where h = ex_host_broken and inp = "ex_inputs 5", THEN conjunct2, THEN conjunct2,
      THEN conjunct2, THEN conjunct2, THEN mp, OF safe_pairs_broken[of 5]]
  have "\<exists>doc. runComparison ex_host_broken (ex_inputs 5) = Inr doc \<and>
      (findBenchmarkPairs ex_host_broken (reportsDir (ex_inputs 5)) (baseSuffix (ex_inputs 5))
         (prSuffix (ex_inputs 5)) = [] \<or>
       (\<exists>tables. length tables = length (section_order ex_host_broken (ex_inputs 5)) \<and>
          doc = render_document (zip (section_order ex_host_broken (ex_inputs 5)) tables)))" .
  with tables_broken(1)[of 5] run_broken[of 5] show ?thesis by (intro conjI)
qed

lemma pairs_vault:
  "findBenchmarkPairs ex_host_vault ''benchmarks'' ''_base'' ''_latest'' =
    [\<lparr>contractName = ''Token'', baseJsonPath = ''benchmarks/Token_base.benchmark.json'',
      prJsonPath = ''benchmarks/Token_latest.benchmark.json''\<rparr>, ex_pair_vault]"
  by (simp add: findBenchmarkPairs_def ex_host_vault_def ex_host_fields ex_listing_vault_def
      ex_pair_vault_def endsWith_def Let_def)

lemma tables_vault:
  "generateContractComparisonTable ex_host_vault
     \<lparr>contractName = ''Token'', baseJsonPath = ''benchmarks/Token_base.benchmark.json'',
      prJsonPath = ''benchmarks/Token_latest.benchmark.json''\<rparr> T =
    Inr (render_table ex_rows_token T)"
  by (simp add: generateContractComparisonTable_def ex_host_vault_def ex_host_fields
      ex_listing_vault_def ex_files_vault_def compare_token)

lemma table_vault_throws:
  "generateContractComparisonTable ex_host_vault ex_pair_vault T = Inl TypeError"
  by (simp add: generateContractComparisonTable_def ex_host_vault_def ex_host_fields
      ex_listing_vault_def ex_files_vault_def ex_pair_vault_def
      compare_reports_def lacks_results_def build_comparison_def result_names_def
      ex_report_def ex_result_def)

text \<open>
  Claim C7 as it was stated fails on a report that parses and has a \<open>results\<close> array
  with a \<open>null\<close> entry: reading the name of that entry throws, nothing catches it, and
  the run ends without a document, so that the other contract gets no section either.
\<close>

theorem null_entry_throws:
  "generateContractComparisonTable ex_host_vault ex_pair_vault 5 = Inl TypeError \<and>
   findBenchmarkPairs ex_host_vault (reportsDir (ex_inputs 5)) (baseSuffix (ex_inputs 5))
     (prSuffix (ex_inputs 5)) =
     [\<lparr>contractName = ''Token'', baseJsonPath = ''benchmarks/Token_base.benchmark.json'',
       prJsonPath = ''benchmarks/Token_latest.benchmark.json''\<rparr>, ex_pair_vault] \<and>
   runComparison ex_host_vault (ex_inputs 5) = Inl TypeError"
proof -
  have lc: "localeCompare ex_host_vault = ex_localeCompare"
    by (simp add: ex_host_vault_def ex_host_fields)
  have names: "contractName ex_pair_vault = ''Vault''"
    by (simp add: ex_pair_vault_def)
  have "runComparison ex_host_vault (ex_inputs 5) = Inl TypeError"
    by (simp add: runComparison_def ex_inputs_fields pairs_vault lc sort_by_def names
        collate_broken tables_vault table_vault_throws)
  with table_vault_throws[of 5] pairs_vault show ?thesis
    by (simp add: ex_inputs_fields)
qed

section \<open>The order of the directory listing\<close>

lemma collate_accent:
  "ex_localeCompare ex_name_composed ex_name_decomposed = 0"
  "ex_localeCompare ex_name_decomposed ex_name_composed = 0"
  "ex_localeCompare ex_name_composed ex_name_composed = 0"
  "ex_localeCompare ex_name_decomposed ex_name_decomposed = 0"
  by (simp_all add: ex_localeCompare_def ex_name_composed_def ex_name_decomposed_def
      fold_case_def Let_def)

lemma pairs_accent:
  "findBenchmarkPairs ex_host_accent ''benchmarks'' ''_base'' ''_latest'' =
    [ex_pair_composed, ex_pair_decomposed]"
  "findBenchmarkPairs ex_host_accent' ''benchmarks'' ''_base'' ''_latest'' =
    [ex_pair_decomposed, ex_pair_composed]"
  by (simp_all add: findBenchmarkPairs_def ex_host_accent_def ex_host_accent'_def ex_host_fields
      ex_listing_accent_def ex_listing_accent'_def ex_pair_composed_def ex_pair_decomposed_def
      ex_name_composed_def ex_name_decomposed_def endsWith_def Let_def)

lemma names_accent:
  "contractName ex_pair_composed = ex_name_composed"
  "contractName ex_pair_decomposed = ex_name_decomposed"
  by (simp_all add: ex_pair_composed_def ex_pair_decomposed_def)

lemma tables_accent:
  "generateContractComparisonTable ex_host_accent ex_pair_composed T =
    Inr ''*No comparable functions found between reports.*''"
  "generateContractComparisonTable ex_host_accent ex_pair_decomposed T =
    Inr ''*No comparable functions found between reports.*''"
  "generateContractComparisonTable ex_host_accent' ex_pair_composed T =
    Inr ''*No comparable functions found between reports.*''"
  "generateContractComparisonTable ex_host_accent' ex_pair_decomposed T =
    Inr ''*No comparable functions found between reports.*''"
  by (simp_all add: generateContractComparisonTable_def ex_host_accent_def ex_host_accent'_def
      ex_host_fields ex_listing_accent_def ex_listing_accent'_def ex_files_accent_def
      ex_pair_composed_def ex_pair_decomposed_def ex_name_composed_def ex_name_decomposed_def
      compare_empty_reports)

lemma collation_accent:
  "localeCompare ex_host_accent = ex_localeCompare"
  "localeCompare ex_host_accent' = ex_localeCompare"
  by (simp_all add: ex_host_accent_def ex_host_accent'_def ex_host_fields)

lemma run_accent:
  "runComparison ex_host_accent (ex_inputs T) =
    Inr (render_document
      [(ex_name_composed, ''*No comparable functions found between reports.*''),
       (ex_name_decomposed, ''*No comparable functions found between reports.*'')])"
  "runComparison ex_host_accent' (ex_inputs T) =
    Inr (render_document
      [(ex_name_decomposed, ''*No comparable functions found between reports.*''),
       (ex_name_composed, ''*No comparable functions found between reports.*'')])"
  by (simp_all add: runComparison_def ex_inputs_fields pairs_accent collation_accent sort_by_def
      names_accent collate_accent tables_accent render_document_def)

text \<open>
  Claim C8 fails where the collation does not separate the contract names. The pairs
  found do not depend on the order of the listing, and the document does not either as
  long as no two different names compare as equal (\<open>runComparison_listing_order\<close>
  above). The two spellings of the name below are canonically equivalent,
  \<open>localeCompare\<close> returns 0 for them, and the stable sort leaves them in the order of
  the listing: the two listings of the same directory give two different documents.
\<close>

theorem listing_order_changes_document:
  "set ex_listing_accent' = set ex_listing_accent \<and>
   distinct ex_listing_accent \<and> distinct ex_listing_accent' \<and>
   set (findBenchmarkPairs ex_host_accent' ''benchmarks'' ''_base'' ''_latest'') =
   set (findBenchmarkPairs ex_host_accent ''benchmarks'' ''_base'' ''_latest'') \<and>
   section_order ex_host_accent (ex_inputs 5) = [ex_name_composed, ex_name_decomposed] \<and>
   section_order ex_host_accent' (ex_inputs 5) = [ex_name_decomposed, ex_name_composed] \<and>
   runComparison ex_host_accent' (ex_inputs 5) \<noteq> runComparison ex_host_accent (ex_inputs 5)"
proof -
  have listings: "set ex_listing_accent' = set ex_listing_accent"
    "distinct ex_listing_accent" "distinct ex_listing_accent'"
    by (auto simp: ex_listing_accent_def ex_listing_accent'_def ex_name_composed_def
        ex_name_decomposed_def)
  have pairs: "set (findBenchmarkPairs ex_host_accent' ''benchmarks'' ''_base'' ''_latest'') =
     set (findBenchmarkPairs ex_host_accent ''benchmarks'' ''_base'' ''_latest'')"
    by (auto simp: pairs_accent)
  have orders:
    "section_order ex_host_accent (ex_inputs 5) = [ex_name_composed, ex_name_decomposed]"
    "section_order ex_host_accent' (ex_inputs 5) = [ex_name_decomposed, ex_name_composed]"
    by (simp_all add: section_order_def ex_inputs_fields pairs_accent collation_accent
        sort_by_def names_accent collate_accent)
  have "render_document
      [(ex_name_decomposed, ''*No comparable functions found between reports.*''),
       (ex_name_composed, ''*No comparable functions found between reports.*'')] \<noteq>
    render_document
      [(ex_name_composed, ''*No comparable functions found between reports.*''),
       (ex_name_decomposed, ''*No comparable functions found between reports.*'')]"
    by (simp add: render_document_def ex_name_composed_def ex_name_decomposed_def)
  then have docs: "runComparison ex_host_accent' (ex_inputs 5) \<noteq>
     runComparison ex_host_accent (ex_inputs 5)"
    by (simp add: run_accent)
  from listings pairs orders docs show ?thesis by (intro conjI)
qed

end
